(* ===== verification/Prelude.thy ===== *)
theory Prelude
  imports Main "HOL-Library.Word"
begin

text \<open>
  Shared vocabulary of the invoice-renamer development: the Python errors the
  scripts can raise, bytes, and the Python built-ins on \<open>str\<close> that the scripts
  call (\<open>str.strip\<close>, \<open>str.upper\<close>, \<open>str.lower\<close>, \<open>str.replace\<close>,
  \<open>str.endswith\<close> with a tuple, \<open>posixpath.join\<close>). A Python \<open>str\<close> is a
  \<^typ>\<open>string\<close> whose characters are read as the Latin-1 code points 0--255;
  the character classes below are those of Python's \<open>str.isspace\<close>,
  \<open>str.isdigit\<close> and of \<open>re\<close>'s \<open>\s\<close>, \<open>\d\<close> and \<open>.\<close> on that range.
\<close>

named_theorems py_simps "evaluation rules of the modelled Python built-ins"

type_synonym byte = "8 word"
type_synonym bytes = "byte list"
type_synonym path = string

text \<open>Every exception the two scripts can see, as a value.\<close>

datatype py_error =
    KeyError string
  | IndexError
  | TypeError
  | AttributeError
  | JSONDecodeError
  | FileNotFoundError path
  | FileExistsError path
  | IsADirectoryError path
  | RequestError
  | ImageError
  | OcrError
  | PdfError

type_synonym 'a result = "py_error + 'a"

text \<open>Sequencing of statements that may raise: the first exception propagates.\<close>

definition bindE :: "'a result \<Rightarrow> ('a \<Rightarrow> 'b result) \<Rightarrow> 'b result" where
  "bindE m f = (case m of Inl e \<Rightarrow> Inl e | Inr a \<Rightarrow> f a)"

subsection \<open>Character classes\<close>

definition is_space :: "char \<Rightarrow> bool" where
  "is_space c \<longleftrightarrow>
     (let n = of_char c :: nat in
      (9 \<le> n \<and> n \<le> 13) \<or> (28 \<le> n \<and> n \<le> 32) \<or> n = 133 \<or> n = 160)"

definition is_digit :: "char \<Rightarrow> bool" where
  "is_digit c \<longleftrightarrow> (let n = of_char c :: nat in 48 \<le> n \<and> n \<le> 57)"

definition is_newline :: "char \<Rightarrow> bool" where
  "is_newline c \<longleftrightarrow> c = CHR 0x0A"

text \<open>Lower- and upper-case letters of Latin-1 that have a case partner in Latin-1.\<close>

definition is_upper_letter :: "char \<Rightarrow> bool" where
  "is_upper_letter c \<longleftrightarrow>
     (let n = of_char c :: nat in (65 \<le> n \<and> n \<le> 90) \<or> (192 \<le> n \<and> n \<le> 222 \<and> n \<noteq> 215))"

definition is_lower_letter :: "char \<Rightarrow> bool" where
  "is_lower_letter c \<longleftrightarrow>
     (let n = of_char c :: nat in (97 \<le> n \<and> n \<le> 122) \<or> (224 \<le> n \<and> n \<le> 254 \<and> n \<noteq> 247))"

definition lower_char :: "char \<Rightarrow> char" where
  "lower_char c = (if is_upper_letter c then char_of (of_char c + (32::nat)) else c)"

text \<open>
  \<open>str.upper\<close>: the German sharp s becomes \<open>SS\<close>; the two Latin-1 letters whose
  capital lies outside Latin-1 (micro sign, y with diaeresis) are kept.
\<close>

definition upper_char :: "char \<Rightarrow> string" where
  "upper_char c =
     (if is_lower_letter c then [char_of (of_char c - (32::nat))]
      else if c = CHR 0xDF then ''SS'' else [c])"

subsection \<open>String methods\<close>

definition py_lower :: "string \<Rightarrow> string" where
  "py_lower s = map lower_char s"

definition py_upper :: "string \<Rightarrow> string" where
  "py_upper s = concat (map upper_char s)"

definition py_strip :: "string \<Rightarrow> string" where
  "py_strip s = rev (dropWhile is_space (rev (dropWhile is_space s)))"

text \<open>\<open>str.replace(old, new)\<close>: non-overlapping occurrences, left to right.\<close>

fun replace_nonempty :: "string \<Rightarrow> string \<Rightarrow> string \<Rightarrow> string" where
  "replace_nonempty old new [] = []"
| "replace_nonempty old new (c # cs) =
     (if old \<noteq> [] \<and> take (length old) (c # cs) = old
      then new @ replace_nonempty old new (drop (length old) (c # cs))
      else c # replace_nonempty old new cs)"

text \<open>An empty \<open>old\<close> inserts \<open>new\<close> before every character and at the end.\<close>

definition py_replace :: "string \<Rightarrow> string \<Rightarrow> string \<Rightarrow> string" where
  "py_replace s old new =
     (if old = [] then new @ concat (map (\<lambda>c. c # new) s) else replace_nonempty old new s)"

definition ends_with :: "string \<Rightarrow> string \<Rightarrow> bool" where
  "ends_with s x \<longleftrightarrow> drop (length s - length x) s = x"

text \<open>\<open>s.endswith((x1, ..., xn))\<close>.\<close>

fun endswith_any :: "string \<Rightarrow> string list \<Rightarrow> bool" where
  "endswith_any s [] = False"
| "endswith_any s (x # xs) = (ends_with s x \<or> endswith_any s xs)"

text \<open>\<open>os.path.join(a, b)\<close> of \<open>posixpath\<close>: an absolute \<open>b\<close> discards \<open>a\<close>.\<close>

definition path_join :: "path \<Rightarrow> path \<Rightarrow> path" where
  "path_join a b =
     (if b \<noteq> [] \<and> hd b = CHR ''/'' then b
      else if a = [] \<or> last a = CHR ''/'' then a @ b
      else a @ ''/'' @ b)"

text \<open>\<open>str(n)\<close> of a non-negative \<open>int\<close>: its decimal digits.\<close>

fun dec_str :: "nat \<Rightarrow> string" where
  "dec_str n = (if n < 10 then [char_of (48 + n)] else dec_str (n div 10) @ [char_of (48 + n mod 10)])"

subsection \<open>Lemmas on the built-ins\<close>

lemma bindE_Inl [simp]: "bindE (Inl e) f = Inl e"
  by (simp add: bindE_def)

lemma bindE_Inr [simp]: "bindE (Inr a) f = f a"
  by (simp add: bindE_def)

lemma bindE_eq_Inr: "bindE m f = Inr b \<longleftrightarrow> (\<exists>a. m = Inr a \<and> f a = Inr b)"
  by (cases m) (auto simp: bindE_def)

lemma replace_nonempty_single [py_simps]:
  "replace_nonempty [a] new s = concat (map (\<lambda>c. if c = a then new else [c]) s)"
  by (induction s) auto

lemma py_replace_single [py_simps]:
  "py_replace s [a] new = concat (map (\<lambda>c. if c = a then new else [c]) s)"
  by (simp add: py_replace_def replace_nonempty_single)

lemma set_concat_map_single:
  "set (concat (map (\<lambda>c. if c = a then new else [c]) s)) =
     (set s - {a}) \<union> (if a \<in> set s then set new else {})"
  by (induction s) auto

lemma py_replace_single_removes [py_simps]:
  "a \<notin> set new \<Longrightarrow> a \<notin> set (py_replace s [a] new)"
  by (simp add: py_replace_single set_concat_map_single)

lemma py_replace_single_keeps [py_simps]:
  "b \<noteq> a \<Longrightarrow> b \<in> set (py_replace s [a] new) \<longleftrightarrow> b \<in> set s \<or> (a \<in> set s \<and> b \<in> set new)"
  by (auto simp add: py_replace_single set_concat_map_single)

lemma ends_with_append [py_simps]: "ends_with (s @ x) x"
  by (simp add: ends_with_def)

lemma ends_with_iff: "ends_with s x \<longleftrightarrow> (\<exists>p. s = p @ x)"
proof
  assume "ends_with s x"
  then have "s = take (length s - length x) s @ x"
    by (metis append_take_drop_id ends_with_def)
  then show "\<exists>p. s = p @ x" by blast
next
  assume "\<exists>p. s = p @ x"
  then show "ends_with s x" by (auto simp add: ends_with_def)
qed

lemma endswith_any_iff: "endswith_any s xs \<longleftrightarrow> (\<exists>x \<in> set xs. ends_with s x)"
  by (induction xs) auto

lemma path_join_relative [py_simps]:
  "b \<noteq> [] \<Longrightarrow> hd b \<noteq> CHR ''/'' \<Longrightarrow> a \<noteq> [] \<Longrightarrow> last a \<noteq> CHR ''/'' \<Longrightarrow>
   path_join a b = a @ ''/'' @ b"
  by (simp add: path_join_def)

lemma is_space_not_digit: "is_space c \<Longrightarrow> \<not> is_digit c"
  by (auto simp add: is_space_def is_digit_def Let_def)

lemma py_strip_no_space_ends:
  "py_strip s \<noteq> [] \<Longrightarrow> \<not> is_space (hd (py_strip s)) \<and> \<not> is_space (last (py_strip s))"
proof -
  assume ne: "py_strip s \<noteq> []"
  define t where "t = dropWhile is_space s"
  have strip: "py_strip s = rev (dropWhile is_space (rev t))"
    by (simp add: py_strip_def t_def)
  have ne': "dropWhile is_space (rev t) \<noteq> []" using ne strip by simp
  then obtain y ys where ys: "dropWhile is_space (rev t) = y # ys"
    by (cases "dropWhile is_space (rev t)") auto
  have y: "\<not> is_space y" using hd_dropWhile[OF ne'] ys by simp
  have "rev t = takeWhile is_space (rev t) @ y # ys"
    using ys by (metis takeWhile_dropWhile_id)
  then have t: "t = (rev ys @ [y]) @ rev (takeWhile is_space (rev t))"
    by (metis append.assoc rev.simps(2) rev_append rev_rev_ident)
  have "t \<noteq> []" using ne' by auto
  then have "\<not> is_space (hd t)" using hd_dropWhile unfolding t_def by blast
  moreover have "hd t = hd (rev ys @ [y])"
    using t by (metis append_is_Nil_conv hd_append2 not_Cons_self2)
  ultimately show ?thesis using y ys strip by simp
qed

lemma dec_str_no_slash: "CHR ''/'' \<notin> set (dec_str n)"
proof (induction n rule: dec_str.induct)
  case (1 n)
  have ne: "\<And>k::nat. k < 10 \<Longrightarrow> char_of (48 + k) \<noteq> CHR ''/''"
  proof
    fix k :: nat assume "k < 10" "char_of (48 + k) = CHR ''/''"
    then have "of_char (char_of (48 + k)) = (47::nat)" by simp
    with \<open>k < 10\<close> show False by (simp add: of_char_of)
  qed
  have "n < 10 \<Longrightarrow> char_of (48 + n) \<noteq> CHR ''/''" and "char_of (48 + n mod 10) \<noteq> CHR ''/''"
    by (simp_all add: ne)
  then show ?case using 1 by (subst dec_str.simps) (auto simp del: dec_str.simps)
qed

lemma dec_str_nonempty: "dec_str n \<noteq> []"
  by (subst dec_str.simps) simp

lemma dec_str_eq_0: "dec_str k = dec_str 0 \<Longrightarrow> k = 0"
proof (cases "k < 10")
  case True
  assume eq: "dec_str k = dec_str 0"
  then have "char_of (48 + k) = (char_of (48::nat) :: char)" using True by simp
  then have "of_char (char_of (48 + k) :: char) = (of_char (char_of (48::nat) :: char) :: nat)" by simp
  then show ?thesis using True by (simp add: of_char_of)
next
  case False
  assume eq: "dec_str k = dec_str 0"
  have "length (dec_str k) = Suc (length (dec_str (k div 10)))" using False by simp
  moreover have "length (dec_str (k div 10)) \<noteq> 0" using dec_str_nonempty by simp
  ultimately show ?thesis using eq by simp
qed

lemma upper_char_slash: "CHR ''/'' \<in> set (upper_char c) \<Longrightarrow> c = CHR ''/''"
proof -
  assume a: "CHR ''/'' \<in> set (upper_char c)"
  show ?thesis
  proof (cases "is_lower_letter c")
    case True
    then have "char_of (of_char c - (32::nat)) = CHR ''/''" using a by (simp add: upper_char_def)
    then have "of_char (char_of (of_char c - (32::nat)) :: char) = (47::nat)" by simp
    then have "(of_char c - 32) mod 256 = (47::nat)" by (simp add: of_char_of)
    with True show ?thesis by (auto simp: is_lower_letter_def Let_def)
  next
    case False
    then show ?thesis using a by (auto simp: upper_char_def split: if_splits)
  qed
qed

lemma py_upper_no_slash: "CHR ''/'' \<notin> set s \<Longrightarrow> CHR ''/'' \<notin> set (py_upper s)"
  by (auto simp: py_upper_def dest: upper_char_slash)

lemma ends_with_append_left: "ends_with s x \<Longrightarrow> ends_with (p @ s) x"
  by (auto simp: ends_with_iff)

end
