(* ===== verification/Filename.thy ===== *)
theory Filename
  imports Prelude
begin

text \<open>
  The filename normaliser: the expression of \<open>process_invoices\<close> that builds
  \<open>new_filename\<close> from the two extracted fields, and the path of the processed
  copy (\<open>src/rename_invoices.py\<close> lines 139--142, \<open>src/label_invoices.py\<close>
  lines 85--88). The two scripts differ only in the company part: the newer one
  upper-cases it. The lemmas characterise the amount segment, locate the output
  path, and record where two invoices are given the same name.
\<close>

definition new_filename :: "string \<Rightarrow> string \<Rightarrow> string" where
  "new_filename company_name amount =
     company_name @ '' -- '' @ py_replace (py_replace amount '' '' '''') ''.'' ''_'' @ ''.pdf''"

text \<open>The company part in each script: \<open>.upper()\<close> in the newer, unchanged in the older.\<close>

definition company_part_rename :: "string \<Rightarrow> string" where
  "company_part_rename company_name = py_upper company_name"

definition company_part_label :: "string \<Rightarrow> string" where
  "company_part_label company_name = company_name"

definition new_file_path :: "path \<Rightarrow> string \<Rightarrow> string \<Rightarrow> path" where
  "new_file_path processed_folder company_name amount =
     path_join processed_folder (new_filename company_name amount)"

text \<open>The amount segment, character by character.\<close>

definition amount_char :: "char \<Rightarrow> string" where
  "amount_char c = (if c = CHR '' '' then [] else if c = CHR ''.'' then ''_'' else [c])"

definition amount_segment :: "string \<Rightarrow> string" where
  "amount_segment amount = concat (map amount_char amount)"

lemma amount_segment_eq:
  "py_replace (py_replace amount '' '' '''') ''.'' ''_'' = amount_segment amount"
  by (induction amount) (auto simp add: py_replace_single amount_segment_def amount_char_def)

lemma new_filename_segment:
  "new_filename company_name amount = company_name @ '' -- '' @ amount_segment amount @ ''.pdf''"
  by (simp add: new_filename_def amount_segment_eq)

lemma set_amount_segment:
  "set (amount_segment amount) =
     set amount - {CHR '' '', CHR ''.''} \<union> (if CHR ''.'' \<in> set amount then {CHR ''_''} else {})"
  by (induction amount) (auto simp add: amount_segment_def amount_char_def)

lemma amount_segment_append:
  "amount_segment (xs @ ys) = amount_segment xs @ amount_segment ys"
  by (simp add: amount_segment_def)

lemma amount_segment_no_sep:
  "CHR '' '' \<notin> set (amount_segment amount) \<and> CHR ''.'' \<notin> set (amount_segment amount)"
  by (simp add: set_amount_segment)

lemma amount_segment_slash:
  "CHR ''/'' \<in> set (amount_segment amount) \<longleftrightarrow> CHR ''/'' \<in> set amount"
  by (auto simp add: set_amount_segment)

lemma new_filename_not_absolute:
  "company_name \<noteq> [] \<Longrightarrow> hd company_name \<noteq> CHR ''/'' \<Longrightarrow>
   new_filename company_name amount \<noteq> [] \<and> hd (new_filename company_name amount) \<noteq> CHR ''/''"
  by (simp add: new_filename_segment)

lemma new_filename_empty_company:
  "new_filename [] amount = '' -- '' @ amount_segment amount @ ''.pdf''"
  by (simp add: new_filename_segment)

lemma new_filename_slash:
  "CHR ''/'' \<in> set (new_filename company_name amount) \<longleftrightarrow>
   CHR ''/'' \<in> set company_name \<or> CHR ''/'' \<in> set amount"
  by (auto simp add: new_filename_segment amount_segment_slash)

text \<open>
  The amount part written without the replace calls: spaces dropped, periods
  turned into underscores, every other character kept in order.
\<close>

abbreviation amount_normal :: "string \<Rightarrow> string" where
  "amount_normal amount \<equiv>
     map (\<lambda>c. if c = CHR ''.'' then CHR ''_'' else c) (filter (\<lambda>c. c \<noteq> CHR '' '') amount)"

lemma amount_segment_normal: "amount_segment amount = amount_normal amount"
  by (induction amount) (simp_all add: amount_segment_def amount_char_def)

lemma new_filename_normal:
  "new_filename company_name amount = company_name @ '' -- '' @ amount_normal amount @ ''.pdf''"
  by (simp add: new_filename_segment amount_segment_normal)

lemma py_upper_slash_first:
  "company_name \<noteq> [] \<Longrightarrow> hd company_name = CHR ''/'' \<Longrightarrow>
   py_upper company_name \<noteq> [] \<and> hd (py_upper company_name) = CHR ''/''"
  by (cases company_name) (simp_all add: py_upper_def upper_char_def is_lower_letter_def)

subsection \<open>Properties of the normaliser\<close>

text \<open>
  C7: For every company name and amount, the canonical filename is the company
  name, the separator \<open> -- \<close>, the amount with its spaces deleted and its
  periods replaced by underscores (every other character kept in order), and
  the extension \<open>.pdf\<close>.
\<close>

theorem filename_template:
  "new_filename company_name amount =
     company_name @ '' -- ''
       @ map (\<lambda>c. if c = CHR ''.'' then CHR ''_'' else c) (filter (\<lambda>c. c \<noteq> CHR '' '') amount)
       @ ''.pdf''"
  by (rule new_filename_normal)

text \<open>
  C24: Two amounts of the same company give the same filename exactly when they
  agree once spaces are deleted and periods turned into underscores: \<open>1.5\<close>
  and \<open>1_5\<close> collide, and so do \<open>1 5\<close> and \<open>15\<close>, and the second invoice
  is written over the first.
\<close>

theorem filename_collisions:
  "new_filename company_name a1 = new_filename company_name a2
   \<longleftrightarrow> amount_normal a1 = amount_normal a2"
  by (simp add: new_filename_normal)

theorem filename_collisions_witness:
  "new_filename ''ACME'' ''1.5'' = new_filename ''ACME'' ''1_5''
   \<and> new_filename ''ACME'' ''1 5'' = new_filename ''ACME'' ''15''
   \<and> new_filename ''ACME'' ''1.5'' \<noteq> new_filename ''ACME'' ''15''"
  using filename_collisions[of "''ACME''" "''1.5''" "''1_5''"] filename_collisions[of "''ACME''" "''1 5''" "''15''"]
    filename_collisions[of "''ACME''" "''1.5''" "''15''"]
  by simp

text \<open>
  C22: When the processed folder is a non-empty path without a trailing slash,
  and the company name is non-empty, does not start with a slash and neither
  field contains a slash, the output path is one entry directly inside the
  processed folder.
\<close>

theorem new_file_path_inside:
  assumes "processed_folder \<noteq> []" and "last processed_folder \<noteq> CHR ''/''"
    and "company_name \<noteq> []" and "CHR ''/'' \<notin> set company_name" and "CHR ''/'' \<notin> set amount"
  shows "new_file_path processed_folder company_name amount =
           processed_folder @ ''/'' @ new_filename company_name amount
         \<and> CHR ''/'' \<notin> set (new_filename company_name amount)"
proof -
  have "hd company_name \<noteq> CHR ''/''" using assms(3,4) by (cases company_name) auto
  then have "new_filename company_name amount \<noteq> []"
    and "hd (new_filename company_name amount) \<noteq> CHR ''/''"
    using assms(3) new_filename_not_absolute by blast+
  with assms show ?thesis by (simp add: new_file_path_def path_join_relative new_filename_slash)
qed

theorem new_file_path_inside_witness:
  "new_file_path ''/inv/processed'' ''ACME'' ''9.50'' = ''/inv/processed/ACME -- 9_50.pdf''"
proof -
  have "new_file_path ''/inv/processed'' ''ACME'' ''9.50'' =
          ''/inv/processed'' @ ''/'' @ new_filename ''ACME'' ''9.50''
        \<and> CHR ''/'' \<notin> set (new_filename ''ACME'' ''9.50'')"
    by (rule new_file_path_inside) simp_all
  then show ?thesis by (simp add: new_filename_segment amount_segment_def amount_char_def)
qed

text \<open>
  C23: A company name that starts with a slash makes \<open>os.path.join\<close> drop the
  processed folder, whatever it is: the newer script writes the copy at the
  absolute path spelt by the upper-cased company name, outside the folder.
\<close>

theorem new_file_path_escapes:
  assumes "company_name \<noteq> []" and "hd company_name = CHR ''/''"
  shows "new_file_path processed_folder (company_part_rename company_name) amount
           = new_filename (py_upper company_name) amount
         \<and> hd (new_file_path processed_folder (company_part_rename company_name) amount) = CHR ''/''"
  using py_upper_slash_first[OF assms]
  by (simp add: new_file_path_def path_join_def company_part_rename_def new_filename_segment)

theorem new_file_path_escapes_witness:
  "new_file_path ''/inv/processed'' (company_part_rename ''/tmp/x'') ''1'' = ''/TMP/X -- 1.pdf''"
proof -
  have "new_file_path ''/inv/processed'' (company_part_rename ''/tmp/x'') ''1''
          = new_filename (py_upper ''/tmp/x'') ''1''
        \<and> hd (new_file_path ''/inv/processed'' (company_part_rename ''/tmp/x'') ''1'') = CHR ''/''"
    by (rule new_file_path_escapes) simp_all
  then show ?thesis
    by (simp add: new_filename_segment amount_segment_def amount_char_def py_upper_def upper_char_def
        is_lower_letter_def char_of_def bit_simps)
qed

end
