(* ===== verification/Base64.thy ===== *)
theory Base64
  imports Prelude
begin

unbundle bit_operations_syntax

text \<open>
  The image encoder's encoding step, \<open>base64.b64encode(data).decode('utf-8')\<close>
  (\<open>encode_image\<close>, \<open>src/rename_invoices.py\<close> lines 25--27): the standard
  alphabet of RFC 4648 with \<open>=\<close> padding, on bytes as \<^typ>\<open>8 word\<close>. Each
  group of three bytes is cut into four six-bit values with shifts and masks.
  The decoder is the one the receiving service applies (RFC 4648, strict); the
  lemmas show that it inverts the encoder, and bound the length and the alphabet
  of the encoded text.
\<close>

definition b64_alphabet :: string where
  "b64_alphabet = ''ABCDEFGHIJKLMNOPQRSTUVWXYZabcdefghijklmnopqrstuvwxyz0123456789+/''"

definition enc6 :: "byte \<Rightarrow> char" where
  "enc6 x = b64_alphabet ! unat (x AND 63)"

fun b64encode :: "bytes \<Rightarrow> string" where
  "b64encode (a # b # c # rest) =
     [enc6 (drop_bit 2 a), enc6 (push_bit 4 (a AND 3) OR drop_bit 4 b),
      enc6 (push_bit 2 (b AND 15) OR drop_bit 6 c), enc6 (c AND 63)] @ b64encode rest"
| "b64encode [a, b] =
     [enc6 (drop_bit 2 a), enc6 (push_bit 4 (a AND 3) OR drop_bit 4 b), enc6 (push_bit 2 (b AND 15)),
      CHR ''='']"
| "b64encode [a] = [enc6 (drop_bit 2 a), enc6 (push_bit 4 (a AND 3)), CHR ''='', CHR ''='']"
| "b64encode [] = []"

fun index_of :: "char \<Rightarrow> string \<Rightarrow> nat option" where
  "index_of c [] = None"
| "index_of c (x # xs) = (if x = c then Some 0 else map_option Suc (index_of c xs))"

definition dec6 :: "char \<Rightarrow> byte option" where
  "dec6 c = map_option of_nat (index_of c b64_alphabet)"

fun b64decode :: "string \<Rightarrow> bytes option" where
  "b64decode [] = Some []"
| "b64decode (w # x # y # z # rest) =
     (case (dec6 w, dec6 x) of
        (Some s1, Some s2) \<Rightarrow>
          (let a = push_bit 2 s1 OR drop_bit 4 s2 in
           if y = CHR ''='' \<and> z = CHR ''='' \<and> rest = [] then Some [a]
           else (case dec6 y of
                   None \<Rightarrow> None
                 | Some s3 \<Rightarrow>
                     (let b = push_bit 4 s2 OR drop_bit 2 s3 in
                      if z = CHR ''='' \<and> rest = [] then Some [a, b]
                      else (case dec6 z of
                              None \<Rightarrow> None
                            | Some s4 \<Rightarrow>
                                map_option (\<lambda>r. a # b # (push_bit 6 s3 OR s4) # r) (b64decode rest)))))
      | _ \<Rightarrow> None)"
| "b64decode _ = None"

subsection \<open>Lemmas on the six-bit groups\<close>

text \<open>
  The decoder's shifts and masks put the six-bit groups of each byte back
  together; each identity is checked bit by bit.
\<close>

lemma less8_cases: "(n::nat) < 8 \<Longrightarrow> n = 0 \<or> n = 1 \<or> n = 2 \<or> n = 3 \<or> n = 4 \<or> n = 5 \<or> n = 6 \<or> n = 7"
  by auto

lemma rec_a: "push_bit 2 (drop_bit 2 a AND 63) OR drop_bit 4 ((push_bit 4 (a AND 3) OR drop_bit 4 (b::byte)) AND 63) = a"
  by (rule bit_word_eqI) (auto simp: bit_simps dest!: less8_cases; simp add: numeral_2_eq_2 numeral_3_eq_3)

lemma rec_b: "push_bit 4 ((push_bit 4 (a AND 3) OR drop_bit 4 b) AND 63) OR drop_bit 2 ((push_bit 2 (b AND 15) OR drop_bit 6 (c::byte)) AND 63) = b"
  by (rule bit_word_eqI) (auto simp: bit_simps dest!: less8_cases)

lemma rec_c: "push_bit 6 ((push_bit 2 (b AND 15) OR drop_bit 6 c) AND 63) OR (c AND 63) = (c::byte)"
  by (rule bit_word_eqI) (auto simp: bit_simps dest!: less8_cases)
lemma index_of_nth: "distinct xs \<Longrightarrow> k < length xs \<Longrightarrow> index_of (xs ! k) xs = Some k"
proof (induction xs arbitrary: k)
  case Nil
  then show ?case by simp
next
  case (Cons x xs)
  then show ?case by (cases k) (auto simp: nth_mem)
qed

lemma b64_alphabet_distinct: "distinct b64_alphabet"
  by code_simp

lemma b64_alphabet_length: "length b64_alphabet = 64"
  by (simp add: b64_alphabet_def)

lemma unat_and_63: "unat ((x::byte) AND 63) < 64"
proof -
  have "unat (x AND 63) \<le> unat (63::byte)"
    by (rule word_and_le1 [THEN word_le_nat_alt [THEN iffD1]])
  then show ?thesis by simp
qed

lemma dec6_enc6: "dec6 (enc6 x) = Some (x AND 63)"
  using index_of_nth[OF b64_alphabet_distinct, of "unat (x AND 63)"] unat_and_63[of x]
  by (simp add: dec6_def enc6_def b64_alphabet_length)

lemma enc6_not_pad: "enc6 x \<noteq> CHR ''=''"
proof -
  have "enc6 x \<in> set b64_alphabet"
    using unat_and_63[of x] by (simp add: enc6_def b64_alphabet_length)
  moreover have "CHR ''='' \<notin> set b64_alphabet" by (simp add: b64_alphabet_def)
  ultimately show ?thesis by metis
qed

lemma enc6_in_alphabet: "enc6 x \<in> set b64_alphabet"
  using unat_and_63[of x] by (simp add: enc6_def b64_alphabet_length)

lemma b64decode_b64encode: "b64decode (b64encode bs) = Some bs"
proof (induction bs rule: b64encode.induct)
  case (1 a b c rest)
  obtain A B C D where A: "A = drop_bit 2 a" and B: "B = push_bit 4 (a AND 3) OR drop_bit 4 b"
    and C: "C = push_bit 2 (b AND 15) OR drop_bit 6 c" and D: "D = c AND 63" by simp
  have enc: "b64encode (a # b # c # rest) = enc6 A # enc6 B # enc6 C # enc6 D # b64encode rest"
    by (simp add: A B C D)
  have ra: "push_bit 2 (A AND 63) OR drop_bit 4 (B AND 63) = a"
    unfolding A B by (rule rec_a)
  have rb: "push_bit 4 (B AND 63) OR drop_bit 2 (C AND 63) = b"
    unfolding B C by (rule rec_b)
  have rc: "push_bit 6 (C AND 63) OR (D AND 63) = c"
    unfolding C D by (metis rec_c and.idem word_bw_assocs(1))
  show ?case
    using ra rb rc by (simp only: enc) (simp add: dec6_enc6 enc6_not_pad Let_def "1")
next
  case (2 a b)
  obtain A B C where A: "A = drop_bit 2 a" and B: "B = push_bit 4 (a AND 3) OR drop_bit 4 b"
    and C: "C = push_bit 2 (b AND 15)" by simp
  have enc: "b64encode [a, b] = [enc6 A, enc6 B, enc6 C, CHR ''='']"
    by (simp add: A B C)
  have ra: "push_bit 2 (A AND 63) OR drop_bit 4 (B AND 63) = a"
    unfolding A B by (rule rec_a)
  have rb: "push_bit 4 (B AND 63) OR drop_bit 2 (C AND 63) = b"
    using rec_b[of a b 0] unfolding B C by simp
  show ?case
    using ra rb by (simp only: enc) (simp add: dec6_enc6 enc6_not_pad Let_def)
next
  case (3 a)
  obtain A B where A: "A = drop_bit 2 a" and B: "B = push_bit 4 (a AND 3)" by simp
  have enc: "b64encode [a] = [enc6 A, enc6 B, CHR ''='', CHR ''='']"
    by (simp add: A B)
  have ra: "push_bit 2 (A AND 63) OR drop_bit 4 (B AND 63) = a"
    using rec_a[of a 0] unfolding A B by simp
  show ?case
    using ra by (simp only: enc) (simp add: dec6_enc6 Let_def)
next
  case 4
  then show ?case by simp
qed

subsection \<open>Properties of the encoder\<close>

text \<open>
  Decoding the encoder's output gives the input bytes back, for every
  byte string: no information is lost when an image is sent as base64.
\<close>

lemma b64_roundtrip: "b64decode (b64encode bs) = Some bs"
  by (rule b64decode_b64encode)

text \<open>
  The encoded text has four characters for each started group of three
  bytes.
\<close>

lemma b64_length: "length (b64encode bs) = 4 * ((length bs + 2) div 3)"
proof (induction bs rule: b64encode.induct)
  case (1 a b c rest)
  have "(5 + length rest) div 3 = Suc ((length rest + 2) div 3)" by simp
  with 1 show ?case by simp
qed simp_all

text \<open>
  The encoded text uses only the 64 characters of the standard alphabet
  and the padding character.
\<close>

lemma b64_charset: "set (b64encode bs) \<subseteq> set b64_alphabet \<union> {CHR ''=''}"
  by (induction bs rule: b64encode.induct) (simp_all add: enc6_in_alphabet)

text \<open>The example of RFC 4648: the bytes of \<open>ManM\<close> encode as \<open>TWFuTQ==\<close>.\<close>

lemma b64_example: "b64encode [0x4D, 0x61, 0x6E, 0x4D] = ''TWFuTQ==''"
  by code_simp
end
