(* ===== verification/Regex.thy ===== *)
theory Regex
  imports Prelude "HOL-Library.Sublist"
begin

text \<open>
  The fragment of Python's \<open>re\<close> module that the OCR fallback uses:
  \<open>re.search(pattern, text).group(1)\<close> for patterns built from character
  classes, concatenation, alternation, greedy \<open>*\<close>, \<open>?\<close> and counted
  repetition (written out as nested \<open>?\<close>), and one capturing group. The matcher
  returns every way a pattern matches a prefix of the input, in the order in
  which the backtracking engine of \<open>sre\<close> tries them (left alternative first,
  greedy repetition longest first); \<open>re.search\<close> takes the first match at the
  leftmost starting position. A star stops iterating when an iteration consumes
  nothing; in the two patterns of the program every iterated part consumes at
  least one character.
\<close>

datatype cls =
    Lit char       \<comment> \<open>a literal character\<close>
  | LitCI char     \<comment> \<open>a literal under \<open>(?i)\<close>\<close>
  | Digit          \<comment> \<open>\<open>\d\<close>\<close>
  | Space          \<comment> \<open>\<open>\s\<close>\<close>
  | Dot            \<comment> \<open>\<open>.\<close>: anything but a newline\<close>

datatype rx =
    Eps
  | Cls cls
  | Seq rx rx
  | Alt rx rx
  | Star rx
  | Opt rx
  | Grp rx

fun cls_match :: "cls \<Rightarrow> char \<Rightarrow> bool" where
  "cls_match (Lit c) x = (x = c)"
| "cls_match (LitCI c) x = (lower_char x = lower_char c)"
| "cls_match Digit x = is_digit x"
| "cls_match Space x = is_space x"
| "cls_match Dot x = (\<not> is_newline x)"

type_synonym capture = "string option"

text \<open>The last value a group took wins, as in \<open>sre\<close>.\<close>

definition merge_cap :: "capture \<Rightarrow> capture \<Rightarrow> capture" where
  "merge_cap c1 c2 = (case c2 of Some x \<Rightarrow> Some x | None \<Rightarrow> c1)"

fun mt :: "rx \<Rightarrow> string \<Rightarrow> (capture \<times> string) list" where
  "mt Eps s = [(None, s)]"
| "mt (Cls c) s = (case s of x # xs \<Rightarrow> if cls_match c x then [(None, xs)] else [] | [] \<Rightarrow> [])"
| "mt (Seq r1 r2) s =
     concat (map (\<lambda>p. map (\<lambda>q. (merge_cap (fst p) (fst q), snd q)) (mt r2 (snd p))) (mt r1 s))"
| "mt (Alt r1 r2) s = mt r1 s @ mt r2 s"
| "mt (Star r) s =
     concat (map (\<lambda>p. if length (snd p) < length s
                      then map (\<lambda>q. (merge_cap (fst p) (fst q), snd q)) (mt (Star r) (snd p))
                      else []) (mt r s)) @ [(None, s)]"
| "mt (Opt r) s = mt r s @ [(None, s)]"
| "mt (Grp r) s = map (\<lambda>p. (Some (take (length s - length (snd p)) s), snd p)) (mt r s)"

text \<open>\<open>re.search\<close>: \<open>None\<close> when no position matches, else the group of the first match.\<close>

fun search :: "rx \<Rightarrow> string \<Rightarrow> capture option" where
  "search r s =
     (case mt r s of
        p # _ \<Rightarrow> Some (fst p)
      | [] \<Rightarrow> (case s of [] \<Rightarrow> None | _ # s' \<Rightarrow> search r s'))"

definition lit_word :: "(char \<Rightarrow> cls) \<Rightarrow> string \<Rightarrow> rx" where
  "lit_word k w = foldr (\<lambda>c r. Seq (Cls (k c)) r) w Eps"

text \<open>
  For the proofs: the character classes a pattern mentions, the bodies of its
  groups, and the characters some class of a pattern accepts.
\<close>

fun rx_cls :: "rx \<Rightarrow> cls list" where
  "rx_cls Eps = []"
| "rx_cls (Cls c) = [c]"
| "rx_cls (Seq r1 r2) = rx_cls r1 @ rx_cls r2"
| "rx_cls (Alt r1 r2) = rx_cls r1 @ rx_cls r2"
| "rx_cls (Star r) = rx_cls r"
| "rx_cls (Opt r) = rx_cls r"
| "rx_cls (Grp r) = rx_cls r"

fun rx_grps :: "rx \<Rightarrow> rx list" where
  "rx_grps Eps = []"
| "rx_grps (Cls c) = []"
| "rx_grps (Seq r1 r2) = rx_grps r1 @ rx_grps r2"
| "rx_grps (Alt r1 r2) = rx_grps r1 @ rx_grps r2"
| "rx_grps (Star r) = rx_grps r"
| "rx_grps (Opt r) = rx_grps r"
| "rx_grps (Grp r) = r # rx_grps r"

definition matched_by :: "rx \<Rightarrow> char \<Rightarrow> bool" where
  "matched_by r x \<longleftrightarrow> (\<exists>c \<in> set (rx_cls r). cls_match c x)"

subsection \<open>What a match consumes and captures\<close>

text \<open>
  Every match consumes a prefix of the input made of characters that some
  class of the pattern accepts; every captured group is a contiguous piece of
  the input made of characters that a class of that group accepts.
\<close>

lemma mt_consumes:
  "(cap, rest) \<in> set (mt r s) \<Longrightarrow> \<exists>p. s = p @ rest \<and> (\<forall>x \<in> set p. matched_by r x)"
proof (induction r s arbitrary: cap rest rule: mt.induct)
  case (1 s)
  then show ?case by simp
next
  case (2 c s)
  then show ?case by (auto simp: matched_by_def split: list.splits if_splits)
next
  case (3 r1 r2 s)
  then obtain c1 m c2 where m1: "(c1, m) \<in> set (mt r1 s)" and m2: "(c2, rest) \<in> set (mt r2 m)"
    by auto
  obtain p1 where "s = p1 @ m" "\<forall>x\<in>set p1. matched_by r1 x" using "3.IH"(1)[OF m1] by blast
  moreover obtain p2 where "m = p2 @ rest" "\<forall>x\<in>set p2. matched_by r2 x" using "3.IH"(2)[of "(c1, m)" c2 rest] m1 m2 by auto
  ultimately show ?case unfolding matched_by_def by (metis Un_iff append.assoc rx_cls.simps(3) set_append)
next
  case (4 r1 r2 s)
  then consider "(cap, rest) \<in> set (mt r1 s)" | "(cap, rest) \<in> set (mt r2 s)" by auto
  then show ?case
  proof cases
    case 1
    then show ?thesis using "4.IH"(1)[OF 1] unfolding matched_by_def by force
  next
    case 2
    then show ?thesis using "4.IH"(2)[OF 2] unfolding matched_by_def by force
  qed
next
  case (5 r s)
  show ?case
  proof (cases "(cap, rest) = (None, s)")
    case True
    then show ?thesis by (simp del: mt.simps)
  next
    case False
    then obtain c1 m c2 where m1: "(c1, m) \<in> set (mt r s)" and lt: "length m < length s"
      and m2: "(c2, rest) \<in> set (mt (Star r) m)"
      using "5.prems"[unfolded mt.simps(5)[of r s]] by (auto simp del: mt.simps split: if_splits)
    obtain p1 where "s = p1 @ m" "\<forall>x\<in>set p1. matched_by r x" using "5.IH"(1)[OF m1] by blast
    moreover obtain p2 where "m = p2 @ rest" "\<forall>x\<in>set p2. matched_by (Star r) x"
      using "5.IH"(2)[of "(c1, m)" c2 rest] m1 lt m2 by (auto simp del: mt.simps)
    ultimately show ?thesis by (auto simp: matched_by_def simp del: mt.simps)
  qed
next
  case (6 r s)
  then show ?case using "6.IH" by (auto simp: matched_by_def)
next
  case (7 r s)
  then show ?case using "7.IH" by (auto simp: matched_by_def)
qed

lemma sublist_suffix_mono: "sublist g m \<Longrightarrow> s = p @ m \<Longrightarrow> sublist g s"
  by (metis sublist_append_leftI sublist_order.order_trans)

lemma merge_cap_Some: "merge_cap c1 c2 = Some g \<Longrightarrow> c2 = Some g \<or> (c2 = None \<and> c1 = Some g)"
  by (cases c2) (auto simp: merge_cap_def)

lemma mt_capture:
  "(Some g, rest) \<in> set (mt r s) \<Longrightarrow> \<exists>r' \<in> set (rx_grps r). sublist g s \<and> (\<forall>x \<in> set g. matched_by r' x)"
proof (induction r s arbitrary: g rest rule: mt.induct)
  case (1 s)
  then show ?case by simp
next
  case (2 c s)
  then show ?case by (auto split: list.splits if_splits)
next
  case (3 r1 r2 s)
  then obtain c1 m c2 where m1: "(c1, m) \<in> set (mt r1 s)" and m2: "(c2, rest) \<in> set (mt r2 m)"
    and g: "merge_cap c1 c2 = Some g" by auto
  obtain p1 where s: "s = p1 @ m" using mt_consumes[OF m1] by blast
  from merge_cap_Some[OF g] show ?case
  proof
    assume "c2 = Some g"
    then obtain r' where "r' \<in> set (rx_grps r2)" "sublist g m" "\<forall>x\<in>set g. matched_by r' x"
      using "3.IH"(2)[of "(c1, m)" g rest] m1 m2 by auto
    then show ?thesis using s sublist_suffix_mono[of g m s p1] by auto
  next
    assume "c2 = None \<and> c1 = Some g"
    then show ?thesis using "3.IH"(1)[of g m] m1 by auto
  qed
next
  case (4 r1 r2 s)
  then consider "(Some g, rest) \<in> set (mt r1 s)" | "(Some g, rest) \<in> set (mt r2 s)" by auto
  then show ?case
  proof cases
    case 1
    then show ?thesis using "4.IH"(1)[OF 1] by force
  next
    case 2
    then show ?thesis using "4.IH"(2)[OF 2] by force
  qed
next
  case (5 r s)
  obtain c1 m c2 where m1: "(c1, m) \<in> set (mt r s)" and lt: "length m < length s"
    and m2: "(c2, rest) \<in> set (mt (Star r) m)" and g: "merge_cap c1 c2 = Some g"
    using "5.prems"[unfolded mt.simps(5)[of r s]] by (auto simp del: mt.simps split: if_splits)
  obtain p1 where s: "s = p1 @ m" using mt_consumes[OF m1] by blast
  from merge_cap_Some[OF g] show ?case
  proof
    assume "c2 = Some g"
    then obtain r' where "r' \<in> set (rx_grps r)" "sublist g m" "\<forall>x\<in>set g. matched_by r' x"
      using "5.IH"(2)[of "(c1, m)" g rest] m1 m2 lt by (auto simp del: mt.simps)
    then show ?thesis using s sublist_suffix_mono[of g m s p1] by (auto simp del: mt.simps)
  next
    assume "c2 = None \<and> c1 = Some g"
    then show ?thesis using "5.IH"(1)[of g m] m1 by (auto simp del: mt.simps)
  qed
next
  case (6 r s)
  then show ?case using "6.IH" by auto
next
  case (7 r s)
  then obtain c rest' where m: "(c, rest') \<in> set (mt r s)" and g: "g = take (length s - length rest') s"
    by auto
  obtain p where "s = p @ rest'" "\<forall>x\<in>set p. matched_by r x" using mt_consumes[OF m] by blast
  then show ?case using g by auto
qed

lemma search_capture:
  "search r s = Some (Some g) \<Longrightarrow> \<exists>r' \<in> set (rx_grps r). sublist g s \<and> (\<forall>x \<in> set g. matched_by r' x)"
proof (induction s)
  case Nil
  then obtain p ps where "mt r [] = p # ps" and "fst p = Some g"
    by (auto simp: search.simps[of r "[]"] split: list.splits)
  then have "(Some g, snd p) \<in> set (mt r [])" by (metis list.set_intros(1) prod.collapse)
  then show ?case using mt_capture by blast
next
  case (Cons c cs)
  show ?case
  proof (cases "mt r (c # cs)")
    case Nil
    then have "search r cs = Some (Some g)" using Cons.prems by (simp add: search.simps[of r "c # cs"])
    then obtain r' where "r' \<in> set (rx_grps r)" "sublist g cs" "\<forall>x\<in>set g. matched_by r' x"
      using Cons.IH by blast
    then show ?thesis using sublist_suffix_mono[of g cs "c # cs" "[c]"] by auto
  next
    case (Cons p ps)
    then have "p \<in> set (mt r (c # cs))" and "fst p = Some g"
      using Cons.prems by (simp_all add: search.simps[of r "c # cs"])
    then show ?thesis using mt_capture[of g "snd p" r "c # cs"] by (metis prod.collapse)
  qed
qed

lemma sublist_py_strip: "sublist (py_strip s) s"
  by (metis py_strip_def sublist_dropWhile sublist_order.order_trans sublist_rev rev_rev_ident)

end
