(* ===== verification/Json.thy ===== *)
theory Json
  imports Prelude
begin

text \<open>
  The JSON layer the scripts rely on: Python's \<open>json.dumps\<close> (default options:
  \<open>ensure_ascii\<close>, separators \<open>', '\<close> and \<open>': '\<close>, keys in insertion order),
  \<open>json.loads\<close> (the default decoder in strict mode), subscripting a decoded
  value with a key (\<open>info["company_name"]\<close>, \<open>KeyError\<close> or \<open>TypeError\<close>) and
  Python truthiness. Numbers are kept as their literal text: the scripts never
  compute with them, they only fail on them (\<open>.upper()\<close>, \<open>.replace()\<close>) or
  test them for truth. An object keeps its members in source order, duplicates
  included; a lookup returns the last binding, as a Python \<open>dict\<close> built from
  the pairs does. The parser recurses with fuel; \<open>loads\<close> gives it one unit per
  input character plus one, and \<open>parse_value_enough_fuel\<close> shows that this is
  never exhausted.
\<close>

datatype json =
    JNull
  | JBool bool
  | JNum string
  | JStr string
  | JArr "json list"
  | JObj "(string \<times> json) list"

abbreviation dq :: char where "dq \<equiv> CHR 0x22"
abbreviation bslash :: char where "bslash \<equiv> CHR 0x5C"

subsection \<open>Encoding: \<open>json.dumps\<close>\<close>

definition hex_char :: "nat \<Rightarrow> char" where
  "hex_char n = (if n < 10 then char_of (48 + n) else char_of (87 + n))"

text \<open>\<open>py_encode_basestring_ascii\<close>: everything outside \<open>' '..'~'\<close> is escaped.\<close>

definition escape_char :: "char \<Rightarrow> string" where
  "escape_char c =
     (let n = of_char c :: nat in
      if c = dq then [bslash, dq]
      else if c = bslash then [bslash, bslash]
      else if n = 10 then [bslash, CHR ''n'']
      else if n = 13 then [bslash, CHR ''r'']
      else if n = 9 then [bslash, CHR ''t'']
      else if n = 8 then [bslash, CHR ''b'']
      else if n = 12 then [bslash, CHR ''f'']
      else if 32 \<le> n \<and> n \<le> 126 then [c]
      else [bslash, CHR ''u'', CHR ''0'', CHR ''0'', hex_char (n div 16), hex_char (n mod 16)])"

definition dump_str :: "string \<Rightarrow> string" where
  "dump_str s = dq # concat (map escape_char s) @ [dq]"

fun join :: "string \<Rightarrow> string list \<Rightarrow> string" where
  "join sep [] = []"
| "join sep [x] = x"
| "join sep (x # xs) = x @ sep @ join sep xs"

fun dumps :: "json \<Rightarrow> string" where
  "dumps JNull = ''null''"
| "dumps (JBool b) = (if b then ''true'' else ''false'')"
| "dumps (JNum l) = l"
| "dumps (JStr s) = dump_str s"
| "dumps (JArr vs) = ''['' @ join '', '' (map dumps vs) @ '']''"
| "dumps (JObj kvs) = ''{'' @ join '', '' (map (\<lambda>(k, v). dump_str k @ '': '' @ dumps v) kvs) @ ''}''"

subsection \<open>Decoding: \<open>json.loads\<close>\<close>

definition is_json_ws :: "char \<Rightarrow> bool" where
  "is_json_ws c \<longleftrightarrow> c = CHR '' '' \<or> c = CHR 0x09 \<or> c = CHR 0x0A \<or> c = CHR 0x0D"

definition skip_ws :: "string \<Rightarrow> string" where
  "skip_ws s = dropWhile is_json_ws s"

definition hex_val :: "char \<Rightarrow> nat option" where
  "hex_val c =
     (let n = of_char c :: nat in
      if 48 \<le> n \<and> n \<le> 57 then Some (n - 48)
      else if 97 \<le> n \<and> n \<le> 102 then Some (n - 87)
      else if 65 \<le> n \<and> n \<le> 70 then Some (n - 55)
      else None)"

fun hex4 :: "string \<Rightarrow> nat option" where
  "hex4 [a, b, c, d] =
     (case (hex_val a, hex_val b, hex_val c, hex_val d) of
        (Some w, Some x, Some y, Some z) \<Rightarrow> Some (((w * 16 + x) * 16 + y) * 16 + z)
      | _ \<Rightarrow> None)"
| "hex4 _ = None"

text \<open>The one-character escapes of \<open>BACKSLASH\<close> in \<open>json.decoder\<close>.\<close>

definition simple_escape :: "char \<Rightarrow> char option" where
  "simple_escape e =
     (if e = dq then Some dq else if e = bslash then Some bslash
      else if e = CHR ''/'' then Some (CHR ''/'')
      else if e = CHR ''b'' then Some (CHR 0x08) else if e = CHR ''f'' then Some (CHR 0x0C)
      else if e = CHR ''n'' then Some (CHR 0x0A) else if e = CHR ''r'' then Some (CHR 0x0D)
      else if e = CHR ''t'' then Some (CHR 0x09) else None)"

definition prepend :: "char \<Rightarrow> string \<times> string \<Rightarrow> string \<times> string" where
  "prepend c p = (c # fst p, snd p)"

text \<open>
  \<open>scanstring\<close> after the opening quote: the decoded text and the input after
  the closing quote. A raw control character is an error (strict mode). A
  \<open>\u\<close> escape whose code point lies outside the modelled Latin-1 alphabet is
  refused (see the header).
\<close>

function scan_string :: "string \<Rightarrow> (string \<times> string) option" where
  "scan_string s =
     (case s of
        [] \<Rightarrow> None
      | c # cs \<Rightarrow>
          if c = dq then Some ([], cs)
          else if c = bslash then
            (case cs of
               [] \<Rightarrow> None
             | e # r \<Rightarrow>
                 if e = CHR ''u'' then
                   (case hex4 (take 4 r) of
                      None \<Rightarrow> None
                    | Some n \<Rightarrow> if n < 256 then map_option (prepend (char_of n)) (scan_string (drop 4 r))
                                else None)
                 else
                   (case simple_escape e of
                      None \<Rightarrow> None
                    | Some d \<Rightarrow> map_option (prepend d) (scan_string r)))
          else if (of_char c :: nat) < 32 then None
          else map_option (prepend c) (scan_string cs))"
  by pat_completeness auto
termination
  by (relation "measure length") auto

declare scan_string.simps [simp del]

definition is_ascii_digit :: "char \<Rightarrow> bool" where
  "is_ascii_digit c \<longleftrightarrow> (let n = of_char c :: nat in 48 \<le> n \<and> n \<le> 57)"

text \<open>\<open>NUMBER_RE\<close>: \<open>(-?(?:0|[1-9][0-9]*))(\.[0-9]+)?([eE][-+]?[0-9]+)?\<close>.\<close>

definition int_part :: "string \<Rightarrow> (string \<times> string) option" where
  "int_part s =
     (let (sg, r) = (case s of c # cs \<Rightarrow> if c = CHR ''-'' then ([c], cs) else ([], s) | [] \<Rightarrow> ([], s))
      in case r of
           [] \<Rightarrow> None
         | d # ds \<Rightarrow>
             if d = CHR ''0'' then Some (sg @ [d], ds)
             else if is_ascii_digit d then Some (sg @ d # takeWhile is_ascii_digit ds, dropWhile is_ascii_digit ds)
             else None)"

definition frac_part :: "string \<Rightarrow> string \<times> string" where
  "frac_part s =
     (case s of
        c # d # r \<Rightarrow>
          if c = CHR ''.'' \<and> is_ascii_digit d
          then (c # d # takeWhile is_ascii_digit r, dropWhile is_ascii_digit r) else ([], s)
      | _ \<Rightarrow> ([], s))"

definition exp_part :: "string \<Rightarrow> string \<times> string" where
  "exp_part s =
     (case s of
        c # r \<Rightarrow>
          if c = CHR ''e'' \<or> c = CHR ''E'' then
            (let (sg, r') = (case r of x # xs \<Rightarrow> if x = CHR ''+'' \<or> x = CHR ''-'' then ([x], xs) else ([], r)
                                      | [] \<Rightarrow> ([], r))
             in case r' of
                  d # ds \<Rightarrow> if is_ascii_digit d
                             then (c # sg @ d # takeWhile is_ascii_digit ds, dropWhile is_ascii_digit ds)
                             else ([], s)
                | [] \<Rightarrow> ([], s))
          else ([], s)
      | [] \<Rightarrow> ([], s))"

definition scan_number :: "string \<Rightarrow> (string \<times> string) option" where
  "scan_number s =
     (case int_part s of
        None \<Rightarrow> None
      | Some (a, r1) \<Rightarrow> (let (b, r2) = frac_part r1; (c, r3) = exp_part r2 in Some (a @ b @ c, r3)))"

datatype 'a pres = POk 'a | PErr | PFuel

text \<open>
  \<open>scan_once\<close>, \<open>JSONArray\<close> and \<open>JSONObject\<close>. A nested value and every
  further element or member spends one unit of fuel; \<open>parse_array\<close> and
  \<open>parse_object\<close> start where an element or a member is expected and accumulate
  in reverse.
\<close>

fun parse_value :: "nat \<Rightarrow> string \<Rightarrow> (json \<times> string) pres"
and parse_array :: "nat \<Rightarrow> json list \<Rightarrow> string \<Rightarrow> (json \<times> string) pres"
and parse_object :: "nat \<Rightarrow> (string \<times> json) list \<Rightarrow> string \<Rightarrow> (json \<times> string) pres" where
  "parse_value 0 s = PFuel"
| "parse_value (Suc n) s =
     (case s of
        [] \<Rightarrow> PErr
      | c # cs \<Rightarrow>
          if c = dq then (case scan_string cs of None \<Rightarrow> PErr | Some (t, r) \<Rightarrow> POk (JStr t, r))
          else if c = CHR ''{'' then
            (case skip_ws cs of
               d # r \<Rightarrow> if d = CHR ''}'' then POk (JObj [], r) else parse_object n [] (d # r)
             | [] \<Rightarrow> PErr)
          else if c = CHR ''['' then
            (case skip_ws cs of
               d # r \<Rightarrow> if d = CHR '']'' then POk (JArr [], r) else parse_array n [] (d # r)
             | [] \<Rightarrow> PErr)
          else if take 4 s = ''null'' then POk (JNull, drop 4 s)
          else if take 4 s = ''true'' then POk (JBool True, drop 4 s)
          else if take 5 s = ''false'' then POk (JBool False, drop 5 s)
          else (case scan_number s of
                  Some (l, r) \<Rightarrow> POk (JNum l, r)
                | None \<Rightarrow>
                    if take 3 s = ''NaN'' then POk (JNum ''NaN'', drop 3 s)
                    else if take 8 s = ''Infinity'' then POk (JNum ''Infinity'', drop 8 s)
                    else if take 9 s = ''-Infinity'' then POk (JNum ''-Infinity'', drop 9 s)
                    else PErr))"
| "parse_array n acc s =
     (case parse_value n s of
        POk (v, r) \<Rightarrow>
          (case skip_ws r of
             d # r' \<Rightarrow>
               if d = CHR '']'' then POk (JArr (rev (v # acc)), r')
               else if d = CHR '','' then
                 (case n of 0 \<Rightarrow> PFuel | Suc m \<Rightarrow> parse_array m (v # acc) (skip_ws r'))
               else PErr
           | [] \<Rightarrow> PErr)
      | PErr \<Rightarrow> PErr
      | PFuel \<Rightarrow> PFuel)"
| "parse_object n acc s =
     (case s of
        c # cs \<Rightarrow>
          if c = dq then
            (case scan_string cs of
               None \<Rightarrow> PErr
             | Some (k, r) \<Rightarrow>
                 (case skip_ws r of
                    e # r' \<Rightarrow>
                      if e = CHR '':'' then
                        (case parse_value n (skip_ws r') of
                           POk (v, r2) \<Rightarrow>
                             (case skip_ws r2 of
                                d # r3 \<Rightarrow>
                                  if d = CHR ''}'' then POk (JObj (rev ((k, v) # acc)), r3)
                                  else if d = CHR '','' then
                                    (case n of 0 \<Rightarrow> PFuel | Suc m \<Rightarrow> parse_object m ((k, v) # acc) (skip_ws r3))
                                  else PErr
                              | [] \<Rightarrow> PErr)
                         | PErr \<Rightarrow> PErr
                         | PFuel \<Rightarrow> PFuel)
                      else PErr
                  | [] \<Rightarrow> PErr))
          else PErr
      | [] \<Rightarrow> PErr)"

declare parse_array.simps [simp del] parse_object.simps [simp del]

text \<open>\<open>json.loads\<close>: leading and trailing whitespace, then nothing else (\<open>Extra data\<close>).\<close>

definition loads :: "string \<Rightarrow> json result" where
  "loads s =
     (case parse_value (Suc (length s)) (skip_ws s) of
        POk (v, r) \<Rightarrow> if skip_ws r = [] then Inr v else Inl JSONDecodeError
      | _ \<Rightarrow> Inl JSONDecodeError)"

text \<open>\<open>json.loads(x)\<close> on a Python value: only a \<open>str\<close> is accepted.\<close>

definition loads_value :: "json \<Rightarrow> json result" where
  "loads_value x = (case x of JStr s \<Rightarrow> loads s | _ \<Rightarrow> Inl TypeError)"

subsection \<open>Subscripts, truth and string methods on decoded values\<close>

fun lookup_last :: "(string \<times> json) list \<Rightarrow> string \<Rightarrow> json option" where
  "lookup_last [] k = None"
| "lookup_last ((k', v) # kvs) k =
     (case lookup_last kvs k of Some w \<Rightarrow> Some w | None \<Rightarrow> if k' = k then Some v else None)"

text \<open>\<open>x[key]\<close> with a \<open>str\<close> key.\<close>

definition getitem :: "json \<Rightarrow> string \<Rightarrow> json result" where
  "getitem x key =
     (case x of
        JObj kvs \<Rightarrow> (case lookup_last kvs key of Some v \<Rightarrow> Inr v | None \<Rightarrow> Inl (KeyError key))
      | _ \<Rightarrow> Inl TypeError)"

text \<open>\<open>x[0]\<close>: a list's first element, a string's first character.\<close>

definition getitem_0 :: "json \<Rightarrow> json result" where
  "getitem_0 x =
     (case x of
        JArr vs \<Rightarrow> (case vs of v # _ \<Rightarrow> Inr v | [] \<Rightarrow> Inl IndexError)
      | JStr s \<Rightarrow> (case s of c # _ \<Rightarrow> Inr (JStr [c]) | [] \<Rightarrow> Inl IndexError)
      | JObj kvs \<Rightarrow> Inl (KeyError ''0'')
      | _ \<Rightarrow> Inl TypeError)"

text \<open>A numeral is false when every digit of its mantissa is zero.\<close>

definition num_is_zero :: "string \<Rightarrow> bool" where
  "num_is_zero l \<longleftrightarrow>
     l \<noteq> ''NaN'' \<and> l \<noteq> ''Infinity'' \<and> l \<noteq> ''-Infinity'' \<and>
     list_all (\<lambda>c. if is_ascii_digit c then c = CHR ''0'' else True)
       (takeWhile (\<lambda>c. c \<noteq> CHR ''e'' \<and> c \<noteq> CHR ''E'') l)"

fun truthy :: "json \<Rightarrow> bool" where
  "truthy JNull = False"
| "truthy (JBool b) = b"
| "truthy (JNum l) = (\<not> num_is_zero l)"
| "truthy (JStr s) = (s \<noteq> [])"
| "truthy (JArr vs) = (vs \<noteq> [])"
| "truthy (JObj kvs) = (kvs \<noteq> [])"

text \<open>\<open>x.upper()\<close> and \<open>x.replace(a, b)\<close>: only a \<open>str\<close> has these methods.\<close>

definition str_of :: "json \<Rightarrow> string result" where
  "str_of x = (case x of JStr s \<Rightarrow> Inr s | _ \<Rightarrow> Inl AttributeError)"

text \<open>
  Helpers of the round-trip proof: values without numerals (their text is
  self-delimiting), the first character of an encoded value, one encoded
  object member.
\<close>

fun num_free :: "json \<Rightarrow> bool" where
  "num_free (JNum l) = False"
| "num_free (JArr vs) = list_all num_free vs"
| "num_free (JObj kvs) = list_all (\<lambda>(k, v). num_free v) kvs"
| "num_free _ = True"

definition first_char_ok :: "string \<Rightarrow> bool" where
  "first_char_ok s \<longleftrightarrow> (\<exists>c t. s = c # t \<and> \<not> is_json_ws c \<and> c \<noteq> CHR '']'' \<and> c \<noteq> CHR ''}'')"

definition member_str :: "string \<times> json \<Rightarrow> string" where
  "member_str kv = dump_str (fst kv) @ '': '' @ dumps (snd kv)"

subsection \<open>Decoder lemmas: consumption, fuel, monotonicity\<close>

lemma map_prepend_Some:
  "map_option (prepend c) x = Some (t, r) \<Longrightarrow> \<exists>t'. x = Some (t', r) \<and> t = c # t'"
  by (cases x) (auto simp: prepend_def)

lemma scan_string_shorter: "scan_string s = Some (t, r) \<Longrightarrow> length r < length s"
proof (induction s arbitrary: t rule: scan_string.induct)
  case (1 s)
  show ?case
  proof (cases s)
    case Nil
    with "1.prems" show ?thesis by (simp add: scan_string.simps)
  next
    case (Cons c cs)
    note eq = "1.prems"[unfolded Cons, unfolded scan_string.simps[of "c # cs"] list.case]
    show ?thesis
    proof (cases "c = dq")
      case True
      with eq Cons show ?thesis by simp
    next
      case ndq: False
      show ?thesis
      proof (cases "c = bslash")
        case bs: True
        then obtain e r0 where cs: "cs = e # r0" using eq ndq by (cases cs) auto
        show ?thesis
        proof (cases "e = CHR ''u''")
          case u: True
          with eq ndq bs cs obtain n t' where h: "hex4 (take 4 r0) = Some n" "n < 256"
            and rec: "scan_string (drop 4 r0) = Some (t', r)"
            by (auto simp: prepend_def split: option.splits if_splits)
          have "length r < length (drop 4 r0)" using "1.IH"(1)[OF Cons ndq bs cs u h rec] .
          then show ?thesis using Cons cs by simp
        next
          case nu: False
          with eq ndq bs cs obtain d t' where h: "simple_escape e = Some d"
            and rec: "scan_string r0 = Some (t', r)"
            by (auto simp: prepend_def split: option.splits if_splits)
          have "length r < length r0" using "1.IH"(2)[OF Cons ndq bs cs nu h rec] .
          then show ?thesis using Cons cs by simp
        qed
      next
        case nbs: False
        with eq ndq obtain t' where rec: "scan_string cs = Some (t', r)"
          by (auto simp: prepend_def split: if_splits option.splits)
        have "length r < length cs" using "1.IH"(3)[OF Cons ndq nbs _ rec] eq ndq nbs
          by (auto split: if_splits)
        then show ?thesis using Cons by simp
      qed
    qed
  qed
qed
lemma skip_ws_length [simp]: "length (skip_ws s) \<le> length s"
  by (simp add: skip_ws_def length_dropWhile_le)

lemma int_part_shorter: "int_part s = Some (a, r) \<Longrightarrow> length r < length s"
  by (auto simp: int_part_def less_Suc_eq_le length_dropWhile_le le_SucI[OF length_dropWhile_le]
      split: list.splits if_splits)

lemma frac_part_shorter: "frac_part s = (b, r) \<Longrightarrow> length r \<le> length s"
  by (auto simp: frac_part_def length_dropWhile_le le_Suc_eq split: list.splits if_splits)

lemma dropWhile_length_bound: "length xs \<le> n \<Longrightarrow> length (dropWhile P xs) \<le> n"
  using length_dropWhile_le order_trans by blast

lemma exp_part_shorter: "exp_part s = (c, r) \<Longrightarrow> length r \<le> length s"
  by (auto simp: exp_part_def dropWhile_length_bound split: list.splits if_splits prod.splits)

lemma scan_number_shorter: "scan_number s = Some (l, r) \<Longrightarrow> length r < length s"
proof -
  assume h: "scan_number s = Some (l, r)"
  then obtain a r1 b r2 c where ip: "int_part s = Some (a, r1)" and fp: "frac_part r1 = (b, r2)"
    and ep: "exp_part r2 = (c, r)"
    by (auto simp: scan_number_def split: option.splits prod.splits)
  from int_part_shorter[OF ip] frac_part_shorter[OF fp] exp_part_shorter[OF ep] show ?thesis
    by simp
qed

lemma take_drop_shorter:
  "take k xs = w \<Longrightarrow> length w = k \<Longrightarrow> 0 < k \<Longrightarrow> length (drop k xs) < length xs"
proof -
  assume "take k xs = w" "length w = k" "0 < k"
  then have "k \<le> length xs" by (metis length_take min.absorb_iff2 min.commute)
  with \<open>0 < k\<close> show ?thesis by simp
qed

lemma skip_ws_Cons_shorter: "skip_ws r = d # r' \<Longrightarrow> length r' < length r"
  using skip_ws_length[of r] by simp

lemma parse_consumes:
  "parse_value n s = POk (v, r) \<Longrightarrow> length r < length s"
  "parse_array n acc s = POk (v, r) \<Longrightarrow> length r < length s"
  "parse_object n accp s = POk (v, r) \<Longrightarrow> length r < length s"
proof (induction n s and n acc s and n accp s arbitrary: v r and v r and v r
       rule: parse_value_parse_array_parse_object.induct)
  case (1 s)
  then show ?case by simp
next
  case (2 n s)
  show ?case
  proof (cases s)
    case Nil
    with "2.prems" show ?thesis by simp
  next
    case (Cons c cs)
    note eq = "2.prems"[unfolded Cons parse_value.simps(2) list.case]
    show ?thesis
    proof (cases "c = dq")
      case True
      with eq Cons show ?thesis
        by (auto split: option.splits dest: scan_string_shorter)
    next
      case c: False
      show ?thesis
      proof (cases "c = CHR ''{''")
        case b: True
        with eq c obtain d r0 where sk: "skip_ws cs = d # r0"
          by (auto split: list.splits)
        have "length (d # r0) \<le> length cs" using sk skip_ws_length by metis
        with eq "2.IH"(1)[OF Cons c b sk] Cons c b sk show ?thesis
          by (auto split: if_splits)
      next
        case nb: False
        show ?thesis
        proof (cases "c = CHR ''[''")
          case b: True
          with eq c nb obtain d r0 where sk: "skip_ws cs = d # r0"
            by (auto split: list.splits)
          have "length (d # r0) \<le> length cs" using sk skip_ws_length by metis
          with eq "2.IH"(2)[OF Cons c nb b sk] Cons c nb b sk show ?thesis
            by (auto split: if_splits)
        next
          case False
          with eq c nb have
            "(if take 4 (c # cs) = ''null'' then POk (JNull, drop 4 (c # cs))
              else if take 4 (c # cs) = ''true'' then POk (JBool True, drop 4 (c # cs))
              else if take 5 (c # cs) = ''false'' then POk (JBool False, drop 5 (c # cs))
              else (case scan_number (c # cs) of
                      Some (l, r) \<Rightarrow> POk (JNum l, r)
                    | None \<Rightarrow>
                        if take 3 (c # cs) = ''NaN'' then POk (JNum ''NaN'', drop 3 (c # cs))
                        else if take 8 (c # cs) = ''Infinity'' then POk (JNum ''Infinity'', drop 8 (c # cs))
                        else if take 9 (c # cs) = ''-Infinity'' then POk (JNum ''-Infinity'', drop 9 (c # cs))
                        else PErr)) = POk (v, r)"
            by (simp only: if_False)
          then show ?thesis using Cons
            by (auto simp del: take_Suc_Cons drop_Suc_Cons split: if_splits option.splits
                dest: scan_number_shorter take_drop_shorter)
        qed
      qed
    qed
  qed
next
  case (3 n acc s)
  from "3.prems" obtain v0 r0 where pv: "parse_value n s = POk (v0, r0)"
    by (auto simp: parse_array.simps[of n acc s] split: pres.splits)
  have l0: "length r0 < length s" by (rule "3.IH"(1)[OF pv])
  from "3.prems" pv obtain d r' where sk: "skip_ws r0 = d # r'"
    by (auto simp: parse_array.simps[of n acc s] split: list.splits)
  have l1: "length r' < length r0" by (rule skip_ws_Cons_shorter[OF sk])
  show ?case
  proof (cases "d = CHR '']''")
    case True
    with "3.prems" pv sk l0 l1 show ?thesis by (simp add: parse_array.simps[of n acc s])
  next
    case nd: False
    with "3.prems" pv sk obtain m where m: "n = Suc m" and d: "d = CHR '',''"
      and rec: "parse_array m (v0 # acc) (skip_ws r') = POk (v, r)"
      by (auto simp: parse_array.simps[of n acc s] split: if_splits nat.splits)
    have "length r < length (skip_ws r')" by (rule "3.IH"(2)[OF pv refl sk nd d m rec])
    with l0 l1 show ?thesis using skip_ws_length[of r'] by linarith
  qed
next
  case (4 n accp s)
  note eq = "4.prems"[unfolded parse_object.simps[of n accp s]]
  from eq obtain cs where s: "s = dq # cs"
    by (auto split: list.splits if_splits)
  from eq s obtain k r0 where ss: "scan_string cs = Some (k, r0)"
    by (auto split: option.splits)
  from eq s ss obtain r1 where sk: "skip_ws r0 = CHR '':'' # r1"
    by (auto split: list.splits if_splits)
  from eq s ss sk obtain v0 r2 where pv: "parse_value n (skip_ws r1) = POk (v0, r2)"
    by (auto split: pres.splits)
  have l0: "length r2 < length (skip_ws r1)" by (rule "4.IH"(1)[OF s refl ss refl sk refl pv])
  have l1: "length r0 < length cs" by (rule scan_string_shorter[OF ss])
  have l2: "length r1 < length r0" by (rule skip_ws_Cons_shorter[OF sk])
  from eq s ss sk pv obtain d r3 where sk3: "skip_ws r2 = d # r3"
    by (auto split: list.splits)
  have l3: "length r3 < length r2" by (rule skip_ws_Cons_shorter[OF sk3])
  have base: "length r3 < length s"
    using l0 l1 l2 l3 skip_ws_length[of r1] unfolding s length_Cons by linarith
  show ?case
  proof (cases "d = CHR ''}''")
    case True
    with eq s ss sk pv sk3 base show ?thesis by simp
  next
    case nd: False
    with eq s ss sk pv sk3 obtain m where m: "n = Suc m" and d: "d = CHR '',''"
      and rec: "parse_object m ((k, v0) # accp) (skip_ws r3) = POk (v, r)"
      by (auto split: if_splits nat.splits)
    have "length r < length (skip_ws r3)"
      by (rule "4.IH"(2)[OF s refl ss refl sk refl pv refl sk3 nd d m rec])
    with base show ?thesis using skip_ws_length[of r3] by linarith
  qed
qed

lemma parse_enough_fuel:
  "length s < n \<Longrightarrow> parse_value n s \<noteq> PFuel"
  "length s < n \<Longrightarrow> parse_array n acc s \<noteq> PFuel"
  "length s < n \<Longrightarrow> parse_object n accp s \<noteq> PFuel"
proof (induction n s and n acc s and n accp s rule: parse_value_parse_array_parse_object.induct)
  case (1 s)
  then show ?case by simp
next
  case (2 n s)
  show ?case
  proof
    assume fuel: "parse_value (Suc n) s = PFuel"
    then obtain c cs where Cons: "s = c # cs" by (cases s) auto
    note eq = fuel[unfolded Cons parse_value.simps(2) list.case]
    have len: "length cs < n" using "2.prems" Cons by simp
    show False
    proof (cases "c = dq")
      case True
      with eq show False by (auto split: option.splits)
    next
      case c: False
      show False
      proof (cases "c = CHR ''{''")
        case b: True
        with eq c obtain d r0 where sk: "skip_ws cs = d # r0"
          by (auto split: list.splits)
        have "length (d # r0) < n" using sk skip_ws_length[of cs] len by simp
        with eq "2.IH"(1)[OF Cons c b sk] c b sk show False
          by (auto split: if_splits)
      next
        case nb: False
        show False
        proof (cases "c = CHR ''[''")
          case b: True
          with eq c nb obtain d r0 where sk: "skip_ws cs = d # r0"
            by (auto split: list.splits)
          have "length (d # r0) < n" using sk skip_ws_length[of cs] len by simp
          with eq "2.IH"(2)[OF Cons c nb b sk] c nb b sk show False
            by (auto split: if_splits)
        next
          case False
          with eq c nb show False
            by (auto simp del: take_Suc_Cons drop_Suc_Cons split: if_splits option.splits)
        qed
      qed
    qed
  qed
next
  case (3 n acc s)
  show ?case
  proof
    assume fuel: "parse_array n acc s = PFuel"
    note eq = fuel[unfolded parse_array.simps[of n acc s]]
    have "parse_value n s \<noteq> PFuel" by (rule "3.IH"(1)[OF "3.prems"])
    with eq obtain v0 r0 where pv: "parse_value n s = POk (v0, r0)"
      by (auto split: pres.splits)
    have l0: "length r0 < length s" by (rule parse_consumes(1)[OF pv])
    from eq pv obtain d r' where sk: "skip_ws r0 = d # r'"
      by (auto split: list.splits)
    have l1: "length r' < length r0" by (rule skip_ws_Cons_shorter[OF sk])
    from eq pv sk have nd: "d \<noteq> CHR '']''" and d: "d = CHR '',''"
      by (auto split: if_splits)
    obtain m where m: "n = Suc m" using "3.prems" by (cases n) auto
    from eq pv sk nd d m have rec: "parse_array m (v0 # acc) (skip_ws r') = PFuel"
      by simp
    have "length (skip_ws r') < m"
      using l0 l1 skip_ws_length[of r'] "3.prems" m by linarith
    with "3.IH"(2)[OF pv refl sk nd d m] rec show False by blast
  qed
next
  case (4 n accp s)
  show ?case
  proof
    assume fuel: "parse_object n accp s = PFuel"
    note eq = fuel[unfolded parse_object.simps[of n accp s]]
    from eq obtain cs where s: "s = dq # cs"
      by (auto split: list.splits if_splits)
    from eq s obtain k r0 where ss: "scan_string cs = Some (k, r0)"
      by (auto split: option.splits)
    from eq s ss obtain r1 where sk: "skip_ws r0 = CHR '':'' # r1"
      by (auto split: list.splits if_splits)
    have l1: "length r0 < length cs" by (rule scan_string_shorter[OF ss])
    have l2: "length r1 < length r0" by (rule skip_ws_Cons_shorter[OF sk])
    have "length (skip_ws r1) < n"
      using l1 l2 skip_ws_length[of r1] "4.prems" unfolding s length_Cons by linarith
    then have "parse_value n (skip_ws r1) \<noteq> PFuel" by (rule "4.IH"(1)[OF s refl ss refl sk refl])
    with eq s ss sk obtain v0 r2 where pv: "parse_value n (skip_ws r1) = POk (v0, r2)"
      by (auto split: pres.splits)
    have l0: "length r2 < length (skip_ws r1)" by (rule parse_consumes(1)[OF pv])
    from eq s ss sk pv obtain d r3 where sk3: "skip_ws r2 = d # r3"
      by (auto split: list.splits)
    have l3: "length r3 < length r2" by (rule skip_ws_Cons_shorter[OF sk3])
    from eq s ss sk pv sk3 have nd: "d \<noteq> CHR ''}''" and d: "d = CHR '',''"
      by (auto split: if_splits)
    obtain m where m: "n = Suc m" using "4.prems" by (cases n) auto
    from eq s ss sk pv sk3 nd d m have rec: "parse_object m ((k, v0) # accp) (skip_ws r3) = PFuel"
      by simp
    have "length (skip_ws r3) < m"
      using l0 l1 l2 l3 skip_ws_length[of r1] skip_ws_length[of r3] "4.prems" m
      unfolding s length_Cons by linarith
    with "4.IH"(2)[OF s refl ss refl sk refl pv refl sk3 nd d m] rec show False by blast
  qed
qed

lemma parse_fuel_mono:
  "parse_value n s \<noteq> PFuel \<Longrightarrow> parse_value (Suc n) s = parse_value n s"
  "parse_array n acc s \<noteq> PFuel \<Longrightarrow> parse_array (Suc n) acc s = parse_array n acc s"
  "parse_object n accp s \<noteq> PFuel \<Longrightarrow> parse_object (Suc n) accp s = parse_object n accp s"
proof (induction n s and n acc s and n accp s rule: parse_value_parse_array_parse_object.induct)
  case (1 s)
  then show ?case by simp
next
  case (2 n s)
  show ?case
  proof (cases s)
    case Nil
    then show ?thesis by simp
  next
    case (Cons c cs)
    note eq = "2.prems"[unfolded Cons parse_value.simps(2) list.case]
    show ?thesis
    proof (cases "c \<noteq> dq \<and> (c = CHR ''{'' \<or> c = CHR ''['')")
      case False
      then show ?thesis using Cons by auto
    next
      case True
      then have c: "c \<noteq> dq" by simp
      show ?thesis
      proof (cases "skip_ws cs")
        case Nil
        with Cons show ?thesis by auto
      next
        case (Cons d r0)
        show ?thesis
        proof (cases "c = CHR ''{''")
          case b: True
          show ?thesis
          proof (cases "d = CHR ''}''")
            case True
            with Cons \<open>s = c # cs\<close> b show ?thesis by simp
          next
            case False
            with eq c b Cons have "parse_object n [] (d # r0) \<noteq> PFuel" by simp
            with "2.IH"(1)[OF \<open>s = c # cs\<close> c b Cons False] \<open>s = c # cs\<close> c b Cons False
            show ?thesis by simp
          qed
        next
          case nb: False
          with True have b: "c = CHR ''[''" by simp
          show ?thesis
          proof (cases "d = CHR '']''")
            case True
            with Cons \<open>s = c # cs\<close> b nb show ?thesis by simp
          next
            case False
            with eq c b nb Cons have "parse_array n [] (d # r0) \<noteq> PFuel" by simp
            with "2.IH"(2)[OF \<open>s = c # cs\<close> c nb b Cons False] \<open>s = c # cs\<close> c b nb Cons False
            show ?thesis by simp
          qed
        qed
      qed
    qed
  qed
next
  case (3 n acc s)
  note eq = "3.prems"[unfolded parse_array.simps[of n acc s]]
  have nf: "parse_value n s \<noteq> PFuel" using eq by (auto split: pres.splits)
  note pv = "3.IH"(1)[OF nf]
  show ?case
  proof (cases "parse_value n s")
    case (POk x)
    obtain v0 r0 where x: "x = (v0, r0)" by (cases x)
    show ?thesis
    proof (cases "skip_ws r0")
      case Nil
      then show ?thesis using POk x pv by (simp add: parse_array.simps[of "Suc n"] parse_array.simps[of n] del: parse_value.simps)
    next
      case (Cons d r')
      show ?thesis
      proof (cases "d = CHR '']'' \<or> d \<noteq> CHR '',''")
        case True
        then show ?thesis using POk x pv Cons
          by (auto simp add: parse_array.simps[of "Suc n"] parse_array.simps[of n] simp del: parse_value.simps)
      next
        case False
        then have nd: "d \<noteq> CHR '']''" and d: "d = CHR '',''" by auto
        obtain m where m: "n = Suc m" using eq POk x Cons nd d by (cases n) (auto simp del: parse_value.simps)
        have "parse_array m (v0 # acc) (skip_ws r') \<noteq> PFuel"
          using eq POk x Cons nd d m by (simp del: parse_value.simps)
        with "3.IH"(2)[OF POk x[symmetric] Cons nd d m] show ?thesis
          unfolding parse_array.simps[of "Suc n" acc s] parse_array.simps[of n acc s]
          using POk x pv Cons nd d m by (simp del: parse_value.simps)
      qed
    qed
  next
    case PErr
    then show ?thesis using pv by (simp add: parse_array.simps[of "Suc n"] parse_array.simps[of n] del: parse_value.simps)
  next
    case PFuel
    with nf show ?thesis by simp
  qed
next
  case (4 n accp s)
  note eq = "4.prems"[unfolded parse_object.simps[of n accp s]]
  show ?case
  proof (cases "\<exists>cs k r0 r1. s = dq # cs \<and> scan_string cs = Some (k, r0) \<and> skip_ws r0 = CHR '':'' # r1")
    case False
    then show ?thesis
      unfolding parse_object.simps[of "Suc n" accp s] parse_object.simps[of n accp s]
      by (auto simp del: parse_value.simps split: list.splits option.splits if_splits)
  next
    case True
    then obtain cs k r0 r1 where s: "s = dq # cs" and ss: "scan_string cs = Some (k, r0)"
      and sk: "skip_ws r0 = CHR '':'' # r1" by blast
    have nf: "parse_value n (skip_ws r1) \<noteq> PFuel" using eq s ss sk by (auto split: pres.splits)
    note pv = "4.IH"(1)[OF s refl ss refl sk refl nf]
    show ?thesis
    proof (cases "parse_value n (skip_ws r1)")
      case (POk x)
      obtain v0 r2 where x: "x = (v0, r2)" by (cases x)
      show ?thesis
      proof (cases "skip_ws r2")
        case Nil
        then show ?thesis using s ss sk POk x pv
          unfolding parse_object.simps[of "Suc n" accp s] parse_object.simps[of n accp s]
          by (simp del: parse_value.simps)
      next
        case (Cons d r3)
        show ?thesis
        proof (cases "d = CHR ''}'' \<or> d \<noteq> CHR '',''")
          case True
          then show ?thesis using s ss sk POk x pv Cons
            unfolding parse_object.simps[of "Suc n" accp s] parse_object.simps[of n accp s]
            by (auto simp del: parse_value.simps)
        next
          case False
          then have nd: "d \<noteq> CHR ''}''" and d: "d = CHR '',''" by auto
          obtain m where m: "n = Suc m" using eq s ss sk POk x Cons nd d by (cases n) (auto simp del: parse_value.simps)
          have "parse_object m ((k, v0) # accp) (skip_ws r3) \<noteq> PFuel"
            using eq s ss sk POk x Cons nd d m by (simp del: parse_value.simps)
          with "4.IH"(2)[OF s refl ss refl sk refl POk x[symmetric] Cons nd d m] show ?thesis
            unfolding parse_object.simps[of "Suc n" accp s] parse_object.simps[of n accp s]
            using s ss sk POk x pv Cons nd d m by (simp del: parse_value.simps)
        qed
      qed
    next
      case PErr
      then show ?thesis using s ss sk pv
        unfolding parse_object.simps[of "Suc n" accp s] parse_object.simps[of n accp s]
          by (simp del: parse_value.simps)
    next
      case PFuel
      with nf show ?thesis by simp
    qed
  qed
qed

subsection \<open>Round trip: \<open>json.loads(json.dumps(v)) == v\<close>\<close>

lemma hex_val_hex_char: "k < 16 \<Longrightarrow> hex_val (hex_char k) = Some k"
  by (auto simp: hex_val_def hex_char_def Let_def)

lemma hex4_escape: "n < 256 \<Longrightarrow>
  hex4 [CHR ''0'', CHR ''0'', hex_char (n div 16), hex_char (n mod 16)] = Some n"
  by (simp add: hex_val_hex_char less_mult_imp_div_less) (simp add: hex_val_def)

lemma scan_plain:
  "c \<noteq> dq \<Longrightarrow> c \<noteq> bslash \<Longrightarrow> 32 \<le> (of_char c :: nat) \<Longrightarrow>
   scan_string (c # X) = map_option (prepend c) (scan_string X)"
  by (subst scan_string.simps) simp

lemma scan_simple_escape:
  "simple_escape e = Some d \<Longrightarrow> e \<noteq> CHR ''u'' \<Longrightarrow>
   scan_string (bslash # e # X) = map_option (prepend d) (scan_string X)"
  by (subst scan_string.simps) simp

lemma scan_u_escape:
  "hex4 [a, b, c, d] = Some n \<Longrightarrow> n < 256 \<Longrightarrow>
   scan_string (bslash # CHR ''u'' # a # b # c # d # X) = map_option (prepend (char_of n)) (scan_string X)"
  by (subst scan_string.simps) simp

lemma of_char_eq_char_of: "of_char c = (k::nat) \<Longrightarrow> c = char_of k"
  by (metis char_of_char)

lemma scan_escape_char:
  "scan_string (escape_char c @ X) = map_option (prepend c) (scan_string X)"
proof -
  let ?n = "of_char c :: nat"
  have lt: "?n < 256" by (rule nat_of_char_less_256)
  show ?thesis
  proof (cases "c = dq \<or> c = bslash \<or> ?n = 10 \<or> ?n = 13 \<or> ?n = 9 \<or> ?n = 8 \<or> ?n = 12")
    case True
    then show ?thesis
      by (elim disjE) (auto simp: escape_char_def scan_simple_escape simple_escape_def
          char_of_def bit_simps dest!: of_char_eq_char_of)
  next
    case False
    show ?thesis
    proof (cases "32 \<le> ?n \<and> ?n \<le> 126")
      case True
      with False show ?thesis by (simp add: escape_char_def scan_plain)
    next
      case nprint: False
      have "escape_char c = [bslash, CHR ''u'', CHR ''0'', CHR ''0'', hex_char (?n div 16), hex_char (?n mod 16)]"
        using False nprint by (simp add: escape_char_def Let_def)
      then show ?thesis using scan_u_escape[OF hex4_escape[OF lt] lt] by simp
    qed
  qed
qed

lemma scan_dump_str:
  "scan_string (concat (map escape_char s) @ dq # rest) = Some (s, rest)"
proof (induction s)
  case Nil
  then show ?case by (subst scan_string.simps) simp
next
  case (Cons c s)
  then show ?case by (simp add: scan_escape_char prepend_def)
qed

lemma skip_ws_Cons [simp]: "skip_ws (c # s) = (if is_json_ws c then skip_ws s else c # s)"
  by (simp add: skip_ws_def)

lemma skip_ws_Nil [simp]: "skip_ws [] = []"
  by (simp add: skip_ws_def)

lemma parse_value_mono_le:
  "parse_value n s \<noteq> PFuel \<Longrightarrow> n \<le> m \<Longrightarrow> parse_value m s = parse_value n s"
  by (induction m) (auto simp: le_Suc_eq parse_fuel_mono(1) simp del: parse_value.simps)

lemma parse_array_mono_le:
  "parse_array n acc s \<noteq> PFuel \<Longrightarrow> n \<le> m \<Longrightarrow> parse_array m acc s = parse_array n acc s"
  by (induction m) (auto simp: le_Suc_eq parse_fuel_mono(2))

lemma parse_object_mono_le:
  "parse_object n acc s \<noteq> PFuel \<Longrightarrow> n \<le> m \<Longrightarrow> parse_object m acc s = parse_object n acc s"
  by (induction m) (auto simp: le_Suc_eq parse_fuel_mono(3))

lemma join_Cons: "xs \<noteq> [] \<Longrightarrow> join sep (x # xs) = x @ sep @ join sep xs"
  by (cases xs) simp_all

lemma dumps_first: "num_free v \<Longrightarrow> first_char_ok (dumps v)"
  by (cases v) (auto simp: first_char_ok_def dump_str_def is_json_ws_def)

lemma first_char_ok_app: "first_char_ok s \<Longrightarrow> first_char_ok (s @ t)"
  by (auto simp: first_char_ok_def)

lemma join_first: "xs \<noteq> [] \<Longrightarrow> first_char_ok (hd xs) \<Longrightarrow> first_char_ok (join sep xs)"
  by (cases "(sep, xs)" rule: join.cases) (auto intro: first_char_ok_app)

lemma skip_ws_first: "first_char_ok s \<Longrightarrow> skip_ws s = s"
  by (auto simp: first_char_ok_def)

lemma parse_value_POk_le:
  assumes "parse_value n s = POk x" and "n \<le> m"
  shows "parse_value m s = POk x"
proof -
  have "parse_value n s \<noteq> PFuel" using assms(1) by simp
  from parse_value_mono_le[OF this assms(2)] assms(1) show ?thesis by simp
qed

lemma parse_array_POk_le:
  assumes "parse_array n acc s = POk x" and "n \<le> m"
  shows "parse_array m acc s = POk x"
proof -
  have "parse_array n acc s \<noteq> PFuel" using assms(1) by simp
  from parse_array_mono_le[OF this assms(2)] assms(1) show ?thesis by simp
qed

lemma parse_object_POk_le:
  assumes "parse_object n acc s = POk x" and "n \<le> m"
  shows "parse_object m acc s = POk x"
proof -
  have "parse_object n acc s \<noteq> PFuel" using assms(1) by simp
  from parse_object_mono_le[OF this assms(2)] assms(1) show ?thesis by simp
qed

lemma parse_array_dumps:
  assumes "vs \<noteq> []"
    and "\<forall>v \<in> set vs. num_free v \<and> (\<forall>r. \<exists>n. parse_value n (dumps v @ r) = POk (v, r))"
  shows "\<exists>n. parse_array n acc (join '', '' (map dumps vs) @ '']'' @ rest) = POk (JArr (rev acc @ vs), rest)"
  using assms
proof (induction vs arbitrary: acc)
  case Nil
  then show ?case by simp
next
  case (Cons v vs)
  show ?case
  proof (cases "vs = []")
    case True
    from Cons.prems(2) obtain n0
      where pv: "parse_value n0 (dumps v @ '']'' @ rest) = POk (v, '']'' @ rest)" by force
    have "parse_array n0 acc (dumps v @ '']'' @ rest) = POk (JArr (rev acc @ [v]), rest)"
      using pv by (simp add: parse_array.simps[of n0] is_json_ws_def del: parse_value.simps)
    with True show ?thesis by auto
  next
    case False
    let ?tl = "join '', '' (map dumps vs) @ '']'' @ rest"
    from Cons.IH[OF False, of "v # acc"] Cons.prems(2) obtain n1
      where pa: "parse_array n1 (v # acc) ?tl = POk (JArr (rev (v # acc) @ vs), rest)" by auto
    from Cons.prems(2) obtain n0
      where pv: "parse_value n0 (dumps v @ '', '' @ ?tl) = POk (v, '', '' @ ?tl)" by force
    have fc: "first_char_ok (join '', '' (map dumps vs))"
      using False Cons.prems(2) by (intro join_first) (auto simp: dumps_first neq_Nil_conv)
    let ?n = "Suc (max n0 n1)"
    have pv': "parse_value ?n (dumps v @ '', '' @ ?tl) = POk (v, '', '' @ ?tl)"
      by (rule parse_value_POk_le[OF pv]) simp
    have pa': "parse_array (max n0 n1) (v # acc) ?tl = POk (JArr (rev (v # acc) @ vs), rest)"
      by (rule parse_array_POk_le[OF pa]) simp
    have sk: "skip_ws ?tl = ?tl" by (rule skip_ws_first[OF first_char_ok_app[OF fc]])
    have "parse_array ?n acc (join '', '' (map dumps (v # vs)) @ '']'' @ rest) =
          POk (JArr (rev acc @ v # vs), rest)"
      using False pv' pa' sk
      by (simp add: join_Cons parse_array.simps[of ?n] is_json_ws_def del: parse_value.simps)
    then show ?thesis by blast
  qed
qed

lemma parse_object_dumps:
  assumes "kvs \<noteq> []"
    and "\<forall>kv \<in> set kvs. num_free (snd kv) \<and> (\<forall>r. \<exists>n. parse_value n (dumps (snd kv) @ r) = POk (snd kv, r))"
  shows "\<exists>n. parse_object n acc (join '', '' (map member_str kvs) @ ''}'' @ rest) = POk (JObj (rev acc @ kvs), rest)"
  using assms
proof (induction kvs arbitrary: acc)
  case Nil
  then show ?case by simp
next
  case (Cons kv kvs)
  obtain k v where kv: "kv = (k, v)" by (cases kv)
  have fv: "first_char_ok (dumps v)" using Cons.prems(2) kv by (simp add: dumps_first)
  show ?case
  proof (cases "kvs = []")
    case True
    from Cons.prems(2) kv obtain n0
      where pv: "parse_value n0 (dumps v @ ''}'' @ rest) = POk (v, ''}'' @ rest)" by force
    have "parse_object n0 acc (member_str (k, v) @ ''}'' @ rest) = POk (JObj (rev acc @ [(k, v)]), rest)"
      using pv skip_ws_first[OF first_char_ok_app[OF fv]]
      by (simp add: parse_object.simps[of n0] member_str_def dump_str_def scan_dump_str is_json_ws_def
          del: parse_value.simps)
    with True kv show ?thesis by auto
  next
    case False
    let ?tl = "join '', '' (map member_str kvs) @ ''}'' @ rest"
    have "\<exists>n. parse_object n ((k, v) # acc) ?tl = POk (JObj (rev ((k, v) # acc) @ kvs), rest)"
      using Cons.IH[of "(k, v) # acc"] False Cons.prems(2) by simp
    then obtain n1
      where po: "parse_object n1 ((k, v) # acc) ?tl = POk (JObj (rev ((k, v) # acc) @ kvs), rest)"
      by blast
    from Cons.prems(2) kv obtain n0
      where pv: "parse_value n0 (dumps v @ '', '' @ ?tl) = POk (v, '', '' @ ?tl)" by force
    have fc: "first_char_ok (join '', '' (map member_str kvs))"
      using False by (intro join_first) (auto simp: member_str_def dump_str_def first_char_ok_def
          is_json_ws_def neq_Nil_conv)
    let ?n = "Suc (max n0 n1)"
    have pv': "parse_value ?n (dumps v @ '', '' @ ?tl) = POk (v, '', '' @ ?tl)"
      by (rule parse_value_POk_le[OF pv]) simp
    have po': "parse_object (max n0 n1) ((k, v) # acc) ?tl = POk (JObj (rev ((k, v) # acc) @ kvs), rest)"
      by (rule parse_object_POk_le[OF po]) simp
    have sk: "skip_ws ?tl = ?tl" by (rule skip_ws_first[OF first_char_ok_app[OF fc]])
    have "parse_object ?n acc (join '', '' (map member_str ((k, v) # kvs)) @ ''}'' @ rest) =
          POk (JObj (rev acc @ (k, v) # kvs), rest)"
      using False pv' po' sk skip_ws_first[OF first_char_ok_app[OF fv]]
      by (simp add: join_Cons parse_object.simps[of ?n] member_str_def dump_str_def scan_dump_str
          is_json_ws_def del: parse_value.simps)
    with kv show ?thesis by blast
  qed
qed

lemma parse_value_dumps:
  "num_free v \<Longrightarrow> \<exists>n. parse_value n (dumps v @ rest) = POk (v, rest)"
proof (induction v arbitrary: rest)
  case JNull
  show ?case by (rule exI[of _ 1]) simp
next
  case (JBool b)
  show ?case by (rule exI[of _ 1]) simp
next
  case (JNum l)
  then show ?case by simp
next
  case (JStr t)
  show ?case by (rule exI[of _ 1]) (simp add: dump_str_def scan_dump_str)
next
  case (JArr vs)
  show ?case
  proof (cases "vs = []")
    case True
    show ?thesis by (rule exI[of _ 1]) (simp add: True is_json_ws_def)
  next
    case False
    have elems: "\<forall>v \<in> set vs. num_free v \<and> (\<forall>r. \<exists>n. parse_value n (dumps v @ r) = POk (v, r))"
      using JArr.IH JArr.prems by (auto simp: list_all_iff)
    obtain n where pa: "parse_array n [] (join '', '' (map dumps vs) @ '']'' @ rest) = POk (JArr vs, rest)"
      using parse_array_dumps[OF False elems, of "[]" rest] by auto
    have fc: "first_char_ok (join '', '' (map dumps vs) @ '']'' @ rest)"
      using False elems by (intro first_char_ok_app join_first) (auto simp: dumps_first neq_Nil_conv)
    then obtain c t where ct: "join '', '' (map dumps vs) @ '']'' @ rest = c # t"
      and c: "\<not> is_json_ws c" "c \<noteq> CHR '']''" by (auto simp: first_char_ok_def)
    have "parse_value (Suc n) (dumps (JArr vs) @ rest) = POk (JArr vs, rest)"
      using pa ct c by simp
    then show ?thesis by blast
  qed
next
  case (JObj kvs)
  show ?case
  proof (cases "kvs = []")
    case True
    show ?thesis by (rule exI[of _ 1]) (simp add: True is_json_ws_def)
  next
    case False
    have mems: "\<forall>kv \<in> set kvs. num_free (snd kv) \<and> (\<forall>r. \<exists>n. parse_value n (dumps (snd kv) @ r) = POk (snd kv, r))"
      using JObj.IH JObj.prems by (fastforce simp: list_all_iff)
    obtain n where po: "parse_object n [] (join '', '' (map member_str kvs) @ ''}'' @ rest) = POk (JObj kvs, rest)"
      using parse_object_dumps[OF False mems, of "[]" rest] by auto
    have dj: "dumps (JObj kvs) = ''{'' @ join '', '' (map member_str kvs) @ ''}''"
      by (simp add: member_str_def[abs_def] split_def)
    have fc: "first_char_ok (join '', '' (map member_str kvs) @ ''}'' @ rest)"
      using False by (intro first_char_ok_app join_first)
        (auto simp: member_str_def dump_str_def first_char_ok_def is_json_ws_def neq_Nil_conv)
    then obtain c t where ct: "join '', '' (map member_str kvs) @ ''}'' @ rest = c # t"
      and c: "\<not> is_json_ws c" "c \<noteq> CHR ''}''" by (auto simp: first_char_ok_def)
    have "parse_value (Suc n) (dumps (JObj kvs) @ rest) = POk (JObj kvs, rest)"
      using po ct c by (simp only: dj) simp
    then show ?thesis by blast
  qed
qed

theorem loads_dumps: "num_free v \<Longrightarrow> loads (dumps v) = Inr v"
proof -
  assume nf: "num_free v"
  obtain n where pv: "parse_value n (dumps v) = POk (v, [])"
    using parse_value_dumps[OF nf, of "[]"] by auto
  let ?N = "Suc (length (dumps v))"
  have fuel: "parse_value ?N (dumps v) \<noteq> PFuel" by (rule parse_enough_fuel(1)) simp
  have res: "parse_value ?N (dumps v) = POk (v, [])"
  proof (cases "n \<le> ?N")
    case True
    then show ?thesis by (rule parse_value_POk_le[OF pv])
  next
    case False
    then have "parse_value n (dumps v) = parse_value ?N (dumps v)"
      using parse_value_mono_le[OF fuel] by simp
    with pv show ?thesis by simp
  qed
  have "skip_ws (dumps v) = dumps v" using dumps_first[OF nf] by (rule skip_ws_first)
  with res show ?thesis by (simp add: loads_def del: parse_value.simps)
qed


subsection \<open>Properties of the JSON layer\<close>

text \<open>
  Decoding what \<open>json.dumps\<close> produced gives the value back, for every
  value without numerals (strings with any characters, booleans, null, and
  arrays and objects of these, duplicate keys and member order included).
\<close>

lemma loads_dumps_roundtrip: "num_free v \<Longrightarrow> loads (dumps v) = Inr v"
  by (rule loads_dumps)

lemma loads_dumps_roundtrip_witness:
  "loads (dumps (JObj [(''company_name'', JStr ''A\"B''), (''amount'', JStr [CHR 0x0A, CHR 0xE9])]))
     = Inr (JObj [(''company_name'', JStr ''A\"B''), (''amount'', JStr [CHR 0x0A, CHR 0xE9])])"
  by (rule loads_dumps_roundtrip) simp

text \<open>
  \<open>json.loads\<close> terminates on every input: the fuel it is given, one unit
  per character plus one, is never exhausted.
\<close>

lemma loads_never_out_of_fuel: "parse_value (Suc (length s)) (skip_ws s) \<noteq> PFuel"
  by (rule parse_enough_fuel(1)) (simp add: le_imp_less_Suc)

text \<open>
  A reply wrapped in a Markdown code fence is not JSON: whatever follows
  the three backquotes, \<open>json.loads\<close> raises \<open>JSONDecodeError\<close>.
\<close>

lemma loads_fenced_reply: "loads (''```'' @ s) = Inl JSONDecodeError"
  by (simp add: loads_def is_json_ws_def scan_number_def int_part_def is_ascii_digit_def)

end
