(* ===== verification/World.thy ===== *)
theory World
  imports Json
begin

text \<open>
  The world the two scripts act on. The file system is a map from path strings
  to entries (a file with its bytes, or a directory); relative paths are those
  of the current working directory, which the environment names. The external
  collaborators the specification leaves out of scope are parameters of every
  operation, gathered in the record \<open>env\<close>: the chat-completion endpoint (it
  sees the request headers and the JSON payload and answers with a transport
  error or a response body), PyMuPDF (opening a PDF and rendering each page to
  JPEG bytes; re-saving a document), Pillow's PDF writer and Tesseract. Each of
  them may fail, and each failure is a value. The file-system operations are
  those of \<open>os\<close> and \<open>shutil\<close> that the scripts call, with the exceptions they
  raise on POSIX.
\<close>

datatype fentry = FileE bytes | DirE

type_synonym fs = "path \<Rightarrow> fentry option"

datatype http_result = TransportError | HttpBody string

text \<open>
  \<open>api_key\<close> is \<open>os.getenv("OPENAI_API_KEY")\<close>. \<open>pdf_pages\<close> is \<open>fitz.open\<close>
  followed by \<open>page.get_pixmap()\<close> for each page, saved as JPEG (\<open>None\<close>: the
  document does not open; a page's \<open>None\<close>: its pixmap fails); \<open>pdf_save\<close> is
  \<open>doc.save\<close> of an opened document; \<open>image_to_pdf\<close> is \<open>Image.open\<close> followed
  by \<open>image.save(..., "PDF")\<close>; \<open>ocr\<close> is \<open>Image.open\<close> followed by
  \<open>pytesseract.image_to_string\<close>. \<open>py_str\<close> is Python's \<open>str()\<close> of a
  decoded number, list or object (their \<open>repr\<close>, with Python's float
  formatting), which an f-string applies to a field that is not a string.
\<close>

record env =
  cwd :: path
  api_key :: "string option"
  chat_api :: "(string \<times> string) list \<Rightarrow> json \<Rightarrow> http_result"
  pdf_pages :: "bytes \<Rightarrow> bytes option list option"
  pdf_save :: "bytes \<Rightarrow> bytes option"
  image_to_pdf :: "bytes \<Rightarrow> bytes option"
  ocr :: "bytes \<Rightarrow> string option"
  py_str :: "json \<Rightarrow> string"

subsection \<open>Paths\<close>

text \<open>\<open>posixpath.basename\<close> and \<open>posixpath.dirname\<close>.\<close>

definition basename :: "path \<Rightarrow> path" where
  "basename p = rev (takeWhile (\<lambda>c. c \<noteq> CHR ''/'') (rev p))"

definition dirname :: "path \<Rightarrow> path" where
  "dirname p =
     (let head = rev (dropWhile (\<lambda>c. c \<noteq> CHR ''/'') (rev p)) in
      if list_all (\<lambda>c. c = CHR ''/'') head then head
      else rev (dropWhile (\<lambda>c. c = CHR ''/'') (rev head)))"

text \<open>A relative path is resolved against the working directory.\<close>

definition resolve :: "env \<Rightarrow> path \<Rightarrow> path" where
  "resolve e p = path_join (cwd e) p"

text \<open>The working directory and the root always exist.\<close>

definition dir_ok :: "fs \<Rightarrow> path \<Rightarrow> bool" where
  "dir_ok fs d \<longleftrightarrow> list_all (\<lambda>c. c = CHR ''/'') d \<or> fs d = Some DirE"

subsection \<open>File operations\<close>

text \<open>\<open>open(p, 'rb').read()\<close>.\<close>

definition read_bytes :: "fs \<Rightarrow> path \<Rightarrow> bytes result" where
  "read_bytes fs p =
     (case fs p of
        Some (FileE b) \<Rightarrow> Inr b
      | Some DirE \<Rightarrow> Inl (IsADirectoryError p)
      | None \<Rightarrow> Inl (FileNotFoundError p))"

text \<open>Writing a whole file: it is created or truncated; its directory must exist.\<close>

definition write_bytes :: "fs \<Rightarrow> path \<Rightarrow> bytes \<Rightarrow> fs result" where
  "write_bytes fs p b =
     (case fs p of
        Some DirE \<Rightarrow> Inl (IsADirectoryError p)
      | _ \<Rightarrow> if dir_ok fs (dirname p) then Inr (fs(p \<mapsto> FileE b)) else Inl (FileNotFoundError p))"

text \<open>\<open>os.remove\<close>.\<close>

definition remove_file :: "fs \<Rightarrow> path \<Rightarrow> fs result" where
  "remove_file fs p =
     (case fs p of
        Some (FileE _) \<Rightarrow> Inr (fs(p := None))
      | Some DirE \<Rightarrow> Inl (IsADirectoryError p)
      | None \<Rightarrow> Inl (FileNotFoundError p))"

text \<open>\<open>os.path.exists\<close>.\<close>

definition path_exists :: "fs \<Rightarrow> path \<Rightarrow> bool" where
  "path_exists fs p \<longleftrightarrow> fs p \<noteq> None"

text \<open>
  \<open>os.rename\<close> of a file: an existing file at the target is replaced, a
  directory there is an error, and the target's directory must exist.
\<close>

definition rename_file :: "fs \<Rightarrow> path \<Rightarrow> path \<Rightarrow> fs result" where
  "rename_file fs src dst =
     (case fs src of
        None \<Rightarrow> Inl (FileNotFoundError src)
      | Some DirE \<Rightarrow> Inl (IsADirectoryError src)
      | Some (FileE b) \<Rightarrow>
          (case fs dst of
             Some DirE \<Rightarrow> Inl (IsADirectoryError dst)
           | _ \<Rightarrow> if dir_ok fs (dirname dst) then Inr ((fs(src := None))(dst \<mapsto> FileE b))
                  else Inl (FileNotFoundError dst)))"

text \<open>
  \<open>shutil.move(src, dst)\<close>: into \<open>dst\<close> when it is a directory (an error if the
  name is taken there), otherwise a rename onto \<open>dst\<close>.
\<close>

definition move :: "fs \<Rightarrow> path \<Rightarrow> path \<Rightarrow> fs result" where
  "move fs src dst =
     (if fs dst = Some DirE then
        (let real_dst = path_join dst (basename src) in
         if fs real_dst \<noteq> None then Inl (FileExistsError real_dst) else rename_file fs src real_dst)
      else rename_file fs src dst)"

text \<open>\<open>os.makedirs(p, exist_ok=True)\<close>: missing parents are created first.\<close>

function makedirs :: "fs \<Rightarrow> path \<Rightarrow> fs result" where
  "makedirs fs p =
     (case fs p of
        Some DirE \<Rightarrow> Inr fs
      | Some (FileE _) \<Rightarrow> Inl (FileExistsError p)
      | None \<Rightarrow>
          if dir_ok fs (dirname p) then Inr (fs(p \<mapsto> DirE))
          else if length (dirname p) < length p then
            (case makedirs fs (dirname p) of Inl e \<Rightarrow> Inl e | Inr fs' \<Rightarrow> Inr (fs'(p \<mapsto> DirE)))
          else Inl (FileNotFoundError p))"
  by pat_completeness auto
termination
  by (relation "measure (\<lambda>(fs, p). length p)") auto

text \<open>
  The working directory as \<open>os.getcwd()\<close> reports it: an existing directory,
  with no trailing slash unless it is the root.
\<close>

definition cwd_ok :: "env \<Rightarrow> fs \<Rightarrow> bool" where
  "cwd_ok e fs \<longleftrightarrow> cwd e \<noteq> [] \<and> dir_ok fs (cwd e) \<and>
     (last (cwd e) = CHR ''/'' \<longrightarrow> list_all (\<lambda>c. c = CHR ''/'') (cwd e))"

subsection \<open>Lemmas on paths and files\<close>

lemma write_bytes_fresh:
  "fs p = None \<Longrightarrow> dir_ok fs (dirname p) \<Longrightarrow> write_bytes fs p b = Inr (fs(p \<mapsto> FileE b))"
  by (simp add: write_bytes_def)

lemma remove_file_written: "remove_file (fs(p \<mapsto> FileE b)) p = Inr (fs(p := None))"
  by (simp add: remove_file_def)

lemma dirname_resolve:
  assumes "cwd_ok e fs" and "t \<noteq> []" and "CHR ''/'' \<notin> set t"
  shows "dir_ok fs (dirname (resolve e t))"
proof (cases "last (cwd e) = CHR ''/''")
  case True
  then have all: "list_all (\<lambda>c. c = CHR ''/'') (cwd e)" and ne: "cwd e \<noteq> []"
    using assms(1) by (auto simp: cwd_ok_def)
  have "hd t \<noteq> CHR ''/''" using assms(2,3) by (cases t) auto
  then have r: "resolve e t = cwd e @ t" using True assms(2) by (simp add: resolve_def path_join_def)
  have "dropWhile (\<lambda>c. c \<noteq> CHR ''/'') (rev t @ rev (cwd e)) = rev (cwd e)"
    using assms(3) ne all by (cases "rev (cwd e)") (auto simp: dropWhile_append list_all_iff)
  then show ?thesis using all by (simp add: r dirname_def dir_ok_def)
next
  case False
  then have ne: "cwd e \<noteq> []" and ok: "dir_ok fs (cwd e)" using assms(1) by (auto simp: cwd_ok_def)
  have "hd t \<noteq> CHR ''/''" using assms(2,3) by (cases t) auto
  then have r: "resolve e t = cwd e @ ''/'' @ t" using False ne assms(2) by (simp add: resolve_def path_join_def)
  have d: "dropWhile (\<lambda>c. c \<noteq> CHR ''/'') (rev t @ CHR ''/'' # rev (cwd e)) = CHR ''/'' # rev (cwd e)"
    using assms(3) by (simp add: dropWhile_append)
  have "\<not> list_all (\<lambda>c. c = CHR ''/'') (cwd e @ ''/'')"
    using False ne by (simp add: list_all_iff) (metis last_in_set)
  moreover have "dropWhile (\<lambda>c. c = CHR ''/'') (rev (cwd e)) = rev (cwd e)"
    using False ne by (cases "rev (cwd e)") (auto simp: last_rev[symmetric] hd_rev)
  ultimately show ?thesis using ok by (simp add: r d dirname_def)
qed

lemma makedirs_exists: "fs p = Some DirE \<Longrightarrow> makedirs fs p = Inr fs"
  by (subst makedirs.simps) simp

lemma dirname_append:
  assumes "a \<noteq> []" and "last a \<noteq> CHR ''/''" and "CHR ''/'' \<notin> set b"
  shows "dirname (a @ ''/'' @ b) = a"
proof -
  have d: "dropWhile (\<lambda>c. c \<noteq> CHR ''/'') (rev b @ CHR ''/'' # rev a) = CHR ''/'' # rev a"
    using assms(3) by (simp add: dropWhile_append)
  have "\<not> list_all (\<lambda>c. c = CHR ''/'') (a @ ''/'')"
    using assms(1,2) by (simp add: list_all_iff) (metis last_in_set)
  moreover have "dropWhile (\<lambda>c. c = CHR ''/'') (rev a) = rev a"
    using assms(1,2) by (cases "rev a") (auto simp: last_rev[symmetric] hd_rev)
  ultimately show ?thesis by (simp add: d dirname_def)
qed

lemma resolve_absolute: "p \<noteq> [] \<Longrightarrow> hd p = CHR ''/'' \<Longrightarrow> resolve e p = p"
  by (simp add: resolve_def path_join_def)

lemma path_join_plain:
  "a \<noteq> [] \<Longrightarrow> last a \<noteq> CHR ''/'' \<Longrightarrow> b \<noteq> [] \<Longrightarrow> CHR ''/'' \<notin> set b \<Longrightarrow> path_join a b = a @ ''/'' @ b"
  by (cases b) (auto simp: path_join_def)

end
