(* ===== verification/Ocr.thy ===== *)
theory Ocr
  imports Regex World
begin

text \<open>
  The OCR fallback extractor, \<open>extract_info_with_tesseract\<close>
  (\<open>src/rename_invoices.py\<close> lines 60--78): the image is opened and passed to
  Tesseract, two regular expressions are searched in the text, the groups are
  stripped and returned as a JSON string; any exception yields the JSON string
  with two empty fields. The patterns are transcribed from lines 66--67 into
  \<^typ>\<open>rx\<close>: \<open>(?i)\<close> makes every literal case-insensitive, \<open>.+\<close> is one
  \<open>.\<close> followed by \<open>.*\<close>, and \<open>\d{1,3}\<close> is \<open>\d(\d\d?)?\<close>, which the engine tries
  in the same order (three digits, then two, then one).
\<close>

definition company_pattern :: rx where
  "company_pattern =
     Seq (Alt (lit_word LitCI ''company'') (Alt (lit_word LitCI ''business'') (lit_word LitCI ''from'')))
       (Seq (Cls (LitCI (CHR '':''))) (Seq (Star (Cls Space)) (Grp (Seq (Cls Dot) (Star (Cls Dot))))))"

definition digits_1_3 :: rx where
  "digits_1_3 = Seq (Cls Digit) (Opt (Seq (Cls Digit) (Opt (Cls Digit))))"

definition amount_pattern :: rx where
  "amount_pattern =
     Seq (Opt (Cls (Lit (CHR ''$''))))
       (Seq (Star (Cls Space))
         (Grp (Seq digits_1_3
                (Seq (Star (Seq (Cls (Lit (CHR '',''))) (lit_word (\<lambda>_. Digit) ''ddd'')))
                     (Opt (Seq (Cls (Lit (CHR ''.''))) (lit_word (\<lambda>_. Digit) ''dd'')))))))"

text \<open>\<open>m.group(1) if m else ""\<close>, then \<open>.strip()\<close>: a group that took no part is \<open>None\<close>.\<close>

definition group_or_empty :: "capture option \<Rightarrow> string result" where
  "group_or_empty m = (case m of None \<Rightarrow> Inr [] | Some None \<Rightarrow> Inl AttributeError | Some (Some g) \<Rightarrow> Inr (py_strip g))"

definition info_json :: "string \<Rightarrow> string \<Rightarrow> json" where
  "info_json company_name amount = JObj [(''company_name'', JStr company_name), (''amount'', JStr amount)]"

text \<open>Lines 69--73: the two searches on the recognised text.\<close>

definition text_fields :: "string \<Rightarrow> (string \<times> string) result" where
  "text_fields text =
     bindE (group_or_empty (search company_pattern text)) (\<lambda>company_name.
       bindE (group_or_empty (search amount_pattern text)) (\<lambda>amount.
         Inr (company_name, amount)))"

text \<open>The body of the \<open>try\<close> block: either an exception or the two stripped fields.\<close>

definition tesseract_fields :: "env \<Rightarrow> fs \<Rightarrow> path \<Rightarrow> (string \<times> string) result" where
  "tesseract_fields e fs image_path =
     bindE (read_bytes fs image_path) (\<lambda>img.
       (case ocr e img of
          None \<Rightarrow> Inl OcrError
        | Some text \<Rightarrow> text_fields text))"

definition extract_info_with_tesseract :: "env \<Rightarrow> fs \<Rightarrow> path \<Rightarrow> string" where
  "extract_info_with_tesseract e fs image_path =
     (case tesseract_fields e fs image_path of
        Inl _ \<Rightarrow> dumps (info_json '''' '''')
      | Inr (company_name, amount) \<Rightarrow> dumps (info_json company_name amount))"

subsection \<open>Properties of the OCR fallback\<close>

lemma company_group_chars: "r' \<in> set (rx_grps company_pattern) \<Longrightarrow> matched_by r' x \<Longrightarrow> \<not> is_newline x"
  by (auto simp: company_pattern_def lit_word_def matched_by_def)

lemma amount_group_chars:
  "r' \<in> set (rx_grps amount_pattern) \<Longrightarrow> matched_by r' x \<Longrightarrow> is_digit x \<or> x = CHR '','' \<or> x = CHR ''.''"
  by (auto simp: amount_pattern_def digits_1_3_def lit_word_def matched_by_def)

lemma group_or_empty_Inr:
  assumes "group_or_empty (search r text) = Inr v"
  shows "(\<exists>r' \<in> set (rx_grps r). sublist v text \<and> (\<forall>x \<in> set v. matched_by r' x)) \<or> v = []"
proof (cases "search r text")
  case None
  then show ?thesis using assms by (simp add: group_or_empty_def del: search.simps)
next
  case (Some c)
  then obtain g where c: "c = Some g" and v: "v = py_strip g"
    using assms by (cases c) (auto simp: group_or_empty_def simp del: search.simps)
  obtain r' where "r' \<in> set (rx_grps r)" "sublist g text" "\<forall>x\<in>set g. matched_by r' x"
    using search_capture[of r "text" g] Some c by blast
  moreover have "sublist v g" "set v \<subseteq> set g" using sublist_py_strip[of g] v
    by (auto dest: set_mono_sublist)
  ultimately show ?thesis by (meson sublist_order.order_trans subsetD)
qed

lemma num_free_info_json [simp]: "num_free (info_json company_name amount)"
  by (simp add: info_json_def)

lemma loads_info_json [simp]: "loads (dumps (info_json company_name amount)) = Inr (info_json company_name amount)"
  by (rule loads_dumps) simp

text \<open>
  C8: The OCR fallback never raises and always returns well-formed JSON:
  whatever the file system and Tesseract do, decoding its result gives an
  object whose \<open>company_name\<close> and \<open>amount\<close> are strings.
\<close>

theorem tesseract_result_well_formed:
  "\<exists>company_name amount.
     loads (extract_info_with_tesseract e fs image_path) = Inr (info_json company_name amount)"
  by (auto simp: extract_info_with_tesseract_def split: sum.splits)

text \<open>
  The amount is the first number of the text, not the total: an invoice
  number printed before the total is taken instead, and a number of four or more
  digits without a thousands separator is cut after its third digit.
\<close>

lemma text_fields_first_number:
  "text_fields ''Invoice 2024-001\<newline>From: Acme\<newline>Total: $99.00'' = Inr (''Acme'', ''202'')
   \<and> text_fields ''From: Acme\<newline>Total: 1234.56'' = Inr (''Acme'', ''123'')"
  by code_simp

text \<open>
  The company pattern is not anchored to a line start and \<open>\s*\<close> crosses
  line breaks: a keyword inside a word matches, and an empty field after
  \<open>Company:\<close> takes the next line.
\<close>

lemma text_fields_company_unanchored:
  "text_fields ''Nonbusiness: Acme'' = Inr (''Acme'', '''')
   \<and> text_fields ''Company:\<newline>Acme Ltd\<newline>'' = Inr (''Acme Ltd'', '''')"
  by code_simp

text \<open>
  C11: Whatever Tesseract recognises, the two fields the fallback extracts are
  pieces of the recognised text: the company name never spans a line break,
  and the amount consists of digits, commas and periods only. The typical page
  of the specification gives \<open>Acme Corp\<close> and \<open>1,234.50\<close>.
\<close>

theorem text_fields_charset:
  assumes "text_fields text = Inr (company_name, amount)"
  shows "sublist company_name text \<and> CHR 0x0A \<notin> set company_name
         \<and> sublist amount text \<and> (\<forall>x \<in> set amount. is_digit x \<or> x = CHR '','' \<or> x = CHR ''.'')"
proof -
  have c: "group_or_empty (search company_pattern text) = Inr company_name"
    and a: "group_or_empty (search amount_pattern text) = Inr amount"
    using assms by (auto simp: text_fields_def bindE_eq_Inr)
  show ?thesis
    using group_or_empty_Inr[OF c] group_or_empty_Inr[OF a] company_group_chars amount_group_chars
    by (fastforce simp: is_newline_def)
qed

theorem text_fields_charset_witness:
  "sublist ''Acme Corp'' ''INVOICE\<newline>From: Acme Corp\<newline>Total: $1,234.50\<newline>''
   \<and> CHR 0x0A \<notin> set ''Acme Corp''
   \<and> sublist ''1,234.50'' ''INVOICE\<newline>From: Acme Corp\<newline>Total: $1,234.50\<newline>''
   \<and> list_all (\<lambda>x. is_digit x \<or> x = CHR '','' \<or> x = CHR ''.'') ''1,234.50''"
proof -
  have "text_fields ''INVOICE\<newline>From: Acme Corp\<newline>Total: $1,234.50\<newline>'' = Inr (''Acme Corp'', ''1,234.50'')"
    by code_simp
  then have "sublist ''Acme Corp'' ''INVOICE\<newline>From: Acme Corp\<newline>Total: $1,234.50\<newline>''
   \<and> CHR 0x0A \<notin> set ''Acme Corp''
   \<and> sublist ''1,234.50'' ''INVOICE\<newline>From: Acme Corp\<newline>Total: $1,234.50\<newline>''
   \<and> (\<forall>x \<in> set ''1,234.50''. is_digit x \<or> x = CHR '','' \<or> x = CHR ''.'')"
    by (rule text_fields_charset)
  then show ?thesis
    unfolding list_all_iff .
qed

end
