(* ===== verification/Vision.thy ===== *)
theory Vision
  imports Base64 Ocr
begin

text \<open>
  The image encoder and the vision extractor: \<open>encode_image\<close> and
  \<open>extract_info_from_image\<close> of both scripts (\<open>src/rename_invoices.py\<close>
  lines 20--58, \<open>src/label_invoices.py\<close> lines 13--47). The request headers
  are built once from \<open>OPENAI_API_KEY\<close>; the payload is a JSON value whose text
  part is the prompt and whose image part is a data URL carrying the base64 of
  the file. The service is the oracle \<open>chat_api\<close> of the environment; its
  answer is decoded with \<open>response.json()\<close> and subscripted with
  \<open>['choices'][0]['message']['content']\<close>. In the newer script every
  exception of this sequence is caught and the OCR fallback answers instead; in
  the older one it propagates.
\<close>

definition prompt_label :: string where
  \<open>prompt_label = ''Extract the company name and amount charged from this invoice image. Return in JSON format as exactly {"company_name": "...", "amount": "..."}. Do not include any ```json``` tags, just return the exact JSON dictionary.''\<close>

definition prompt_rename :: string where
  \<open>prompt_rename = ''Extract the company name and amount charged from this invoice image. Return in JSON format as exactly {"company_name": "...", "amount": "..."}. Do not include any ```json``` tags, just return the exact JSON dictionary. Some ''\<close>

text \<open>\<open>f"Bearer {api_key}"\<close>: an unset variable is formatted as \<open>None\<close>.\<close>

definition headers :: "env \<Rightarrow> (string \<times> string) list" where
  "headers e =
     [(''Content-Type'', ''application/json''),
      (''Authorization'', ''Bearer '' @ (case api_key e of None \<Rightarrow> ''None'' | Some k \<Rightarrow> k))]"

definition encode_image :: "fs \<Rightarrow> path \<Rightarrow> string result" where
  "encode_image fs image_path = bindE (read_bytes fs image_path) (\<lambda>data. Inr (b64encode data))"

definition payload :: "string \<Rightarrow> string \<Rightarrow> json" where
  "payload prompt base64_image =
     JObj [(''model'', JStr ''gpt-4o''),
           (''messages'', JArr [JObj [(''role'', JStr ''user''),
              (''content'', JArr [JObj [(''type'', JStr ''text''), (''text'', JStr prompt)],
                                  JObj [(''type'', JStr ''image_url''),
                                        (''image_url'', JObj [(''url'', JStr (''data:image/jpeg;base64,'' @ base64_image))])]])]]),
           (''max_tokens'', JNum ''300'')]"

text \<open>\<open>result['choices'][0]['message']['content']\<close>.\<close>

definition response_content :: "json \<Rightarrow> json result" where
  "response_content result =
     bindE (getitem result ''choices'') (\<lambda>choices.
       bindE (getitem_0 choices) (\<lambda>choice.
         bindE (getitem choice ''message'') (\<lambda>message.
           getitem message ''content'')))"

text \<open>
  The request and its answer: encode, post, decode the body, subscript. A
  transport failure of \<open>requests.post\<close> is \<open>RequestError\<close>; a body that is not
  JSON makes \<open>response.json()\<close> raise.
\<close>

definition vision_request :: "string \<Rightarrow> env \<Rightarrow> fs \<Rightarrow> path \<Rightarrow> json result" where
  "vision_request prompt e fs image_path =
     bindE (encode_image fs image_path) (\<lambda>base64_image.
       (case chat_api e (headers e) (payload prompt base64_image) of
          TransportError \<Rightarrow> Inl RequestError
        | HttpBody body \<Rightarrow> bindE (loads body) response_content))"

text \<open>\<open>label_invoices.extract_info_from_image\<close>: no handler, errors propagate.\<close>

definition extract_info_from_image_label :: "env \<Rightarrow> fs \<Rightarrow> path \<Rightarrow> json result" where
  "extract_info_from_image_label e fs image_path = vision_request prompt_label e fs image_path"

text \<open>
  \<open>rename_invoices.extract_info_from_image\<close>: the \<open>except Exception\<close> handler
  returns the OCR result, a \<open>str\<close>. The content of a successful answer is
  returned as it is, whatever its JSON type.
\<close>

definition extract_info_from_image :: "env \<Rightarrow> fs \<Rightarrow> path \<Rightarrow> json" where
  "extract_info_from_image e fs image_path =
     (case vision_request prompt_rename e fs image_path of
        Inr content \<Rightarrow> content
      | Inl _ \<Rightarrow> JStr (extract_info_with_tesseract e fs image_path))"

text \<open>A well-formed answer of the service whose message content is the given text.\<close>

definition chat_reply :: "string \<Rightarrow> json" where
  "chat_reply content =
     JObj [(''choices'', JArr [JObj [(''message'', JObj [(''role'', JStr ''assistant''), (''content'', JStr content)])]])]"

text \<open>An example reply: the object wrapped in a Markdown code fence.\<close>

definition fenced_content :: string where
  \<open>fenced_content = ''```json {"company_name": "ACME", "amount": "9.50"} ```''\<close>

text \<open>An environment whose network is down and whose other collaborators fail.\<close>

definition offline_env :: env where
  "offline_env =
     \<lparr>cwd = ''/'', api_key = None, chat_api = (\<lambda>_ _. TransportError),
      pdf_pages = (\<lambda>_. None), pdf_save = (\<lambda>_. None), image_to_pdf = (\<lambda>_. None), ocr = (\<lambda>_. None), py_str = (\<lambda>_. [])\<rparr>"

subsection \<open>Lemmas on requests and replies\<close>

lemma num_free_chat_reply [simp]: "num_free (chat_reply content)"
  by (simp add: chat_reply_def)

lemma response_content_chat_reply [simp]: "response_content (chat_reply content) = Inr (JStr content)"
  by (simp add: response_content_def chat_reply_def getitem_def getitem_0_def)

lemma encode_image_Inr: "encode_image fs p = Inr s \<longleftrightarrow> (\<exists>data. read_bytes fs p = Inr data \<and> s = b64encode data)"
  by (auto simp: encode_image_def bindE_eq_Inr)

lemma read_bytes_Inr: "read_bytes fs p = Inr data \<longleftrightarrow> fs p = Some (FileE data)"
  by (auto simp: read_bytes_def split: option.splits fentry.splits)

lemma vision_request_reply:
  "fs image_path = Some (FileE data) \<Longrightarrow>
   chat_api e (headers e) (payload prompt (b64encode data)) = HttpBody (dumps (chat_reply content)) \<Longrightarrow>
   vision_request prompt e fs image_path = Inr (JStr content)"
  by (simp add: vision_request_def encode_image_def read_bytes_def loads_dumps)

lemma loads_fenced_content: "loads fenced_content = Inl JSONDecodeError"
  by code_simp

subsection \<open>Properties of the extractor\<close>

text \<open>
  C12: The image text sent in the request is the base64 of the file's bytes:
  when encoding succeeds the path is a file and the text decodes to its bytes.
\<close>

theorem request_image_roundtrip:
  "encode_image fs image_path = Inr base64_image \<Longrightarrow>
   \<exists>data. fs image_path = Some (FileE data) \<and> b64decode base64_image = Some data"
  by (auto simp: encode_image_Inr read_bytes_Inr b64decode_b64encode)

theorem request_image_roundtrip_witness:
  "\<exists>data. (\<lambda>p. if p = ''/a.png'' then Some (FileE [1, 2]) else None) ''/a.png'' = Some (FileE data)
     \<and> b64decode (b64encode [1, 2]) = Some data"
  by (rule request_image_roundtrip) (simp add: encode_image_def read_bytes_def)

text \<open>
  C13: When the service answers with a well-formed reply, the extractor returns
  its message content unchanged.
\<close>

theorem extract_info_from_image_reply:
  assumes "fs image_path = Some (FileE data)"
    and "chat_api e (headers e) (payload prompt_rename (b64encode data)) = HttpBody (dumps (chat_reply content))"
  shows "extract_info_from_image e fs image_path = JStr content"
  using vision_request_reply[of fs image_path data e prompt_rename content] assms
  by (simp add: extract_info_from_image_def)


theorem extract_info_from_image_reply_witness:
  "extract_info_from_image
     \<lparr>cwd = ''/'', api_key = Some ''k'', chat_api = (\<lambda>_ _. HttpBody (dumps (chat_reply ''{}''))),
      pdf_pages = (\<lambda>_. None), pdf_save = (\<lambda>_. None), image_to_pdf = (\<lambda>_. None), ocr = (\<lambda>_. None), py_str = (\<lambda>_. [])\<rparr>
     (\<lambda>p. if p = ''/a.jpg'' then Some (FileE [7]) else None) ''/a.jpg'' = JStr ''{}''"
  by (rule extract_info_from_image_reply) simp_all

text \<open>
  The newer script's prompt is the older one followed by a stray
  \<open> Some \<close>.
\<close>

lemma prompt_rename_stray_suffix:
  "prompt_rename = prompt_label @ '' Some ''"
  by (simp add: prompt_rename_def prompt_label_def)

text \<open>
  C25: When the service cannot be reached, the older script's extractor raises
  \<open>RequestError\<close> to its caller while the newer one answers with the OCR
  fallback.
\<close>

theorem transport_error_label_vs_rename:
  assumes "fs image_path = Some (FileE data)"
    and "\<And>hs p. chat_api e hs p = TransportError"
  shows "extract_info_from_image_label e fs image_path = Inl RequestError
         \<and> extract_info_from_image e fs image_path = JStr (extract_info_with_tesseract e fs image_path)"
  using assms by (simp add: extract_info_from_image_label_def extract_info_from_image_def vision_request_def
      encode_image_def read_bytes_def)

theorem transport_error_label_vs_rename_witness:
  "extract_info_from_image_label offline_env (\<lambda>p. Some (FileE [7])) ''/a.jpg'' = Inl RequestError
   \<and> extract_info_from_image offline_env (\<lambda>p. Some (FileE [7])) ''/a.jpg'' =
       JStr (extract_info_with_tesseract offline_env (\<lambda>p. Some (FileE [7])) ''/a.jpg'')"
  by (rule transport_error_label_vs_rename) (simp_all add: offline_env_def)

end
