(* ===== verification/Pdf.thy ===== *)
theory Pdf
  imports Vision
begin

text \<open>
  The PDF page extractor: \<open>extract_info_from_pdf\<close> of both scripts
  (\<open>src/rename_invoices.py\<close> lines 80--108, \<open>src/label_invoices.py\<close>
  lines 49--56). The newer one renders every page to the temporary file
  \<open>temp_image_<n>.jpg\<close> of the working directory, asks the vision extractor
  about it, decodes its answer and removes the file; the loop's state is the
  file system, the variable \<open>temp_image_path\<close> and the list \<open>all_info\<close>,
  gathered in a record. An exception leaves the loop with the state it had
  reached; the handler then runs the OCR fallback on the current temporary
  file, if there is one, and the \<open>finally\<close> clause removes that file. The
  per-page answers are merged field by field, the first truthy value winning,
  with Python's short-circuit \<open>and\<close>. The older one looks at the first page only,
  through a temporary path it is given, and lets every exception propagate.
\<close>

record pdf_state =
  pfs :: fs
  temp_image_path :: "path option"
  all_info :: "json list"

definition temp_name :: "nat \<Rightarrow> path" where
  "temp_name n = ''temp_image_'' @ dec_str n @ ''.jpg''"

text \<open>
  One iteration of the page loop (lines 86--92). An exception is returned
  with the state at the point where it was raised.
\<close>

definition page_step :: "env \<Rightarrow> nat \<Rightarrow> bytes option \<Rightarrow> pdf_state \<Rightarrow> (py_error \<times> pdf_state) + pdf_state" where
  "page_step e n pix st =
     (case pix of
        None \<Rightarrow> Inl (PdfError, st)
      | Some img \<Rightarrow>
          (let st1 = st\<lparr>temp_image_path := Some (temp_name n)\<rparr>;
               p = resolve e (temp_name n) in
           case write_bytes (pfs st1) p img of
             Inl err \<Rightarrow> Inl (err, st1)
           | Inr fs1 \<Rightarrow>
               (let st2 = st1\<lparr>pfs := fs1\<rparr> in
                case loads_value (extract_info_from_image e fs1 p) of
                  Inl err \<Rightarrow> Inl (err, st2)
                | Inr info \<Rightarrow>
                    (let st3 = st2\<lparr>all_info := all_info st2 @ [info]\<rparr> in
                     case remove_file fs1 p of
                       Inl err \<Rightarrow> Inl (err, st3)
                     | Inr fs2 \<Rightarrow> Inr (st3\<lparr>pfs := fs2, temp_image_path := None\<rparr>)))))"

text \<open>\<open>for page in doc\<close>: pages are numbered from \<open>n\<close>.\<close>

fun page_loop :: "env \<Rightarrow> nat \<Rightarrow> bytes option list \<Rightarrow> pdf_state \<Rightarrow> (py_error \<times> pdf_state) + pdf_state" where
  "page_loop e n [] st = Inr st"
| "page_loop e n (pix # pixs) st =
     (case page_step e n pix st of
        Inl err \<Rightarrow> Inl err
      | Inr st' \<Rightarrow> page_loop e (Suc n) pixs st')"

text \<open>
  One iteration of the merge (lines 95--99): \<open>info[key]\<close> is only evaluated
  when the combined field is still falsy.
\<close>

definition merge_field :: "json \<Rightarrow> json \<Rightarrow> string \<Rightarrow> json result" where
  "merge_field current info key =
     (if truthy current then Inr current
      else bindE (getitem info key) (\<lambda>v. Inr (if truthy v then v else current)))"

definition merge_info :: "json \<times> json \<Rightarrow> json \<Rightarrow> (json \<times> json) result" where
  "merge_info combined info =
     bindE (merge_field (fst combined) info ''company_name'') (\<lambda>company_name.
       bindE (merge_field (snd combined) info ''amount'') (\<lambda>amount. Inr (company_name, amount)))"

fun merge_infos :: "json \<times> json \<Rightarrow> json list \<Rightarrow> (json \<times> json) result" where
  "merge_infos combined [] = Inr combined"
| "merge_infos combined (info # infos) = bindE (merge_info combined info) (\<lambda>c. merge_infos c infos)"

definition combined_json :: "json \<times> json \<Rightarrow> json" where
  "combined_json combined = JObj [(''company_name'', fst combined), (''amount'', snd combined)]"

text \<open>The \<open>try\<close> block (lines 83--100), with the state reached when it raises.\<close>

definition pdf_body :: "env \<Rightarrow> fs \<Rightarrow> path \<Rightarrow> (py_error \<times> pdf_state) + (string \<times> pdf_state)" where
  "pdf_body e fs pdf_path =
     (let st0 = \<lparr>pfs = fs, temp_image_path = None, all_info = []\<rparr> in
      case read_bytes fs pdf_path of
        Inl err \<Rightarrow> Inl (err, st0)
      | Inr data \<Rightarrow>
          (case pdf_pages e data of
             None \<Rightarrow> Inl (PdfError, st0)
           | Some pixs \<Rightarrow>
               (case page_loop e 0 pixs st0 of
                  Inl err \<Rightarrow> Inl err
                | Inr st \<Rightarrow>
                    (case merge_infos (JStr [], JStr []) (all_info st) of
                       Inl err \<Rightarrow> Inl (err, st)
                     | Inr combined \<Rightarrow> Inr (dumps (combined_json combined), st)))))"

text \<open>
  The \<open>finally\<close> clause (lines 106--108); \<open>os.remove\<close> of a directory raises,
  and that exception replaces the function's result.
\<close>

definition pdf_finally :: "env \<Rightarrow> pdf_state \<Rightarrow> string \<Rightarrow> string result \<times> fs" where
  "pdf_finally e st r =
     (case temp_image_path st of
        Some t \<Rightarrow>
          if path_exists (pfs st) (resolve e t) then
            (case remove_file (pfs st) (resolve e t) of
               Inl err \<Rightarrow> (Inl err, pfs st)
             | Inr fs' \<Rightarrow> (Inr r, fs'))
          else (Inr r, pfs st)
      | None \<Rightarrow> (Inr r, pfs st))"

text \<open>\<open>rename_invoices.extract_info_from_pdf\<close>: the result and the file system after it.\<close>

definition extract_info_from_pdf :: "env \<Rightarrow> fs \<Rightarrow> path \<Rightarrow> string result \<times> fs" where
  "extract_info_from_pdf e fs pdf_path =
     (case pdf_body e fs pdf_path of
        Inr (r, st) \<Rightarrow> pdf_finally e st r
      | Inl (_, st) \<Rightarrow>
          (case temp_image_path st of
             Some t \<Rightarrow> pdf_finally e st (extract_info_with_tesseract e (pfs st) (resolve e t))
           | None \<Rightarrow> pdf_finally e st (dumps (info_json '''' ''''))))"

text \<open>
  \<open>label_invoices.extract_info_from_pdf\<close>: first page only; an exception
  propagates with the file system as it was left.
\<close>

definition extract_info_from_pdf_label :: "env \<Rightarrow> fs \<Rightarrow> path \<Rightarrow> path \<Rightarrow> json result \<times> fs" where
  "extract_info_from_pdf_label e fs pdf_path temp_path =
     (case read_bytes fs pdf_path of
        Inl err \<Rightarrow> (Inl err, fs)
      | Inr data \<Rightarrow>
          (case pdf_pages e data of
             None \<Rightarrow> (Inl PdfError, fs)
           | Some [] \<Rightarrow> (Inl IndexError, fs)
           | Some (None # _) \<Rightarrow> (Inl PdfError, fs)
           | Some (Some img # _) \<Rightarrow>
               (case write_bytes fs temp_path img of
                  Inl err \<Rightarrow> (Inl err, fs)
                | Inr fs1 \<Rightarrow>
                    (case extract_info_from_image_label e fs1 temp_path of
                       Inl err \<Rightarrow> (Inl err, fs1)
                     | Inr info \<Rightarrow>
                         (case remove_file fs1 temp_path of
                            Inl err \<Rightarrow> (Inl err, fs1)
                          | Inr fs2 \<Rightarrow> (Inr info, fs2))))))"

text \<open>
  The reference behaviour of the merge, as the specification states it: for
  each field, the first non-empty value in page order.
\<close>

fun first_nonempty :: "string list \<Rightarrow> string" where
  "first_nonempty [] = []"
| "first_nonempty (x # xs) = (if x \<noteq> [] then x else first_nonempty xs)"

text \<open>
  The invariant of the page loop: either no temporary file is pending and the
  file system is the initial one, or one page's temporary file is pending and
  the file system is the initial one with that file added.
\<close>

definition temp_inv :: "env \<Rightarrow> fs \<Rightarrow> nat \<Rightarrow> pdf_state \<Rightarrow> bool" where
  "temp_inv e fs n st \<longleftrightarrow>
     (temp_image_path st = None \<and> pfs st = fs)
     \<or> (\<exists>k b. n \<le> k \<and> temp_image_path st = Some (temp_name k) \<and> pfs st = fs(resolve e (temp_name k) \<mapsto> FileE b))"

text \<open>
  Scenario data for the witnesses: a two-page invoice in \<open>/w\<close>, whose first
  page yields only the amount and whose second yields only the company; the
  same invoice with a user file at \<open>temp_image_0.jpg\<close>; and a service whose
  answer for the second page is wrapped in a Markdown fence.
\<close>

definition two_page_env :: env where
  "two_page_env =
     offline_env\<lparr>cwd := ''/w'',
       pdf_pages := (\<lambda>_. Some [Some [1], Some [2]]),
       chat_api := (\<lambda>_ pl. if pl = payload prompt_rename (b64encode [1])
                            then HttpBody (dumps (chat_reply (dumps (info_json '''' ''10.00''))))
                            else HttpBody (dumps (chat_reply (dumps (info_json ''ACME'' ''''))))) \<rparr>"

definition two_page_answer :: "bytes \<Rightarrow> string \<times> string" where
  "two_page_answer img = (if img = [1] then ('''', ''10.00'') else (''ACME'', ''''))"

definition two_page_fs :: fs where
  "two_page_fs = (\<lambda>p. if p = ''/w'' then Some DirE else if p = ''/w/inv.pdf'' then Some (FileE [0]) else None)"

definition clobber_fs :: fs where
  "clobber_fs = two_page_fs(''/w/temp_image_0.jpg'' \<mapsto> FileE [9])"

definition fenced_page_env :: env where
  "fenced_page_env =
     two_page_env\<lparr>chat_api := (\<lambda>_ pl. if pl = payload prompt_rename (b64encode [1])
                                     then HttpBody (dumps (chat_reply (dumps (info_json ''ACME'' ''10.00''))))
                                     else HttpBody (dumps (chat_reply fenced_content)))\<rparr>"

subsection \<open>Lemmas on the page loop and the merge\<close>

lemma temp_name_plain: "temp_name n \<noteq> [] \<and> CHR ''/'' \<notin> set (temp_name n)"
  using dec_str_no_slash[of n] by (simp add: temp_name_def)

lemma resolve_temp_name_inj: "resolve e (temp_name k) = resolve e (temp_name 0) \<Longrightarrow> k = 0"
proof -
  assume eq: "resolve e (temp_name k) = resolve e (temp_name 0)"
  have hd: "\<And>n. hd (temp_name n) \<noteq> CHR ''/''" by (simp add: temp_name_def)
  have "temp_name k = temp_name 0"
    using eq temp_name_plain[of k] temp_name_plain[of 0] hd[of k] hd[of 0]
    by (auto simp: resolve_def path_join_def split: if_splits)
  then show ?thesis by (simp add: temp_name_def dec_str_eq_0)
qed

lemma merge_info_strings:
  "merge_info (JStr c0, JStr a0) (info_json c a) =
     Inr (JStr (if c0 \<noteq> [] then c0 else c), JStr (if a0 \<noteq> [] then a0 else a))"
  by (simp add: merge_info_def merge_field_def info_json_def getitem_def)

lemma merge_infos_strings:
  "merge_infos (JStr c0, JStr a0) (map (\<lambda>(c, a). info_json c a) ps) =
     Inr (JStr (first_nonempty (c0 # map fst ps)), JStr (first_nonempty (a0 # map snd ps)))"
proof (induction ps arbitrary: c0 a0)
  case Nil
  then show ?case by simp
next
  case (Cons p ps)
  then show ?case by (cases p) (auto simp: merge_info_strings)
qed

lemma merge_info_filled: "truthy c \<Longrightarrow> truthy a \<Longrightarrow> merge_info (c, a) info = Inr (c, a)"
  by (simp add: merge_info_def merge_field_def)

lemma page_step_ok:
  assumes "temp_image_path st = None"
    and "pfs st (resolve e (temp_name n)) = None"
    and "cwd_ok e (pfs st)"
    and "chat_api e (headers e) (payload prompt_rename (b64encode img)) =
           HttpBody (dumps (chat_reply (dumps (info_json c a))))"
  shows "page_step e n (Some img) st = Inr (st\<lparr>all_info := all_info st @ [info_json c a]\<rparr>)"
proof -
  define p where "p = resolve e (temp_name n)"
  have w: "write_bytes (pfs st) p img = Inr ((pfs st)(p \<mapsto> FileE img))"
    using assms(2,3) temp_name_plain[of n] by (simp add: p_def write_bytes_fresh dirname_resolve)
  have x: "extract_info_from_image e ((pfs st)(p \<mapsto> FileE img)) p = JStr (dumps (info_json c a))"
    using vision_request_reply[of "(pfs st)(p \<mapsto> FileE img)" p img e prompt_rename] assms(4)
    by (simp add: extract_info_from_image_def)
  have r: "((pfs st)(p := None)) = pfs st" using assms(2) by (simp add: p_def fun_upd_idem)
  show ?thesis
    using assms(1) w x r
    by (cases st) (simp add: page_step_def p_def[symmetric] loads_value_def remove_file_written)
qed

lemma page_loop_ok:
  assumes "temp_image_path st = None" and "cwd_ok e (pfs st)"
    and "\<forall>k < length imgs. pfs st (resolve e (temp_name (n + k))) = None"
    and "\<forall>img \<in> set imgs. chat_api e (headers e) (payload prompt_rename (b64encode img)) =
           HttpBody (dumps (chat_reply (dumps (info_json (fst (answer img)) (snd (answer img))))))"
  shows "page_loop e n (map Some imgs) st =
           Inr (st\<lparr>all_info := all_info st @ map (\<lambda>img. info_json (fst (answer img)) (snd (answer img))) imgs\<rparr>)"
  using assms
proof (induction imgs arbitrary: n st)
  case Nil
  then show ?case by simp
next
  case (Cons img imgs)
  have step: "page_step e n (Some img) st =
                Inr (st\<lparr>all_info := all_info st @ [info_json (fst (answer img)) (snd (answer img))]\<rparr>)"
    using Cons.prems(3)[rule_format, of 0] Cons.prems by (intro page_step_ok) simp_all
  have "\<forall>k < length imgs. pfs st (resolve e (temp_name (Suc n + k))) = None"
    using Cons.prems(3) by auto
  then show ?case
    using Cons.IH[of "st\<lparr>all_info := all_info st @ [info_json (fst (answer img)) (snd (answer img))]\<rparr>" "Suc n"]
      Cons.prems step by simp
qed

lemma page_step_frame:
  assumes "page_step e n pix st = Inr st' \<or> page_step e n pix st = Inl (err, st')"
    and "q \<noteq> resolve e (temp_name n)"
  shows "pfs st' q = pfs st q
         \<and> (temp_image_path st' = temp_image_path st \<or> temp_image_path st' = Some (temp_name n)
            \<or> temp_image_path st' = None)"
  using assms
  by (auto simp: page_step_def Let_def write_bytes_def remove_file_def
      split: option.splits sum.splits fentry.splits if_splits)

lemma page_step_Inr_temp: "page_step e n pix st = Inr st' \<Longrightarrow> temp_image_path st' = None"
  by (auto simp: page_step_def Let_def split: option.splits sum.splits)

lemma page_loop_frame:
  assumes "page_loop e n pixs st = Inr st' \<or> page_loop e n pixs st = Inl (err, st')"
    and "temp_image_path st = None" and "\<forall>k \<ge> n. q \<noteq> resolve e (temp_name k)"
  shows "pfs st' q = pfs st q \<and> (temp_image_path st' = None \<or> (\<exists>k \<ge> n. temp_image_path st' = Some (temp_name k)))"
  using assms
proof (induction pixs arbitrary: n st)
  case Nil
  then show ?case by auto
next
  case (Cons pix pixs)
  show ?case
  proof (cases "page_step e n pix st")
    case (Inl r)
    obtain err0 st0 where r: "r = (err0, st0)" by (cases r)
    then have "st' = st0" and "err = err0" using Cons.prems(1) Inl by auto
    then show ?thesis
      using page_step_frame[of e n pix st st0 err0 q] Inl r Cons.prems(2,3) by auto
  next
    case (Inr st1)
    have f: "pfs st1 q = pfs st q" and t: "temp_image_path st1 = None"
      using page_step_frame[of e n pix st st1 err q] page_step_Inr_temp[of e n pix st st1] Inr Cons.prems(3)
      by auto
    have "page_loop e (Suc n) pixs st1 = Inr st' \<or> page_loop e (Suc n) pixs st1 = Inl (err, st')"
      using Cons.prems(1) Inr by simp
    moreover have "\<forall>k \<ge> Suc n. q \<noteq> resolve e (temp_name k)" using Cons.prems(3) by auto
    ultimately have "pfs st' q = pfs st1 q
        \<and> (temp_image_path st' = None \<or> (\<exists>k \<ge> Suc n. temp_image_path st' = Some (temp_name k)))"
      using Cons.IH[of "Suc n" st1] t by blast
    then show ?thesis using f by (metis Suc_leD)
  qed
qed

lemma pdf_finally_frame: "snd (pdf_finally e st r) q = pfs st q \<or> snd (pdf_finally e st r) q = None"
  by (auto simp: pdf_finally_def remove_file_def split: option.splits sum.splits fentry.splits)

lemma pdf_finally_removes:
  "temp_image_path st = Some t \<Longrightarrow> pfs st (resolve e t) = Some (FileE b) \<Longrightarrow>
   snd (pdf_finally e st r) (resolve e t) = None"
  by (simp add: pdf_finally_def path_exists_def remove_file_def)

lemma extract_info_from_pdf_finally:
  "(\<exists>r. pdf_body e fs pdf_path = Inr (r, st)) \<or> (\<exists>err. pdf_body e fs pdf_path = Inl (err, st)) \<Longrightarrow>
   \<exists>r'. extract_info_from_pdf e fs pdf_path = pdf_finally e st r'"
  by (auto simp: extract_info_from_pdf_def split: option.splits)

lemma page_step_restores:
  assumes "page_step e n pix st = Inr st' \<or> page_step e n pix st = Inl (err, st')"
    and "temp_image_path st = None" and "pfs st = fs" and "cwd_ok e fs"
    and "fs (resolve e (temp_name n)) = None"
  shows "temp_inv e fs n st' \<and> (page_step e n pix st = Inr st' \<longrightarrow> temp_image_path st' = None \<and> pfs st' = fs)"
proof -
  have w: "\<And>img. write_bytes fs (resolve e (temp_name n)) img = Inr (fs(resolve e (temp_name n) \<mapsto> FileE img))"
    using assms(4,5) temp_name_plain[of n] by (simp add: write_bytes_fresh dirname_resolve)
  have r: "fs(resolve e (temp_name n) := None) = fs" using assms(5) by (simp add: fun_upd_idem)
  show ?thesis
  proof (cases pix)
    case None
    then show ?thesis using assms(1-3) by (auto simp: page_step_def temp_inv_def)
  next
    case (Some img)
    show ?thesis
    proof (cases "loads_value (extract_info_from_image e (fs(resolve e (temp_name n) \<mapsto> FileE img)) (resolve e (temp_name n)))")
      case (Inl err')
      then have "st' = st\<lparr>temp_image_path := Some (temp_name n), pfs := fs(resolve e (temp_name n) \<mapsto> FileE img)\<rparr>"
        and "page_step e n pix st \<noteq> Inr st'"
        using assms(1,3) w Some by (auto simp: page_step_def Let_def)
      then show ?thesis by (auto simp: temp_inv_def)
    next
      case (Inr info)
      then have "page_step e n pix st = Inr (st\<lparr>all_info := all_info st @ [info]\<rparr>)"
        using assms(2,3) w r Some by (cases st) (simp add: page_step_def Let_def remove_file_written)
      then show ?thesis using assms(1,2,3) by (auto simp: temp_inv_def)
    qed
  qed
qed

lemma temp_inv_Suc: "temp_inv e fs (Suc n) st \<Longrightarrow> temp_inv e fs n st"
  unfolding temp_inv_def by (metis Suc_leD)

lemma page_loop_restores:
  assumes "page_loop e n pixs st = Inr st' \<or> page_loop e n pixs st = Inl (err, st')"
    and "temp_image_path st = None" and "pfs st = fs" and "cwd_ok e fs"
    and "\<forall>k \<ge> n. fs (resolve e (temp_name k)) = None"
  shows "temp_inv e fs n st' \<and> (page_loop e n pixs st = Inr st' \<longrightarrow> temp_image_path st' = None \<and> pfs st' = fs)"
  using assms
proof (induction pixs arbitrary: n st)
  case Nil
  then show ?case by (auto simp: temp_inv_def)
next
  case (Cons pix pixs)
  show ?case
  proof (cases "page_step e n pix st")
    case (Inl r)
    then obtain st0 where "r = (err, st0)" and "st' = st0" using Cons.prems(1) by auto
    then show ?thesis using page_step_restores[of e n pix st st' err fs] Cons.prems Inl by auto
  next
    case (Inr st1)
    have st1: "temp_image_path st1 = None \<and> pfs st1 = fs"
      using page_step_restores[of e n pix st st1 err fs] Cons.prems Inr by auto
    have "page_loop e (Suc n) pixs st1 = Inr st' \<or> page_loop e (Suc n) pixs st1 = Inl (err, st')"
      using Cons.prems(1) Inr by simp
    then have "temp_inv e fs (Suc n) st' \<and> (page_loop e (Suc n) pixs st1 = Inr st' \<longrightarrow> temp_image_path st' = None \<and> pfs st' = fs)"
      using Cons.IH[of "Suc n" st1] st1 Cons.prems(4,5) by auto
    then show ?thesis using Inr temp_inv_Suc by simp
  qed
qed

lemma pdf_finally_restores:
  "temp_inv e fs n st \<Longrightarrow> \<forall>k. fs (resolve e (temp_name k)) = None \<Longrightarrow> snd (pdf_finally e st r) = fs"
  by (auto simp: temp_inv_def pdf_finally_def path_exists_def remove_file_def fun_upd_idem)

text \<open>Evaluated names and encodings of the scenario.\<close>

lemma b64encode_page1: "b64encode [1] = ''AQ==''" by code_simp
lemma b64encode_page2: "b64encode [2] = ''Ag==''" by code_simp
lemma temp_path_0: "path_join ''/w'' (temp_name 0) = ''/w/temp_image_0.jpg''"
  by (simp add: path_join_def temp_name_def char_of_def bit_simps)

lemma temp_path_1: "path_join ''/w'' (temp_name (Suc 0)) = ''/w/temp_image_1.jpg''"
  by (simp add: path_join_def temp_name_def char_of_def bit_simps)

subsection \<open>Properties of the PDF extractor\<close>

text \<open>
  C4: When the PDF opens, every page renders, no temporary file of the working
  directory exists yet and the service answers each page with two strings, the
  newer extractor returns the JSON of the first non-empty company and the first
  non-empty amount in page order, and leaves the file system as it found it.
\<close>

theorem extract_info_from_pdf_success:
  assumes "fs pdf_path = Some (FileE data)" and "pdf_pages e data = Some (map Some imgs)"
    and "cwd_ok e fs"
    and "\<forall>k < length imgs. fs (resolve e (temp_name k)) = None"
    and "\<forall>img \<in> set imgs. chat_api e (headers e) (payload prompt_rename (b64encode img)) =
           HttpBody (dumps (chat_reply (dumps (info_json (fst (answer img)) (snd (answer img))))))"
  shows "extract_info_from_pdf e fs pdf_path =
           (Inr (dumps (info_json (first_nonempty (map (fst \<circ> answer) imgs))
                                  (first_nonempty (map (snd \<circ> answer) imgs)))), fs)"
proof -
  let ?st0 = "\<lparr>pfs = fs, temp_image_path = None, all_info = []\<rparr>"
  have loop: "page_loop e 0 (map Some imgs) ?st0 =
                Inr (?st0\<lparr>all_info := map (\<lambda>img. info_json (fst (answer img)) (snd (answer img))) imgs\<rparr>)"
    using page_loop_ok[of ?st0 e imgs 0 answer] assms(3-5) by simp
  have merge: "merge_infos (JStr [], JStr []) (map (\<lambda>img. info_json (fst (answer img)) (snd (answer img))) imgs) =
                 Inr (JStr (first_nonempty (map (fst \<circ> answer) imgs)), JStr (first_nonempty (map (snd \<circ> answer) imgs)))"
    using merge_infos_strings[of "[]" "[]" "map answer imgs"] by (simp add: case_prod_beta' comp_def)
  show ?thesis
    using assms(1,2) loop merge
    by (simp add: extract_info_from_pdf_def pdf_body_def read_bytes_def pdf_finally_def combined_json_def info_json_def)
qed

theorem extract_info_from_pdf_success_witness:
  "extract_info_from_pdf two_page_env two_page_fs ''/w/inv.pdf'' = (Inr (dumps (info_json ''ACME'' ''10.00'')), two_page_fs)"
proof -
  have "extract_info_from_pdf two_page_env two_page_fs ''/w/inv.pdf'' =
     (Inr (dumps (info_json (first_nonempty (map (fst \<circ> two_page_answer) [[1], [2 :: byte]]))
                            (first_nonempty (map (snd \<circ> two_page_answer) [[1], [2 :: byte]])))),
      two_page_fs)"
    apply (rule extract_info_from_pdf_success[where data = "[0]"])
    subgoal by (simp add: two_page_fs_def)
    subgoal by (simp add: two_page_env_def offline_env_def)
    subgoal by (simp add: cwd_ok_def two_page_env_def offline_env_def dir_ok_def two_page_fs_def)
    subgoal by (simp add: two_page_env_def offline_env_def resolve_def path_join_def temp_name_def two_page_fs_def
         less_Suc_eq numeral_2_eq_2 char_of_def bit_simps)
    subgoal by (simp add: two_page_env_def offline_env_def b64encode_page1 b64encode_page2 payload_def two_page_answer_def del: b64encode.simps)
    done
  then show ?thesis by (simp add: two_page_answer_def)
qed

text \<open>
  C6: On per-page answers that carry both fields as strings, the merge loop of
  lines 94--99 computes the reference: the first non-empty value of each field.
\<close>

theorem merge_first_nonempty:
  "merge_infos (JStr [], JStr []) (map (\<lambda>(c, a). info_json c a) ps) =
     Inr (JStr (first_nonempty (map fst ps)), JStr (first_nonempty (map snd ps)))"
  using merge_infos_strings[of "[]" "[]" ps] by simp

text \<open>
  C14: Once both combined fields are truthy, the merge never subscripts a later
  page's answer: later pages, well-formed or not, change nothing and raise
  nothing (the short-circuit of \<open>and\<close>).
\<close>

theorem merge_stops_when_filled:
  "truthy company_name \<Longrightarrow> truthy amount \<Longrightarrow> merge_infos (company_name, amount) infos = Inr (company_name, amount)"
  by (induction infos) (simp_all add: merge_info_filled)

theorem merge_stops_when_filled_witness:
  "merge_infos (JStr ''ACME'', JStr ''9.50'') [JObj [], JNull] = Inr (JStr ''ACME'', JStr ''9.50'')"
  by (rule merge_stops_when_filled) simp_all

text \<open>
  C18: A user's file named \<open>temp_image_0.jpg\<close> in the working directory is
  destroyed by the extraction of any PDF whose first page renders, whatever the
  service, the OCR engine and the later pages do.
\<close>

theorem temp_file_clobbered:
  assumes "fs pdf_path = Some (FileE data)" and "pdf_pages e data = Some (Some img # pixs)"
    and "fs (resolve e (temp_name 0)) = Some (FileE user_data)" and "cwd_ok e fs"
  shows "snd (extract_info_from_pdf e fs pdf_path) (resolve e (temp_name 0)) = None"
proof -
  define p0 where "p0 = resolve e (temp_name 0)"
  define st0 where "st0 = \<lparr>pfs = fs, temp_image_path = None, all_info = []\<rparr>"
  have w: "write_bytes fs p0 img = Inr (fs(p0 \<mapsto> FileE img))"
    using assms(3,4) temp_name_plain[of 0] by (simp add: p0_def write_bytes_def dirname_resolve)
  have body: "pdf_body e fs pdf_path =
                (case page_loop e 0 (Some img # pixs) st0 of
                   Inl err \<Rightarrow> Inl err
                 | Inr st \<Rightarrow> (case merge_infos (JStr [], JStr []) (all_info st) of
                               Inl err \<Rightarrow> Inl (err, st)
                             | Inr c \<Rightarrow> Inr (dumps (combined_json c), st)))"
    using assms(1,2) by (simp add: pdf_body_def read_bytes_def st0_def)
  show ?thesis
  proof (cases "loads_value (extract_info_from_image e (fs(p0 \<mapsto> FileE img)) p0)")
    case (Inl err)
    let ?st = "st0\<lparr>temp_image_path := Some (temp_name 0), pfs := fs(p0 \<mapsto> FileE img)\<rparr>"
    have "pdf_body e fs pdf_path = Inl (err, ?st)"
      using body w Inl by (simp add: page_step_def p0_def[symmetric] st0_def)
    then obtain r where "extract_info_from_pdf e fs pdf_path = pdf_finally e ?st r"
      using extract_info_from_pdf_finally by blast
    then show ?thesis using pdf_finally_removes[of ?st "temp_name 0" e img] by (simp add: p0_def)
  next
    case (Inr info)
    let ?st1 = "st0\<lparr>pfs := fs(p0 := None), all_info := [info]\<rparr>"
    have step: "page_step e 0 (Some img) st0 = Inr ?st1"
      using w Inr by (simp add: page_step_def p0_def[symmetric] st0_def remove_file_written)
    have far: "\<forall>k \<ge> Suc 0. p0 \<noteq> resolve e (temp_name k)"
    proof (intro allI impI)
      fix k :: nat assume "Suc 0 \<le> k"
      then show "p0 \<noteq> resolve e (temp_name k)"
        using resolve_temp_name_inj[of e k] unfolding p0_def by fastforce
    qed
    obtain st where st: "page_loop e (Suc 0) pixs ?st1 = Inr st \<or> (\<exists>err. page_loop e (Suc 0) pixs ?st1 = Inl (err, st))"
      by (cases "page_loop e (Suc 0) pixs ?st1") auto
    then have fst: "pfs st p0 = None"
      using page_loop_frame[of e "Suc 0" pixs ?st1 st _ p0] far by (auto simp: st0_def)
    have "(\<exists>r. pdf_body e fs pdf_path = Inr (r, st))
          \<or> (\<exists>err. pdf_body e fs pdf_path = Inl (err, st))"
      using body step st by (auto split: sum.splits)
    then obtain r where "extract_info_from_pdf e fs pdf_path = pdf_finally e st r"
      using extract_info_from_pdf_finally by blast
    then show ?thesis using pdf_finally_frame[of e st r p0] fst by (auto simp: p0_def)
  qed
qed

theorem temp_file_clobbered_witness:
  "snd (extract_info_from_pdf two_page_env clobber_fs ''/w/inv.pdf'') ''/w/temp_image_0.jpg'' = None"
  using temp_file_clobbered[of clobber_fs "''/w/inv.pdf''" "[0]" two_page_env "[1]" "[Some [2]]" "[9]"]
  by (simp add: resolve_def temp_path_0 clobber_fs_def two_page_fs_def two_page_env_def offline_env_def cwd_ok_def dir_ok_def)

text \<open>
  C21: When a later page's answer is not JSON, whatever that answer is, the
  answers of the earlier pages are discarded: the result is the OCR fallback on
  the failing page alone, with the file system restored.
\<close>

theorem pdf_json_error_keeps_only_failing_page:
  assumes "fs pdf_path = Some (FileE data)" and "pdf_pages e data = Some [Some img1, Some img2]"
    and "cwd_ok e fs"
    and "fs (resolve e (temp_name 0)) = None" and "fs (resolve e (temp_name 1)) = None"
    and "chat_api e (headers e) (payload prompt_rename (b64encode img1)) =
           HttpBody (dumps (chat_reply (dumps (info_json company_name amount))))"
    and "chat_api e (headers e) (payload prompt_rename (b64encode img2)) = HttpBody (dumps (chat_reply content))"
    and "loads content = Inl err"
  shows "extract_info_from_pdf e fs pdf_path =
           (Inr (extract_info_with_tesseract e (fs(resolve e (temp_name 1) \<mapsto> FileE img2)) (resolve e (temp_name 1))),
            fs)"
proof -
  define p1 where "p1 = resolve e (temp_name (Suc 0))"
  define st0 where "st0 = \<lparr>pfs = fs, temp_image_path = None, all_info = []\<rparr>"
  have s0: "page_step e 0 (Some img1) st0 = Inr (st0\<lparr>all_info := [info_json company_name amount]\<rparr>)"
    using page_step_ok[of st0 e 0 img1 company_name amount] assms(3,4,6) by (simp add: st0_def)
  have w: "write_bytes fs p1 img2 = Inr (fs(p1 \<mapsto> FileE img2))"
    using assms(3,5) temp_name_plain[of "Suc 0"] by (simp add: p1_def write_bytes_fresh dirname_resolve One_nat_def)
  have x: "extract_info_from_image e (fs(p1 \<mapsto> FileE img2)) p1 = JStr content"
    using vision_request_reply[of "fs(p1 \<mapsto> FileE img2)" p1 img2 e prompt_rename content] assms(7)
    by (simp add: extract_info_from_image_def)
  let ?st = "st0\<lparr>all_info := [info_json company_name amount], temp_image_path := Some (temp_name (Suc 0)),
                 pfs := fs(p1 \<mapsto> FileE img2)\<rparr>"
  have s1: "page_step e (Suc 0) (Some img2) (st0\<lparr>all_info := [info_json company_name amount]\<rparr>) = Inl (err, ?st)"
    using w x assms(8) by (simp add: page_step_def Let_def p1_def[symmetric] st0_def loads_value_def)
  have "pdf_body e fs pdf_path = Inl (err, ?st)"
    using assms(1,2) s0 s1 by (simp add: pdf_body_def read_bytes_def st0_def[symmetric] numeral_2_eq_2)
  moreover have "fs(p1 \<mapsto> FileE img2, p1 := None) = fs" using assms(5) by (simp add: p1_def fun_upd_idem One_nat_def)
  ultimately show ?thesis
    by (simp add: extract_info_from_pdf_def pdf_finally_def path_exists_def remove_file_def st0_def p1_def One_nat_def)
qed

theorem pdf_json_error_keeps_only_failing_page_witness:
  "extract_info_from_pdf fenced_page_env two_page_fs ''/w/inv.pdf'' = (Inr (dumps (info_json '''' '''')), two_page_fs)"
proof -
  have "resolve fenced_page_env (temp_name 1) = ''/w/temp_image_1.jpg''"
    using temp_path_1 by (simp add: resolve_def fenced_page_env_def two_page_env_def offline_env_def)
  moreover have "resolve fenced_page_env (temp_name 0) = ''/w/temp_image_0.jpg''"
    using temp_path_0 by (simp add: resolve_def fenced_page_env_def two_page_env_def offline_env_def)
  ultimately have "extract_info_from_pdf fenced_page_env two_page_fs ''/w/inv.pdf'' =
    (Inr (extract_info_with_tesseract fenced_page_env (two_page_fs(''/w/temp_image_1.jpg'' \<mapsto> FileE [2])) ''/w/temp_image_1.jpg''),
     two_page_fs)"
    using pdf_json_error_keeps_only_failing_page[of two_page_fs "''/w/inv.pdf''" "[0]" fenced_page_env "[1]" "[2]" "''ACME''" "''10.00''" fenced_content JSONDecodeError]
    by (simp add: two_page_fs_def fenced_page_env_def two_page_env_def offline_env_def cwd_ok_def dir_ok_def
        b64encode_page1 b64encode_page2 payload_def loads_fenced_content del: b64encode.simps)
  then show ?thesis
    by (simp add: extract_info_with_tesseract_def tesseract_fields_def read_bytes_def fenced_page_env_def
        two_page_env_def offline_env_def)
qed

text \<open>
  C26: In the older script, a transport error on the first page leaves the rendered
  page at the temporary path (inside the invoice folder) and propagates.
\<close>

theorem label_pdf_leaves_temp_file:
  assumes "fs pdf_path = Some (FileE data)" and "pdf_pages e data = Some (Some img # pixs)"
    and "fs temp_path = None" and "dir_ok fs (dirname temp_path)"
    and "chat_api e (headers e) (payload prompt_label (b64encode img)) = TransportError"
  shows "extract_info_from_pdf_label e fs pdf_path temp_path = (Inl RequestError, fs(temp_path \<mapsto> FileE img))"
  using assms
  by (simp add: extract_info_from_pdf_label_def read_bytes_def write_bytes_fresh extract_info_from_image_label_def
      vision_request_def encode_image_def)

theorem label_pdf_leaves_temp_file_witness:
  "extract_info_from_pdf_label (offline_env\<lparr>pdf_pages := (\<lambda>_. Some [Some [1]])\<rparr>)
     (\<lambda>p. if p = ''/inv'' then Some DirE else if p = ''/inv/a.pdf'' then Some (FileE [0]) else None)
     ''/inv/a.pdf'' ''/inv/temp_image.jpg'' =
   (Inl RequestError,
    (\<lambda>p. if p = ''/inv'' then Some DirE else if p = ''/inv/a.pdf'' then Some (FileE [0]) else None)
      (''/inv/temp_image.jpg'' \<mapsto> FileE [1]))"
  by (rule label_pdf_leaves_temp_file) (simp_all add: offline_env_def dirname_def dir_ok_def)

text \<open>
  C5: The \<open>finally\<close> clause keeps its promise: when the working directory
  holds no file of the temporary names, extracting a PDF leaves the file
  system exactly as it was, on every path of success or failure.
\<close>

theorem pdf_extraction_restores_fs:
  assumes "cwd_ok e fs" and "\<forall>k. fs (resolve e (temp_name k)) = None"
  shows "snd (extract_info_from_pdf e fs pdf_path) = fs"
proof -
  let ?st0 = "\<lparr>pfs = fs, temp_image_path = None, all_info = []\<rparr>"
  obtain st where body: "(\<exists>r. pdf_body e fs pdf_path = Inr (r, st)) \<or> (\<exists>err. pdf_body e fs pdf_path = Inl (err, st))"
    by (cases "pdf_body e fs pdf_path") auto
  have "temp_inv e fs 0 st"
  proof (cases "\<exists>data pixs. read_bytes fs pdf_path = Inr data \<and> pdf_pages e data = Some pixs")
    case True
    then obtain data pixs where d: "read_bytes fs pdf_path = Inr data" "pdf_pages e data = Some pixs" by blast
    obtain st' where loop: "page_loop e 0 pixs ?st0 = Inr st' \<or> (\<exists>err. page_loop e 0 pixs ?st0 = Inl (err, st'))"
      by (cases "page_loop e 0 pixs ?st0") auto
    have "temp_inv e fs 0 st' \<and> (page_loop e 0 pixs ?st0 = Inr st' \<longrightarrow> temp_image_path st' = None \<and> pfs st' = fs)"
      using loop page_loop_restores[of e 0 pixs ?st0 st' _ fs] assms by auto
    moreover have "st = st'"
      using body d loop by (auto simp: pdf_body_def Let_def split: sum.splits)
    ultimately show ?thesis by simp
  next
    case False
    then have "st = ?st0" using body by (auto simp: pdf_body_def Let_def split: sum.splits option.splits)
    then show ?thesis by (simp add: temp_inv_def)
  qed
  then show ?thesis
    using extract_info_from_pdf_finally[of e fs pdf_path st] body pdf_finally_restores assms(2) by metis
qed

theorem pdf_extraction_restores_fs_witness:
  "snd (extract_info_from_pdf fenced_page_env two_page_fs ''/w/inv.pdf'') = two_page_fs"
  by (rule pdf_extraction_restores_fs)
     (simp_all add: cwd_ok_def fenced_page_env_def two_page_env_def offline_env_def dir_ok_def two_page_fs_def
        resolve_def path_join_def temp_name_def)

end
