(* ===== verification/Materialize.thy ===== *)
theory Materialize
  imports World
begin

text \<open>
  The file materialiser, \<open>rename_and_convert_to_pdf\<close> of both scripts
  (\<open>src/rename_invoices.py\<close> lines 110--117, \<open>src/label_invoices.py\<close>
  lines 58--65), and the extension tests the scripts apply to names
  (\<open>str.lower().endswith(...)\<close>, without a dot). An image is converted with
  Pillow and written over whatever the target holds; a PDF is opened and saved
  only when the target does not exist yet; any other name is left alone.
\<close>

definition image_exts :: "string list" where
  "image_exts = [''png'', ''jpg'', ''jpeg'']"

definition is_image_name :: "string \<Rightarrow> bool" where
  "is_image_name name \<longleftrightarrow> endswith_any (py_lower name) image_exts"

definition is_pdf_name :: "string \<Rightarrow> bool" where
  "is_pdf_name name \<longleftrightarrow> ends_with (py_lower name) ''pdf''"

text \<open>The filter of the newer script's listing (line 125).\<close>

definition is_invoice_name :: "string \<Rightarrow> bool" where
  "is_invoice_name name \<longleftrightarrow> endswith_any (py_lower name) [''png'', ''jpg'', ''jpeg'', ''pdf'']"

definition rename_and_convert_to_pdf :: "env \<Rightarrow> fs \<Rightarrow> path \<Rightarrow> path \<Rightarrow> fs result" where
  "rename_and_convert_to_pdf e fs file_path new_filename =
     (if is_image_name file_path then
        bindE (read_bytes fs file_path) (\<lambda>data.
          (case image_to_pdf e data of
             None \<Rightarrow> Inl ImageError
           | Some pdf \<Rightarrow> write_bytes fs new_filename pdf))
      else if is_pdf_name file_path then
        bindE (read_bytes fs file_path) (\<lambda>data.
          (case pdf_pages e data of
             None \<Rightarrow> Inl PdfError
           | Some _ \<Rightarrow>
               if \<not> path_exists fs new_filename then
                 (case pdf_save e data of
                    None \<Rightarrow> Inl PdfError
                  | Some pdf \<Rightarrow> write_bytes fs new_filename pdf)
               else Inr fs))
      else Inr fs)"

text \<open>
  Scenario data for the witnesses: converters that succeed, and a folder
  holding an invoice and an earlier output of the same name.
\<close>

definition converter_env :: env where
  "converter_env =
     \<lparr>cwd = ''/'', api_key = None, chat_api = (\<lambda>_ _. TransportError),
      pdf_pages = (\<lambda>_. Some [Some [1]]), pdf_save = (\<lambda>b. Some b), image_to_pdf = (\<lambda>_. Some [5]),
      ocr = (\<lambda>_. None), py_str = (\<lambda>_. [])\<rparr>"

definition collision_fs :: fs where
  "collision_fs =
     (\<lambda>p. if p = ''/inv'' \<or> p = ''/inv/processed'' then Some DirE
          else if p = ''/inv/processed/ACME -- 1.pdf'' then Some (FileE [0])
          else if p = ''/inv/b.pdf'' \<or> p = ''/inv/b.png'' then Some (FileE [7]) else None)"

subsection \<open>Lemmas on names\<close>

lemma is_invoice_name_iff: "is_invoice_name name \<longleftrightarrow> is_image_name name \<or> is_pdf_name name"
  by (simp add: is_invoice_name_def is_image_name_def is_pdf_name_def image_exts_def)

lemma is_image_name_append: "is_image_name name \<Longrightarrow> is_image_name (p @ name)"
  by (auto simp: is_image_name_def py_lower_def endswith_any_iff intro: ends_with_append_left[of "map lower_char name" _ "map lower_char p", simplified])

lemma is_pdf_name_append: "is_pdf_name name \<Longrightarrow> is_pdf_name (p @ name)"
  by (auto simp: is_pdf_name_def py_lower_def intro: ends_with_append_left[of "map lower_char name" _ "map lower_char p", simplified])

subsection \<open>Properties of the materialiser\<close>

text \<open>
  C15: A PDF whose canonical name is already taken in the processed folder is
  not written: the earlier file stays, and nothing signals that this invoice
  has no processed copy.
\<close>

theorem pdf_target_kept:
  assumes "is_pdf_name file_path" and "\<not> is_image_name file_path"
    and "fs file_path = Some (FileE data)" and "pdf_pages e data = Some pages"
    and "path_exists fs new_filename"
  shows "rename_and_convert_to_pdf e fs file_path new_filename = Inr fs"
  using assms by (simp add: rename_and_convert_to_pdf_def read_bytes_def)

theorem pdf_target_kept_witness:
  "rename_and_convert_to_pdf converter_env collision_fs ''/inv/b.pdf'' ''/inv/processed/ACME -- 1.pdf'' = Inr collision_fs"
  by (rule pdf_target_kept[where data = "[7]" and pages = "[Some [1]]"])
     (simp_all add: is_pdf_name_def is_image_name_def image_exts_def py_lower_def lower_char_def is_upper_letter_def
        ends_with_def collision_fs_def converter_env_def path_exists_def)

text \<open>
  C16: An image whose canonical name is already taken overwrites the earlier
  processed file: the two collision policies of the materialiser differ.
\<close>

theorem image_target_overwritten:
  assumes "is_image_name file_path" and "fs file_path = Some (FileE data)"
    and "image_to_pdf e data = Some pdf" and "fs new_filename = Some (FileE old)"
    and "dir_ok fs (dirname new_filename)"
  shows "rename_and_convert_to_pdf e fs file_path new_filename = Inr (fs(new_filename \<mapsto> FileE pdf))"
  using assms by (simp add: rename_and_convert_to_pdf_def read_bytes_def write_bytes_def)

theorem image_target_overwritten_witness:
  "rename_and_convert_to_pdf converter_env collision_fs ''/inv/b.png'' ''/inv/processed/ACME -- 1.pdf'' =
     Inr (collision_fs(''/inv/processed/ACME -- 1.pdf'' \<mapsto> FileE [5]))"
  by (rule image_target_overwritten[where data = "[7]" and old = "[0]"])
     (simp_all add: is_image_name_def image_exts_def py_lower_def lower_char_def is_upper_letter_def
        ends_with_def collision_fs_def converter_env_def dir_ok_def dirname_def)

text \<open>
  The extension tests look at the end of the lower-cased name without a
  dot: \<open>scanpdf\<close> counts as a PDF and \<open>holiday-png\<close> as an image, while
  upper case extensions are accepted and a name ending in \<open>.txt\<close> is not.
\<close>

lemma extension_without_dot:
  "is_pdf_name ''scanpdf'' \<and> is_image_name ''holiday-png'' \<and> is_image_name ''SCAN.JPEG''
   \<and> \<not> is_invoice_name ''invoice.pdf.txt''"
  by code_simp

end
