(* ===== verification/Batch.thy ===== *)
theory Batch
  imports Filename Pdf Materialize
begin

text \<open>
  The batch drivers, \<open>process_invoices\<close> of both scripts
  (\<open>src/rename_invoices.py\<close> lines 119--154, \<open>src/label_invoices.py\<close>
  lines 67--93). Both create \<open>raw\<close> and \<open>processed\<close> inside the folder, then
  take the entries of \<open>os.listdir\<close> in the order the operating system gives
  them; that listing is a parameter (\<open>names\<close>), since the file-system model is a
  map and has no enumeration order. Relative paths are resolved against the
  working directory when the file system is accessed; the paths the scripts
  record and print are the unresolved ones.

  The newer driver filters the names by extension and runs each file in its own
  failure boundary: an exception records the path and the loop goes on, with
  the file system as the failing step left it. The older driver lets every
  exception end the run.
\<close>

definition raw_folder :: "path \<Rightarrow> path" where
  "raw_folder folder_path = path_join folder_path ''raw''"

definition processed_folder :: "path \<Rightarrow> path" where
  "processed_folder folder_path = path_join folder_path ''processed''"

subsection \<open>The newer driver\<close>

text \<open>
  Lines 131--136: the extracted text, or \<open>None\<close> for \<open>continue\<close>. The PDF
  extractor may change the file system (temporary files) and may raise from its
  \<open>finally\<close> clause.
\<close>

definition file_info :: "env \<Rightarrow> fs \<Rightarrow> string \<Rightarrow> path \<Rightarrow> (json result \<times> fs) option" where
  "file_info e fs filename file_path =
     (if is_image_name filename then Some (Inr (extract_info_from_image e fs file_path), fs)
      else if is_pdf_name filename then
        (case extract_info_from_pdf e fs file_path of
           (Inl err, fs') \<Rightarrow> Some (Inl err, fs')
         | (Inr info, fs') \<Rightarrow> Some (Inr (JStr info), fs'))
      else None)"

text \<open>
  Lines 138--140: \<open>json.loads(info)\<close>, \<open>info["company_name"].upper()\<close> and
  \<open>info["amount"]\<close>; \<open>.replace\<close> on line 141 needs the amount to be a string.
\<close>

definition info_fields :: "json \<Rightarrow> (string \<times> string) result" where
  "info_fields info =
     bindE (loads_value info) (\<lambda>d.
       bindE (getitem d ''company_name'') (\<lambda>c.
         bindE (str_of c) (\<lambda>company_name.
           bindE (getitem d ''amount'') (\<lambda>a.
             bindE (str_of a) (\<lambda>amount. Inr (company_part_rename company_name, amount))))))"

text \<open>
  The body of the \<open>try\<close> block of lines 130--144 for one listed name:
  \<open>None\<close> for \<open>continue\<close>, otherwise the exception raised with the file
  system at that point, or the file system after the move.
\<close>

definition process_file :: "env \<Rightarrow> path \<Rightarrow> fs \<Rightarrow> string \<Rightarrow> ((py_error \<times> fs) + fs) option" where
  "process_file e folder_path fs filename =
     (let src = resolve e (path_join folder_path filename) in
      case file_info e fs filename src of
        None \<Rightarrow> None
      | Some (Inl err, fs1) \<Rightarrow> Some (Inl (err, fs1))
      | Some (Inr info, fs1) \<Rightarrow>
          Some (case info_fields info of
             Inl err \<Rightarrow> Inl (err, fs1)
           | Inr (company_name, amount) \<Rightarrow>
               (let new_file_path = path_join (processed_folder folder_path) (new_filename company_name amount) in
                case rename_and_convert_to_pdf e fs1 src (resolve e new_file_path) of
                  Inl err \<Rightarrow> Inl (err, fs1)
                | Inr fs2 \<Rightarrow>
                    (case move fs2 src (resolve e (path_join (raw_folder folder_path) filename)) of
                       Inl err \<Rightarrow> Inl (err, fs2)
                     | Inr fs3 \<Rightarrow> Inr fs3))))"

text \<open>
  One iteration of the loop of lines 128--147, on the file system and the list
  \<open>errored_files\<close>: the \<open>except\<close> clause appends the path and keeps the file
  system of the point where the exception was raised.
\<close>

definition file_step :: "env \<Rightarrow> path \<Rightarrow> fs \<times> path list \<Rightarrow> string \<Rightarrow> fs \<times> path list" where
  "file_step e folder_path st filename =
     (case process_file e folder_path (fst st) filename of
        None \<Rightarrow> st
      | Some (Inl (_, fs')) \<Rightarrow> (fs', snd st @ [path_join folder_path filename])
      | Some (Inr fs') \<Rightarrow> (fs', snd st))"

text \<open>
  \<open>process_invoices\<close> of the newer script: the directories, the filtered
  listing, the loop. The result is the file system and \<open>errored_files\<close>; an
  exception of \<open>os.makedirs\<close> ends the call.
\<close>

definition process_invoices :: "env \<Rightarrow> fs \<Rightarrow> path \<Rightarrow> string list \<Rightarrow> (fs \<times> path list) result" where
  "process_invoices e fs folder_path names =
     bindE (makedirs fs (resolve e (raw_folder folder_path))) (\<lambda>fs1.
       bindE (makedirs fs1 (resolve e (processed_folder folder_path))) (\<lambda>fs2.
         Inr (foldl (file_step e folder_path) (fs2, []) (filter is_invoice_name names))))"

text \<open>Lines 149--154: the lines printed after the batch.\<close>

definition summary_lines :: "path list \<Rightarrow> string list" where
  "summary_lines errored_files =
     (if errored_files \<noteq> [] then
        ''\<newline>The following files encountered errors and need examination:'' # errored_files
      else [''\<newline>All files processed successfully!''])"

subsection \<open>The older driver\<close>

text \<open>
  \<open>f"{company_name}"\<close> of a decoded value: a string as it is, \<open>None\<close>,
  \<open>True\<close> and \<open>False\<close> by name, other values by \<open>str()\<close>.
\<close>

definition format_value :: "env \<Rightarrow> json \<Rightarrow> string" where
  "format_value e v =
     (case v of
        JStr s \<Rightarrow> s
      | JNull \<Rightarrow> ''None''
      | JBool b \<Rightarrow> (if b then ''True'' else ''False'')
      | _ \<Rightarrow> py_str e v)"

text \<open>Lines 85--90, the \<open>try\<close> block; its handler re-raises.\<close>

definition label_try :: "env \<Rightarrow> fs \<Rightarrow> path \<Rightarrow> string \<Rightarrow> path \<Rightarrow> json \<Rightarrow> (py_error \<times> fs) + fs" where
  "label_try e fs folder_path filename src info =
     (case bindE (getitem info ''company_name'') (\<lambda>c.
             bindE (getitem info ''amount'') (\<lambda>a.
               bindE (str_of a) (\<lambda>amount. Inr (company_part_label (format_value e c), amount)))) of
        Inl err \<Rightarrow> Inl (err, fs)
      | Inr (company_name, amount) \<Rightarrow>
          (let new_file_path = path_join (processed_folder folder_path) (new_filename company_name amount) in
           case rename_and_convert_to_pdf e fs src (resolve e new_file_path) of
             Inl err \<Rightarrow> Inl (err, fs)
           | Inr fs2 \<Rightarrow>
               (case move fs2 src (resolve e (path_join (raw_folder folder_path) filename)) of
                  Inl err \<Rightarrow> Inl (err, fs2)
                | Inr fs3 \<Rightarrow> Inr fs3)))"

text \<open>One iteration of the loop of lines 74--93.\<close>

definition label_step :: "env \<Rightarrow> path \<Rightarrow> fs \<Rightarrow> string \<Rightarrow> (py_error \<times> fs) + fs" where
  "label_step e folder_path fs filename =
     (let file_path = path_join folder_path filename;
          src = resolve e file_path;
          temp_path = resolve e (path_join folder_path ''temp_image.jpg'') in
      if is_image_name filename then
        (case bindE (extract_info_from_image_label e fs src) loads_value of
           Inl err \<Rightarrow> Inl (err, fs)
         | Inr info \<Rightarrow> label_try e fs folder_path filename src info)
      else if is_pdf_name filename then
        (case extract_info_from_pdf_label e fs src temp_path of
           (Inl err, fs1) \<Rightarrow> Inl (err, fs1)
         | (Inr info, fs1) \<Rightarrow>
             (case loads_value info of
                Inl err \<Rightarrow> Inl (err, fs1)
              | Inr d \<Rightarrow> label_try e fs1 folder_path filename src d))
      else Inr fs)"

fun label_loop :: "env \<Rightarrow> path \<Rightarrow> fs \<Rightarrow> string list \<Rightarrow> (py_error \<times> fs) + fs" where
  "label_loop e folder_path fs [] = Inr fs"
| "label_loop e folder_path fs (filename # names) =
     (case label_step e folder_path fs filename of
        Inl err \<Rightarrow> Inl err
      | Inr fs' \<Rightarrow> label_loop e folder_path fs' names)"

definition process_invoices_label :: "env \<Rightarrow> fs \<Rightarrow> path \<Rightarrow> string list \<Rightarrow> (py_error \<times> fs) + fs" where
  "process_invoices_label e fs folder_path names =
     (case makedirs fs (resolve e (raw_folder folder_path)) of
        Inl err \<Rightarrow> Inl (err, fs)
      | Inr fs1 \<Rightarrow>
          (case makedirs fs1 (resolve e (processed_folder folder_path)) of
             Inl err \<Rightarrow> Inl (err, fs1)
           | Inr fs2 \<Rightarrow> label_loop e folder_path fs2 names))"

subsection \<open>Scenario data\<close>

text \<open>
  A folder \<open>/inv\<close> with its \<open>raw\<close> and \<open>processed\<close> subfolders and one
  image, a service that names its issuer \<open>Acme\<close> for \<open>9.50\<close>; and the same
  folder with two images while the network is down and the OCR engine fails.
\<close>

definition demo_env :: env where
  "demo_env =
     offline_env\<lparr>api_key := Some ''sk'',
       chat_api := (\<lambda>_ _. HttpBody (dumps (chat_reply (dumps (info_json ''Acme'' ''9.50''))))),
       image_to_pdf := (\<lambda>_. Some [5])\<rparr>"

definition demo_fs :: fs where
  "demo_fs =
     (\<lambda>p. if p = ''/inv'' \<or> p = ''/inv/raw'' \<or> p = ''/inv/processed'' then Some DirE
          else if p = ''/inv/a.png'' then Some (FileE [3]) else None)"

definition offline_fs :: fs where
  "offline_fs =
     (\<lambda>p. if p = ''/inv'' \<or> p = ''/inv/raw'' \<or> p = ''/inv/processed'' then Some DirE
          else if p = ''/inv/a.png'' then Some (FileE [1])
          else if p = ''/inv/b.png'' then Some (FileE [2]) else None)"

definition iso_fs :: fs where
  "iso_fs = demo_fs(''/inv/b.png'' \<mapsto> FileE [1])"

subsection \<open>Lemmas on the drivers\<close>

lemma info_fields_info_json:
  "info_fields (JStr (dumps (info_json company_name amount))) = Inr (py_upper company_name, amount)"
  by (simp add: info_fields_def loads_value_def) (simp add: getitem_def info_json_def str_of_def company_part_rename_def)

lemma file_step_errored:
  "snd (file_step e folder_path st filename) = snd st
   \<or> snd (file_step e folder_path st filename) = snd st @ [path_join folder_path filename]"
  by (simp add: file_step_def split: option.splits sum.splits prod.splits)

lemma foldl_file_step_errored:
  "set (snd (foldl (file_step e folder_path) st names)) \<subseteq> set (snd st) \<union> path_join folder_path ` set names
   \<and> length (snd (foldl (file_step e folder_path) st names)) \<le> length (snd st) + length names"
proof (induction names arbitrary: st)
  case Nil
  then show ?case by simp
next
  case (Cons n names)
  have "set (snd (file_step e folder_path st n)) \<subseteq> set (snd st) \<union> {path_join folder_path n}
        \<and> length (snd (file_step e folder_path st n)) \<le> Suc (length (snd st))"
    using file_step_errored[of e folder_path st n] by auto
  then show ?case using Cons.IH[of "file_step e folder_path st n"] by auto
qed

lemma demo_target: "new_filename (py_upper ''Acme'') ''9.50'' = ''ACME -- 9_50.pdf''"
  by (simp add: new_filename_segment amount_segment_def amount_char_def
      py_upper_def upper_char_def is_lower_letter_def char_of_def bit_simps)

lemma foldl_file_step_subseq:
  "subseq (snd (foldl (file_step e folder_path) st names)) (snd st @ map (path_join folder_path) names)"
proof (induction names arbitrary: st)
  case Nil
  then show ?case by simp
next
  case (Cons n names)
  have "subseq (snd (file_step e folder_path st n) @ map (path_join folder_path) names)
          (snd st @ path_join folder_path n # map (path_join folder_path) names)"
    using file_step_errored[of e folder_path st n] by (auto simp: subseq_append' intro: list_emb_Cons)
  then show ?case
    using Cons.IH[of "file_step e folder_path st n"] by (auto intro: subseq_order.order_trans)
qed

text \<open>
  Paths inside an absolute folder written without a trailing slash, as the
  drivers build them with \<open>os.path.join\<close>.
\<close>

lemma driver_paths:
  assumes "folder_path \<noteq> []" "hd folder_path = CHR ''/''" "last folder_path \<noteq> CHR ''/''"
    and "filename \<noteq> []" "CHR ''/'' \<notin> set filename"
  shows "raw_folder folder_path = folder_path @ ''/raw''"
    and "processed_folder folder_path = folder_path @ ''/processed''"
    and "path_join folder_path filename = folder_path @ ''/'' @ filename"
    and "path_join (raw_folder folder_path) filename = folder_path @ ''/raw/'' @ filename"
    and "path_join (processed_folder folder_path) filename = folder_path @ ''/processed/'' @ filename"
    and "\<And>p. resolve e (folder_path @ p) = folder_path @ p"
  using assms by (simp_all add: raw_folder_def processed_folder_def path_join_plain resolve_absolute)

lemma image_name_not_dir: "is_image_name filename \<Longrightarrow> filename \<noteq> ''raw'' \<and> filename \<noteq> ''processed''"
  by (auto simp: is_image_name_def image_exts_def py_lower_def lower_char_def is_upper_letter_def ends_with_def)

text \<open>
  One iteration of the newer driver on an image whose extracted text is a
  well-formed answer: the processed copy is written under the canonical name,
  the original is moved into \<open>raw\<close>, and the error list is unchanged.
\<close>

lemma file_step_image:
  assumes folder: "folder_path \<noteq> []" "hd folder_path = CHR ''/''" "last folder_path \<noteq> CHR ''/''"
    and dirs: "fs (folder_path @ ''/raw'') = Some DirE" "fs (folder_path @ ''/processed'') = Some DirE"
    and name: "is_image_name filename" "filename \<noteq> []" "CHR ''/'' \<notin> set filename"
    and input: "fs (folder_path @ ''/'' @ filename) = Some (FileE data)"
    and img: "extract_info_from_image e fs (folder_path @ ''/'' @ filename) = JStr (dumps (info_json company_name amount))"
    and fields: "CHR ''/'' \<notin> set company_name" "CHR ''/'' \<notin> set amount"
    and conv: "image_to_pdf e data = Some pdf"
    and target: "fs (folder_path @ ''/processed/'' @ new_filename (py_upper company_name) amount) \<noteq> Some DirE"
    and raw: "fs (folder_path @ ''/raw/'' @ filename) = None"
  shows "file_step e folder_path (fs, errored_files) filename =
           ((fs(folder_path @ ''/processed/'' @ new_filename (py_upper company_name) amount \<mapsto> FileE pdf))
              (folder_path @ ''/'' @ filename := None, folder_path @ ''/raw/'' @ filename \<mapsto> FileE data),
            errored_files)"
proof -
  define nf where "nf = new_filename (py_upper company_name) amount"
  define src where "src = folder_path @ ''/'' @ filename"
  define tgt where "tgt = folder_path @ ''/processed/'' @ nf"
  define dst where "dst = folder_path @ ''/raw/'' @ filename"
  have nf: "nf \<noteq> []" "CHR ''/'' \<notin> set nf"
    using fields py_upper_no_slash[of company_name] by (simp_all add: nf_def new_filename_slash)
      (simp add: new_filename_def)
  note p = driver_paths[OF folder name(2,3)] driver_paths(5)[OF folder nf]
  have ne: "src \<noteq> tgt" "dst \<noteq> tgt" "folder_path @ ''/raw'' \<noteq> tgt"
    using name nf by (auto simp: src_def tgt_def dst_def)
  have dtgt: "dirname tgt = folder_path @ ''/processed''"
    using dirname_append[of "folder_path @ ''/processed''" nf] nf by (simp add: tgt_def)
  have ddst: "dirname dst = folder_path @ ''/raw''"
    using dirname_append[of "folder_path @ ''/raw''" filename] name by (simp add: dst_def)
  have "is_image_name src" using name(1) is_image_name_append[of filename "folder_path @ ''/''"] by (simp add: src_def)
  then have conv': "rename_and_convert_to_pdf e fs src tgt = Inr (fs(tgt \<mapsto> FileE pdf))"
    using conv input target dirs(2) dtgt
    by (simp add: rename_and_convert_to_pdf_def read_bytes_def write_bytes_def dir_ok_def src_def tgt_def nf_def
        split: option.splits fentry.splits)
  have mv: "move (fs(tgt \<mapsto> FileE pdf)) src dst = Inr ((fs(tgt \<mapsto> FileE pdf))(src := None, dst \<mapsto> FileE data))"
    using ne raw input dirs(1) ddst
    by (simp add: move_def rename_file_def dir_ok_def src_def dst_def)
  have pj: "resolve e (path_join folder_path filename) = src"
    "resolve e (path_join (processed_folder folder_path) nf) = tgt"
    "resolve e (path_join (raw_folder folder_path) filename) = dst"
    using p by (simp_all add: src_def tgt_def dst_def)
  have img': "extract_info_from_image e fs src = JStr (dumps (info_json company_name amount))"
    using img by (simp add: src_def)
  have "process_file e folder_path fs filename = Some (Inr ((fs(tgt \<mapsto> FileE pdf))(src := None, dst \<mapsto> FileE data)))"
    using name(1) img' conv' mv
    by (simp add: process_file_def Let_def pj file_info_def info_fields_info_json nf_def[symmetric])
  then show ?thesis
    by (simp add: file_step_def src_def tgt_def dst_def nf_def)
qed

lemma extract_offline:
  assumes "\<And>hs p. chat_api e hs p = TransportError" and "\<And>d. ocr e d = None"
  shows "extract_info_from_image e fs image_path = JStr (dumps (info_json [] []))"
  using assms
  by (cases "read_bytes fs image_path")
     (simp_all add: extract_info_from_image_def vision_request_def encode_image_def extract_info_with_tesseract_def
      tesseract_fields_def)

lemma offline_target: "new_filename (py_upper []) [] = '' -- .pdf''"
  by (simp add: new_filename_def py_upper_def py_replace_def)

subsection \<open>Properties of the drivers\<close>

text \<open>
  C1: End to end, one image invoice whose service answer is well formed: the
  newer driver writes the converted PDF under its canonical name in
  \<open>processed\<close>, moves the original into \<open>raw\<close>, changes nothing else and
  records no error.
\<close>

theorem process_image_invoice:
  assumes folder: "folder_path \<noteq> []" "hd folder_path = CHR ''/''" "last folder_path \<noteq> CHR ''/''"
    and dirs: "fs (raw_folder folder_path) = Some DirE" "fs (processed_folder folder_path) = Some DirE"
    and name: "is_image_name filename" "filename \<noteq> []" "CHR ''/'' \<notin> set filename"
    and input: "fs (path_join folder_path filename) = Some (FileE data)"
    and reply: "chat_api e (headers e) (payload prompt_rename (b64encode data)) =
                  HttpBody (dumps (chat_reply (dumps (info_json company_name amount))))"
    and fields: "CHR ''/'' \<notin> set company_name" "CHR ''/'' \<notin> set amount"
    and conv: "image_to_pdf e data = Some pdf"
    and target: "fs (path_join (processed_folder folder_path) (new_filename (py_upper company_name) amount)) \<noteq> Some DirE"
    and raw: "fs (path_join (raw_folder folder_path) filename) = None"
  shows "process_invoices e fs folder_path [filename] =
           Inr ((fs(path_join (processed_folder folder_path) (new_filename (py_upper company_name) amount) \<mapsto> FileE pdf))
                  (path_join folder_path filename := None,
                   path_join (raw_folder folder_path) filename \<mapsto> FileE data), [])"
proof -
  define nf where "nf = new_filename (py_upper company_name) amount"
  have nf: "nf \<noteq> []" "CHR ''/'' \<notin> set nf"
    using fields py_upper_no_slash[of company_name] by (simp_all add: nf_def new_filename_slash)
      (simp add: new_filename_def)
  note p = driver_paths[OF folder name(2,3)] driver_paths(5)[OF folder nf]
  have img: "extract_info_from_image e fs (folder_path @ ''/'' @ filename) = JStr (dumps (info_json company_name amount))"
    using vision_request_reply[of fs "folder_path @ ''/'' @ filename" data e prompt_rename] input reply p
    by (simp add: extract_info_from_image_def)
  have step: "file_step e folder_path (fs, []) filename =
     ((fs(folder_path @ ''/processed/'' @ nf \<mapsto> FileE pdf))
        (folder_path @ ''/'' @ filename := None, folder_path @ ''/raw/'' @ filename \<mapsto> FileE data), [])"
    unfolding nf_def
    by (rule file_step_image[OF folder _ _ name _ img fields conv]) (use dirs input target raw p in \<open>simp_all add: nf_def\<close>)
  show ?thesis
    using step dirs p name(1)
    by (simp add: process_invoices_def makedirs_exists is_invoice_name_iff nf_def)
qed

theorem process_image_invoice_witness:
  "process_invoices demo_env demo_fs ''/inv'' [''a.png''] =
     Inr ((demo_fs(''/inv/processed/ACME -- 9_50.pdf'' \<mapsto> FileE [5]))
            (''/inv/a.png'' := None, ''/inv/raw/a.png'' \<mapsto> FileE [3]), [])"
proof -
  have "process_invoices demo_env demo_fs ''/inv'' [''a.png''] =
     Inr ((demo_fs(path_join (processed_folder ''/inv'') (new_filename (py_upper ''Acme'') ''9.50'') \<mapsto> FileE [5]))
            (path_join ''/inv'' ''a.png'' := None, path_join (raw_folder ''/inv'') ''a.png'' \<mapsto> FileE [3]), [])"
    by (rule process_image_invoice[where data = "[3]"])
       (simp_all add: demo_env_def offline_env_def demo_fs_def raw_folder_def processed_folder_def path_join_def
         is_image_name_def image_exts_def py_lower_def lower_char_def is_upper_letter_def ends_with_def demo_target)
  then show ?thesis by (simp add: demo_target raw_folder_def processed_folder_def path_join_def)
qed

text \<open>
  C2: Per-file failure boundary: once \<open>raw\<close> and \<open>processed\<close> exist, the
  newer driver returns normally whatever the files, the services and the file
  system do, and its error list is a subsequence of the paths of the listed
  invoice names: in listing order, at most one entry per listed name.
\<close>

theorem process_invoices_never_raises:
  assumes "fs (resolve e (raw_folder folder_path)) = Some DirE"
    and "fs (resolve e (processed_folder folder_path)) = Some DirE"
  shows "\<exists>fs' errored_files. process_invoices e fs folder_path names = Inr (fs', errored_files)
           \<and> subseq errored_files (map (path_join folder_path) (filter is_invoice_name names))
           \<and> set errored_files \<subseteq> path_join folder_path ` set (filter is_invoice_name names)
           \<and> length errored_files \<le> length (filter is_invoice_name names)"
proof -
  obtain fs' errored_files where r: "foldl (file_step e folder_path) (fs, []) (filter is_invoice_name names) = (fs', errored_files)"
    by (cases "foldl (file_step e folder_path) (fs, []) (filter is_invoice_name names)")
  show ?thesis
    using assms r foldl_file_step_errored[of e folder_path "(fs, [])" "filter is_invoice_name names"]
      foldl_file_step_subseq[of e folder_path "(fs, [])" "filter is_invoice_name names"]
    by (simp add: process_invoices_def makedirs_exists)
qed

theorem process_invoices_never_raises_witness:
  "\<exists>fs' errored_files. process_invoices demo_env demo_fs ''/inv'' [''a.png'', ''notes.txt''] = Inr (fs', errored_files)
     \<and> subseq errored_files (map (path_join ''/inv'') (filter is_invoice_name [''a.png'', ''notes.txt'']))
     \<and> set errored_files \<subseteq> path_join ''/inv'' ` set (filter is_invoice_name [''a.png'', ''notes.txt''])
     \<and> length errored_files \<le> length (filter is_invoice_name [''a.png'', ''notes.txt''])"
  by (rule process_invoices_never_raises)
     (simp_all add: demo_env_def offline_env_def demo_fs_def raw_folder_def processed_folder_def path_join_def resolve_def)

text \<open>
  C17: The older driver has no per-file boundary: a transport error on the first
  listed image ends the whole run with the exception, and the later files are
  not looked at.
\<close>

theorem label_aborts_on_first_error:
  assumes "fs (resolve e (raw_folder folder_path)) = Some DirE"
    and "fs (resolve e (processed_folder folder_path)) = Some DirE"
    and "is_image_name filename" and "fs (resolve e (path_join folder_path filename)) = Some (FileE data)"
    and "chat_api e (headers e) (payload prompt_label (b64encode data)) = TransportError"
  shows "process_invoices_label e fs folder_path (filename # names) = Inl (RequestError, fs)"
  using assms
  by (simp add: process_invoices_label_def makedirs_exists label_step_def Let_def extract_info_from_image_label_def
      vision_request_def encode_image_def read_bytes_def)

theorem label_aborts_on_first_error_witness:
  "process_invoices_label offline_env demo_fs ''/inv'' [''a.png'', ''b.pdf''] = Inl (RequestError, demo_fs)"
  by (rule label_aborts_on_first_error[where data = "[3]"])
     (simp_all add: offline_env_def demo_fs_def raw_folder_def processed_folder_def path_join_def resolve_def
        is_image_name_def image_exts_def py_lower_def lower_char_def is_upper_letter_def ends_with_def)

text \<open>
  C20: A model reply whose content is wrapped in a Markdown code fence (it
  starts with three backquotes) is never recovered: the extractor passes it on
  unparsed, \<open>json.loads\<close> raises in the driver, the OCR fallback is not
  tried, and the image is only recorded as errored, whatever the rest of the
  reply holds and whatever the file system.
\<close>

theorem fenced_reply_errored:
  assumes "is_image_name filename"
    and "fs (resolve e (path_join folder_path filename)) = Some (FileE data)"
    and "chat_api e (headers e) (payload prompt_rename (b64encode data)) =
           HttpBody (dumps (chat_reply (''```'' @ rest)))"
  shows "file_step e folder_path (fs, errored_files) filename =
           (fs, errored_files @ [path_join folder_path filename])"
proof -
  have "extract_info_from_image e fs (resolve e (path_join folder_path filename)) = JStr (''```'' @ rest)"
    using vision_request_reply[of fs "resolve e (path_join folder_path filename)" data e prompt_rename "''```'' @ rest"]
      assms(2,3)
    by (simp add: extract_info_from_image_def)
  moreover have "loads (CHR 0x60 # CHR 0x60 # CHR 0x60 # rest) = Inl JSONDecodeError"
    using loads_fenced_reply[of rest] by simp
  then have "info_fields (JStr (''```'' @ rest)) = Inl JSONDecodeError"
    by (simp add: info_fields_def loads_value_def)
  ultimately show ?thesis
    using assms(1) by (simp add: file_step_def process_file_def file_info_def Let_def)
qed

theorem fenced_reply_errored_witness:
  "file_step (offline_env\<lparr>chat_api := (\<lambda>_ _. HttpBody (dumps (chat_reply fenced_content)))\<rparr>) ''/inv'' (demo_fs, [])
     ''a.png'' = (demo_fs, [''/inv/a.png''])"
proof -
  have f: "CHR 0x60 # CHR 0x60 # CHR 0x60 # drop 3 fenced_content = fenced_content"
    by (simp add: fenced_content_def)
  have "file_step (offline_env\<lparr>chat_api := (\<lambda>_ _. HttpBody (dumps (chat_reply fenced_content)))\<rparr>) ''/inv'' (demo_fs, [])
     ''a.png'' = (demo_fs, [] @ [path_join ''/inv'' ''a.png''])"
    by (rule fenced_reply_errored[where data = "[3]" and rest = "drop 3 fenced_content"])
       (simp_all add: f is_image_name_def image_exts_def py_lower_def lower_char_def is_upper_letter_def
         ends_with_def demo_fs_def offline_env_def resolve_def path_join_def)
  then show ?thesis by (simp add: path_join_def)
qed

text \<open>
  C3: Batch isolation: whatever exception the first listed invoice raises, and
  whatever state of the file system it leaves, it is reported by its path and
  the next image is still converted, written under its canonical name and
  archived, exactly as if it were alone.
\<close>

theorem batch_isolation:
  assumes folder: "folder_path \<noteq> []" "hd folder_path = CHR ''/''" "last folder_path \<noteq> CHR ''/''"
    and dirs: "fs (folder_path @ ''/raw'') = Some DirE" "fs (folder_path @ ''/processed'') = Some DirE"
    and fail: "is_invoice_name failing" "process_file e folder_path fs failing = Some (Inl (err, fs1))"
    and dirs1: "fs1 (folder_path @ ''/raw'') = Some DirE" "fs1 (folder_path @ ''/processed'') = Some DirE"
    and name: "is_image_name filename" "filename \<noteq> []" "CHR ''/'' \<notin> set filename"
    and input: "fs1 (folder_path @ ''/'' @ filename) = Some (FileE data)"
    and reply: "chat_api e (headers e) (payload prompt_rename (b64encode data)) =
                  HttpBody (dumps (chat_reply (dumps (info_json company_name amount))))"
    and fields: "CHR ''/'' \<notin> set company_name" "CHR ''/'' \<notin> set amount"
    and conv: "image_to_pdf e data = Some pdf"
    and target: "fs1 (folder_path @ ''/processed/'' @ new_filename (py_upper company_name) amount) \<noteq> Some DirE"
    and raw: "fs1 (folder_path @ ''/raw/'' @ filename) = None"
  shows "process_invoices e fs folder_path [failing, filename] =
           Inr ((fs1(folder_path @ ''/processed/'' @ new_filename (py_upper company_name) amount \<mapsto> FileE pdf))
                  (folder_path @ ''/'' @ filename := None, folder_path @ ''/raw/'' @ filename \<mapsto> FileE data),
                [path_join folder_path failing])"
proof -
  note p = driver_paths[OF folder name(2,3)]
  have img: "extract_info_from_image e fs1 (folder_path @ ''/'' @ filename) = JStr (dumps (info_json company_name amount))"
    using vision_request_reply[of fs1 "folder_path @ ''/'' @ filename" data e prompt_rename] input reply
    by (simp add: extract_info_from_image_def)
  have first: "file_step e folder_path (fs, []) failing = (fs1, [path_join folder_path failing])"
    using fail(2) by (simp add: file_step_def)
  have second: "file_step e folder_path (fs1, [path_join folder_path failing]) filename =
     ((fs1(folder_path @ ''/processed/'' @ new_filename (py_upper company_name) amount \<mapsto> FileE pdf))
        (folder_path @ ''/'' @ filename := None, folder_path @ ''/raw/'' @ filename \<mapsto> FileE data),
      [path_join folder_path failing])"
    by (rule file_step_image[OF folder dirs1 name input img fields conv target raw])
  show ?thesis
    using first second dirs p fail(1) name(1)
    by (simp add: process_invoices_def makedirs_exists is_invoice_name_iff)
qed

theorem batch_isolation_witness:
  "process_invoices (demo_env\<lparr>image_to_pdf := (\<lambda>d. if d = [1] then None else Some [5])\<rparr>) iso_fs ''/inv''
     [''b.png'', ''a.png''] =
   Inr ((iso_fs(''/inv/processed/ACME -- 9_50.pdf'' \<mapsto> FileE [5]))(''/inv/a.png'' := None, ''/inv/raw/a.png'' \<mapsto> FileE [3]),
        [''/inv/b.png''])"
proof -
  let ?e = "demo_env\<lparr>image_to_pdf := (\<lambda>d. if d = [1] then None else Some [5])\<rparr>"
  have fail: "process_file ?e ''/inv'' iso_fs ''b.png'' = Some (Inl (ImageError, iso_fs))"
    by (simp add: process_file_def file_info_def extract_info_from_image_def vision_request_reply info_fields_info_json
        Let_def demo_target rename_and_convert_to_pdf_def read_bytes_def processed_folder_def path_join_def resolve_def
        iso_fs_def demo_fs_def demo_env_def offline_env_def is_image_name_def image_exts_def py_lower_def lower_char_def
        is_upper_letter_def ends_with_def)
  have "process_invoices ?e iso_fs ''/inv'' [''b.png'', ''a.png''] =
     Inr ((iso_fs(''/inv'' @ ''/processed/'' @ new_filename (py_upper ''Acme'') ''9.50'' \<mapsto> FileE [5]))
            (''/inv'' @ ''/'' @ ''a.png'' := None, ''/inv'' @ ''/raw/'' @ ''a.png'' \<mapsto> FileE [3]),
          [path_join ''/inv'' ''b.png''])"
    by (rule batch_isolation[OF _ _ _ _ _ _ fail, where data = "[3]"])
       (simp_all add: iso_fs_def demo_fs_def demo_env_def offline_env_def demo_target is_invoice_name_def
         is_image_name_def image_exts_def py_lower_def lower_char_def is_upper_letter_def ends_with_def)
  then show ?thesis by (simp add: demo_target path_join_def)
qed

text \<open>
  C19: When the service is unreachable and the OCR engine fails, every image
  is named \<open> -- .pdf\<close>: of two listed images the second conversion overwrites
  the first in \<open>processed\<close>, both originals are archived, and no error is
  reported, so the first invoice is left without a processed copy unnoticed.
\<close>

theorem offline_images_collide:
  assumes folder: "folder_path \<noteq> []" "hd folder_path = CHR ''/''" "last folder_path \<noteq> CHR ''/''"
    and dirs: "fs (folder_path @ ''/raw'') = Some DirE" "fs (folder_path @ ''/processed'') = Some DirE"
    and offline: "\<And>hs p. chat_api e hs p = TransportError" "\<And>d. ocr e d = None"
    and names: "is_image_name a" "a \<noteq> []" "CHR ''/'' \<notin> set a" "is_image_name b" "b \<noteq> []" "CHR ''/'' \<notin> set b"
      "a \<noteq> b"
    and inputs: "fs (folder_path @ ''/'' @ a) = Some (FileE da)" "fs (folder_path @ ''/'' @ b) = Some (FileE db)"
    and conv: "image_to_pdf e da = Some pa" "image_to_pdf e db = Some pb"
    and target: "fs (folder_path @ ''/processed/ -- .pdf'') \<noteq> Some DirE"
    and raw: "fs (folder_path @ ''/raw/'' @ a) = None" "fs (folder_path @ ''/raw/'' @ b) = None"
  shows "\<exists>fs'. process_invoices e fs folder_path [a, b] = Inr (fs', [])
           \<and> fs' (folder_path @ ''/processed/ -- .pdf'') = Some (FileE pb)
           \<and> fs' (folder_path @ ''/raw/'' @ a) = Some (FileE da)
           \<and> fs' (folder_path @ ''/raw/'' @ b) = Some (FileE db)"
proof -
  define T where "T = folder_path @ ''/processed/ -- .pdf''"
  define fs1 where "fs1 = (fs(T \<mapsto> FileE pa))(folder_path @ ''/'' @ a := None, folder_path @ ''/raw/'' @ a \<mapsto> FileE da)"
  have nd: "a \<noteq> ''raw''" "a \<noteq> ''processed''" "b \<noteq> ''raw''" "b \<noteq> ''processed''"
    using image_name_not_dir names(1,4) by blast+
  have img: "\<And>fs p. extract_info_from_image e fs p = JStr (dumps (info_json [] []))"
    by (rule extract_offline[OF offline])
  have s1: "file_step e folder_path (fs, []) a = (fs1, [])"
    unfolding fs1_def T_def
    using file_step_image[OF folder dirs names(1-3) inputs(1) img _ _ conv(1), of "[]"] target raw(1)
    by (simp add: offline_target)
  have fs1: "fs1 (folder_path @ ''/raw'') = Some DirE" "fs1 (folder_path @ ''/processed'') = Some DirE"
    "fs1 (folder_path @ ''/'' @ b) = Some (FileE db)" "fs1 T \<noteq> Some DirE" "fs1 (folder_path @ ''/raw/'' @ b) = None"
    using dirs inputs raw names nd by (auto simp: fs1_def T_def)
  have s2: "file_step e folder_path (fs1, []) b =
     ((fs1(T \<mapsto> FileE pb))(folder_path @ ''/'' @ b := None, folder_path @ ''/raw/'' @ b \<mapsto> FileE db), [])"
    unfolding T_def
    using file_step_image[OF folder fs1(1,2) names(4-6) fs1(3) img _ _ conv(2), of "[]"] fs1(4,5)
    by (simp add: offline_target T_def)
  have "process_invoices e fs folder_path [a, b] =
     Inr ((fs1(T \<mapsto> FileE pb))(folder_path @ ''/'' @ b := None, folder_path @ ''/raw/'' @ b \<mapsto> FileE db), [])"
    using s1 s2 dirs driver_paths[OF folder names(2,3)] names(1,4)
    by (simp add: process_invoices_def makedirs_exists is_invoice_name_iff)
  then show ?thesis
    using names by (auto simp: fs1_def T_def)
qed

theorem offline_images_collide_witness:
  "\<exists>fs'. process_invoices (offline_env\<lparr>image_to_pdf := (\<lambda>d. Some d)\<rparr>) offline_fs ''/inv'' [''a.png'', ''b.png''] = Inr (fs', [])
     \<and> fs' (''/inv'' @ ''/processed/ -- .pdf'') = Some (FileE [2])
     \<and> fs' (''/inv'' @ ''/raw/'' @ ''a.png'') = Some (FileE [1])
     \<and> fs' (''/inv'' @ ''/raw/'' @ ''b.png'') = Some (FileE [2])"
  by (rule offline_images_collide)
     (simp_all add: offline_env_def offline_fs_def is_image_name_def image_exts_def py_lower_def lower_char_def
       is_upper_letter_def ends_with_def)

end
