(* ===== verification/Cli.thy ===== *)
theory Cli
  imports Batch
begin

text \<open>
  The command-line entry point of both scripts (\<open>src/rename_invoices.py\<close>
  lines 157--161, \<open>src/label_invoices.py\<close> lines 96--101): an
  \<open>argparse.ArgumentParser\<close> with the single positional argument
  \<open>folder_path\<close> and the option \<open>-h\<close>/\<open>--help\<close> that every parser has,
  followed by a call of \<open>process_invoices\<close>. The parser is modelled as
  CPython's \<open>argparse\<close> treats this parser: each argument string is
  classified by \<open>_parse_optional\<close> (help flag, help flag given an explicit
  argument, unknown option, positional, or the separator \<open>--\<close>), the
  options are acted upon in order (help exits at once, an explicit argument
  to help is an error at once), and at the end a missing \<open>folder_path\<close> and
  then left-over strings are errors.
\<close>

datatype cli_arg = ArgSep | ArgHelp | ArgBad | ArgOpt | ArgPos

text \<open>\<open>_negative_number_matcher\<close>: \<open>^-\d+$|^-\d*\.\d+$\<close>, where \<open>$\<close> also
  matches before a final newline.\<close>

definition is_negative_number :: "string \<Rightarrow> bool" where
  "is_negative_number a =
     (case a of
        CHR ''-'' # b \<Rightarrow>
          (let ds = (if b \<noteq> [] \<and> last b = CHR 0x0A then butlast b else b);
               fr = dropWhile is_digit ds
           in (ds \<noteq> [] \<and> list_all is_digit ds)
              \<or> (case fr of CHR ''.'' # f \<Rightarrow> f \<noteq> [] \<and> list_all is_digit f | _ \<Rightarrow> False))
      | _ \<Rightarrow> False)"

text \<open>
  \<open>_parse_optional\<close> and \<open>_get_option_tuples\<close> for the option strings
  \<open>-h\<close> and \<open>--help\<close>: an exact match; \<open>-h\<close> followed by more characters
  (a cluster of \<open>h\<close>s is help repeated, anything else an explicit argument
  that \<open>consume_optional\<close> refuses); \<open>--\<close> followed by a prefix of
  \<open>help\<close> (an abbreviation), or by such a prefix, \<open>=\<close> and an explicit
  argument; then negative numbers and strings with a space are positional,
  and any other string starting with \<open>-\<close> is an unknown option.
\<close>

definition classify_arg :: "string \<Rightarrow> cli_arg" where
  "classify_arg a =
     (if a = ''--'' then ArgSep
      else if a = [] \<or> hd a \<noteq> CHR ''-'' then ArgPos
      else if a = ''-h'' \<or> a = ''--help'' then ArgHelp
      else if length a = 1 then ArgPos
      else if take 2 a = ''-h'' then (if list_all (\<lambda>c. c = CHR ''h'') (drop 2 a) then ArgHelp else ArgBad)
      else if take 2 a = ''--'' \<and> CHR ''='' \<in> set a
              \<and> prefix (takeWhile (\<lambda>c. c \<noteq> CHR ''='') (drop 2 a)) ''help'' then ArgBad
      else if take 2 a = ''--'' \<and> prefix (drop 2 a) ''help'' then ArgHelp
      else if is_negative_number a \<or> CHR '' '' \<in> set a then ArgPos
      else ArgOpt)"

datatype arg_error = MissingFolder | Unrecognized | IgnoredExplicit

datatype parse_result = ParseHelp | ParseError arg_error | Parsed string

text \<open>
  \<open>_parse_known_args\<close> and \<open>parse_args\<close>: \<open>pos\<close> collects the positional
  strings in order, \<open>unk\<close> records an unknown option left over in the extras.
  After the first \<open>--\<close> every string is positional and the separator itself
  is dropped from the value.
\<close>

fun scan_args :: "string list \<Rightarrow> string list \<Rightarrow> bool \<Rightarrow> parse_result" where
  "scan_args [] pos unk =
     (if pos = [] then ParseError MissingFolder
      else if unk \<or> length pos \<noteq> 1 then ParseError Unrecognized
      else Parsed (hd pos))"
| "scan_args (a # as) pos unk =
     (case classify_arg a of
        ArgSep \<Rightarrow> scan_args [] (pos @ as) unk
      | ArgHelp \<Rightarrow> ParseHelp
      | ArgBad \<Rightarrow> ParseError IgnoredExplicit
      | ArgOpt \<Rightarrow> scan_args as pos True
      | ArgPos \<Rightarrow> scan_args as (pos @ [a]) unk)"

definition parse_args :: "string list \<Rightarrow> parse_result" where
  "parse_args argv = scan_args argv [] False"

text \<open>
  The \<open>if __name__ == "__main__"\<close> block, shared by both scripts: help is
  printed and the process exits with status 0, a usage error exits with
  status 2, both before anything else runs; otherwise the driver runs on the
  folder.
\<close>

datatype 'a cli_outcome = CliHelp | CliUsage arg_error | CliRan 'a

definition cli_main :: "(path \<Rightarrow> 'a) \<Rightarrow> string list \<Rightarrow> 'a cli_outcome" where
  "cli_main run argv =
     (case parse_args argv of
        ParseHelp \<Rightarrow> CliHelp
      | ParseError err \<Rightarrow> CliUsage err
      | Parsed folder \<Rightarrow> CliRan (run folder))"

definition exit_status :: "('a + 'b) cli_outcome \<Rightarrow> int" where
  "exit_status out = (case out of CliHelp \<Rightarrow> 0 | CliUsage _ \<Rightarrow> 2 | CliRan (Inl _) \<Rightarrow> 1 | CliRan (Inr _) \<Rightarrow> 0)"

definition main_rename :: "env \<Rightarrow> fs \<Rightarrow> string list \<Rightarrow> string list \<Rightarrow> (fs \<times> path list) result cli_outcome" where
  "main_rename e fs argv names = cli_main (\<lambda>folder_path. process_invoices e fs folder_path names) argv"

definition main_label :: "env \<Rightarrow> fs \<Rightarrow> string list \<Rightarrow> string list \<Rightarrow> ((py_error \<times> fs) + fs) cli_outcome" where
  "main_label e fs argv names = cli_main (\<lambda>folder_path. process_invoices_label e fs folder_path names) argv"

subsection \<open>The parser\<close>

lemma classify_arg_sep [simp]: "classify_arg a = ArgSep \<longleftrightarrow> a = ''--''"
  and classify_arg_dashes [simp]: "classify_arg ''--'' = ArgSep"
  by (simp_all add: classify_arg_def)

lemma scan_args_unk: "scan_args as pos True \<noteq> Parsed f"
  by (induction as arbitrary: pos) (auto split: cli_arg.split)

lemma scan_args_two: "2 \<le> length pos \<Longrightarrow> scan_args as pos unk \<noteq> Parsed f"
  by (induction as arbitrary: pos unk) (auto split: cli_arg.split simp: scan_args_unk)

lemma scan_args_one:
  "scan_args as [p] False = Parsed f \<longleftrightarrow> f = p \<and> (as = [] \<or> as = [''--''])"
proof (cases as)
  case (Cons a as')
  then show ?thesis
    by (cases "classify_arg a") (auto simp: scan_args_unk scan_args_two)
qed auto

lemma scan_args_parsed:
  "scan_args as [] False = Parsed f \<longleftrightarrow>
     as = [f] \<and> classify_arg f = ArgPos \<or> as = [''--'', f] \<or> as = [f, ''--''] \<and> classify_arg f = ArgPos"
proof (cases as)
  case (Cons a as')
  then show ?thesis
    by (cases "classify_arg a") (auto simp: scan_args_unk scan_args_one length_Suc_conv)
qed simp

lemma cli_main_ran:
  "cli_main run argv = CliRan r \<longleftrightarrow> (\<exists>folder. parse_args argv = Parsed folder \<and> r = run folder)"
  by (auto simp: cli_main_def split: parse_result.split)

text \<open>
  The command lines of the specification and the corners of the library
  default: no argument is a usage error; \<open>-h\<close> and its abbreviations print
  help wherever they stand before \<open>--\<close>; a folder name that starts with
  \<open>-\<close> is taken for an unknown option (and then \<open>folder_path\<close> is
  missing) unless it looks like a negative number or follows \<open>--\<close>.
\<close>

lemma cli_examples:
  "parse_args [] = ParseError MissingFolder \<and> parse_args [''-h''] = ParseHelp
   \<and> parse_args [''/scans'', ''--help''] = ParseHelp \<and> parse_args [''--he''] = ParseHelp
   \<and> parse_args [''-scans''] = ParseError MissingFolder \<and> parse_args [''-hx''] = ParseError IgnoredExplicit
   \<and> parse_args [''--'', ''-scans''] = Parsed ''-scans'' \<and> parse_args [''-2024''] = Parsed ''-2024''
   \<and> parse_args [''a'', ''b''] = ParseError Unrecognized \<and> parse_args [''a'', ''-x''] = ParseError Unrecognized"
  by code_simp

lemma main_label_runs_one_folder:
  "main_label e fs argv names = CliRan r \<longleftrightarrow>
     (\<exists>folder. (argv = [folder] \<and> classify_arg folder = ArgPos \<or> argv = [''--'', folder]
                 \<or> argv = [folder, ''--''] \<and> classify_arg folder = ArgPos)
               \<and> r = process_invoices_label e fs folder names)"
  by (auto simp: main_label_def cli_main_ran parse_args_def scan_args_parsed)

subsection \<open>Properties of the entry point\<close>

text \<open>
  C10: The driver runs exactly when the command line is one folder argument,
  possibly with the separator \<open>--\<close> before it (or after it, when it does not
  look like an option), and then it runs on that folder; every other command
  line ends in help or a usage error before any directory is created or file
  touched.
\<close>

theorem main_rename_runs_one_folder:
  "main_rename e fs argv names = CliRan r \<longleftrightarrow>
     (\<exists>folder. (argv = [folder] \<and> classify_arg folder = ArgPos \<or> argv = [''--'', folder]
                 \<or> argv = [folder, ''--''] \<and> classify_arg folder = ArgPos)
               \<and> r = process_invoices e fs folder names)"
  by (auto simp: main_rename_def cli_main_ran parse_args_def scan_args_parsed)

theorem main_rename_runs_one_folder_witness:
  "main_rename demo_env demo_fs [''--'', ''-scans''] [''a.png''] = CliRan (process_invoices demo_env demo_fs ''-scans'' [''a.png''])
   \<and> (\<forall>r. main_rename demo_env demo_fs [''-scans''] [''a.png''] \<noteq> CliRan r)"
proof -
  have "classify_arg ''-scans'' = ArgOpt"
    by code_simp
  then show ?thesis
    using main_rename_runs_one_folder[of demo_env demo_fs "[''--'', ''-scans'']" "[''a.png'']"]
      main_rename_runs_one_folder[of demo_env demo_fs "[''-scans'']" "[''a.png'']"]
    by auto
qed

end
